(* ===== verification/Py_Prelude.thy ===== *)
theory Py_Prelude
  imports Main "HOL-Library.AList" "HOL-Library.Sublist"
begin

text \<open>
  What the components share: Python values, exception classes and exceptions, the results of code that
  may raise, and the collections of simplification rules of the development.  Strings are lists of
  characters with code points below 256.
\<close>

named_theorems eff_simps \<open>unfolding of effects at a state\<close>
named_theorems eff_mono \<open>monotonicity of effects in the recursive call\<close>
named_theorems class_simps \<open>computation of the exception class hierarchy\<close>

section \<open>Python values\<close>

text \<open>
  \<open>PFloat m e\<close> is the float with decimal literal \<open>m\<close> times ten to the \<open>e\<close>; \<open>PObj\<close> stands for
  a value of any other type (a model instance, a file, a set), which the package only passes on.
\<close>

datatype pyval =
    PNone
  | PBool bool
  | PInt int
  | PFloat int int
  | PStr string
  | PList "pyval list"
  | PDict "(string \<times> pyval) list"
  | PObj string

type_synonym kwargs = "(string \<times> pyval) list"

text \<open>\<open>bool(v)\<close>.\<close>

fun py_truth :: "pyval \<Rightarrow> bool" where
  "py_truth PNone = False"
| "py_truth (PBool b) = b"
| "py_truth (PInt i) = (i \<noteq> 0)"
| "py_truth (PFloat m e) = (m \<noteq> 0)"
| "py_truth (PStr s) = (s \<noteq> [])"
| "py_truth (PList xs) = (xs \<noteq> [])"
| "py_truth (PDict kvs) = (kvs \<noteq> [])"
| "py_truth (PObj s) = True"

section \<open>Exceptions\<close>

text \<open>A class is its name and its direct bases; an exception is its class, the fixed part of its
  message and the values the message shows.\<close>

datatype pyclass = Cls (cls_name: string) (cls_bases: "pyclass list")

datatype exn = Exn (exn_cls: pyclass) (exn_msg: string) (exn_args: "pyval list")

fun superclasses :: "pyclass \<Rightarrow> pyclass list" where
  "superclasses (Cls n bs) = Cls n bs # concat (map superclasses bs)"

definition issubclass :: "pyclass \<Rightarrow> pyclass \<Rightarrow> bool" where
  "issubclass c d \<longleftrightarrow> d \<in> set (superclasses c)"

definition isinstance :: "exn \<Rightarrow> pyclass \<Rightarrow> bool" where
  "isinstance e c \<longleftrightarrow> issubclass (exn_cls e) c"

lemma issubclass_refl [simp]: "issubclass c c"
  by (cases c) (simp add: issubclass_def)

lemma issubclass_step:
  "issubclass (Cls n bs) d \<longleftrightarrow> d = Cls n bs \<or> (\<exists>b \<in> set bs. issubclass b d)"
  by (auto simp: issubclass_def)

lemma issubclass_trans: "issubclass a b \<Longrightarrow> issubclass b c \<Longrightarrow> issubclass a c"
proof (induction a)
  case (Cls n bs)
  then show ?case by (metis issubclass_step)
qed

text \<open>The built-in classes, and the classes of Django, pydantic and redis-py that the package names,
  with the bases their documentation gives.\<close>

definition BaseException_cls :: pyclass where
  "BaseException_cls = Cls ''BaseException'' []"

definition Exception_cls :: pyclass where
  "Exception_cls = Cls ''Exception'' [BaseException_cls]"

definition TypeError_cls :: pyclass where
  "TypeError_cls = Cls ''TypeError'' [Exception_cls]"

definition ValueError_cls :: pyclass where
  "ValueError_cls = Cls ''ValueError'' [Exception_cls]"

definition KeyError_cls :: pyclass where
  "KeyError_cls = Cls ''KeyError'' [Cls ''LookupError'' [Exception_cls]]"

definition AttributeError_cls :: pyclass where
  "AttributeError_cls = Cls ''AttributeError'' [Exception_cls]"

definition NotImplementedError_cls :: pyclass where
  "NotImplementedError_cls = Cls ''NotImplementedError'' [Cls ''RuntimeError'' [Exception_cls]]"

definition OSError_cls :: pyclass where
  "OSError_cls = Cls ''OSError'' [Exception_cls]"

definition ImproperlyConfigured_cls :: pyclass where
  "ImproperlyConfigured_cls = Cls ''ImproperlyConfigured'' [Exception_cls]"

definition DatabaseError_cls :: pyclass where
  "DatabaseError_cls = Cls ''DatabaseError'' [Exception_cls]"

definition ValidationError_cls :: pyclass where
  "ValidationError_cls = Cls ''ValidationError'' [ValueError_cls]"

definition LockError_cls :: pyclass where
  "LockError_cls = Cls ''LockError'' [Cls ''RedisError'' [Exception_cls], ValueError_cls]"

lemmas exn_class_defs [class_simps] =
  BaseException_cls_def Exception_cls_def TypeError_cls_def ValueError_cls_def KeyError_cls_def
  AttributeError_cls_def NotImplementedError_cls_def OSError_cls_def ImproperlyConfigured_cls_def
  DatabaseError_cls_def ValidationError_cls_def LockError_cls_def

lemmas [class_simps] = issubclass_step isinstance_def

abbreviation is_Exception :: "exn \<Rightarrow> bool" where
  "is_Exception e \<equiv> isinstance e Exception_cls"

section \<open>Code that may raise\<close>

type_synonym 'a res = "exn + 'a"

definition res_bind :: "'a res \<Rightarrow> ('a \<Rightarrow> 'b res) \<Rightarrow> 'b res" where
  "res_bind r k = (case r of Inl e \<Rightarrow> Inl e | Inr a \<Rightarrow> k a)"

lemma res_bind_simps [simp]:
  "res_bind (Inl e) k = Inl e"
  "res_bind (Inr a) k = k a"
  by (simp_all add: res_bind_def)

lemma res_bind_Inr_iff: "res_bind r k = Inr b \<longleftrightarrow> (\<exists>a. r = Inr a \<and> k a = Inr b)"
  by (cases r) auto

lemma res_bind_Inl_iff:
  "res_bind r k = Inl e \<longleftrightarrow> r = Inl e \<or> (\<exists>a. r = Inr a \<and> k a = Inl e)"
  by (cases r) auto

lemma res_bind_InrE:
  "res_bind r k = Inr b \<Longrightarrow> (\<And>a. r = Inr a \<Longrightarrow> k a = Inr b \<Longrightarrow> thesis) \<Longrightarrow> thesis"
  by (cases r) auto

definition res_check :: "bool \<Rightarrow> exn \<Rightarrow> unit res" where
  "res_check b e = (if b then Inl e else Inr ())"

lemma res_check_iff [simp]:
  "res_check b e = Inr u \<longleftrightarrow> \<not> b"
  "res_check b e = Inl e' \<longleftrightarrow> b \<and> e' = e"
  by (auto simp: res_check_def)

text \<open>A loop that checks each element and stops at the first exception.\<close>

fun res_each :: "('a \<Rightarrow> unit res) \<Rightarrow> 'a list \<Rightarrow> unit res" where
  "res_each f [] = Inr ()"
| "res_each f (x # xs) = res_bind (f x) (\<lambda>_. res_each f xs)"

lemma res_each_Inr_iff: "res_each f xs = Inr () \<longleftrightarrow> (\<forall>x \<in> set xs. f x = Inr ())"
  by (induction xs) (auto simp: res_bind_Inr_iff)

lemma res_each_cong [fundef_cong]:
  "xs = ys \<Longrightarrow> (\<And>x. x \<in> set ys \<Longrightarrow> f x = g x) \<Longrightarrow> res_each f xs = res_each g ys"
  by (induction xs arbitrary: ys) auto

fun res_map :: "('a \<Rightarrow> 'b res) \<Rightarrow> 'a list \<Rightarrow> 'b list res" where
  "res_map f [] = Inr []"
| "res_map f (x # xs) = res_bind (f x) (\<lambda>y. res_bind (res_map f xs) (\<lambda>ys. Inr (y # ys)))"

lemma res_map_Inr_iff: "res_map f xs = Inr ys \<longleftrightarrow> list_all2 (\<lambda>x y. f x = Inr y) xs ys"
  by (induction xs arbitrary: ys) (auto simp: res_bind_Inr_iff list_all2_Cons1)

end
