(* ===== verification/Py_Strings.thy ===== *)
theory Py_Strings
  imports Py_Prelude
begin

text \<open>
  The string operations the package calls: \<open>str.split\<close>, \<open>str.join\<close>, \<open>str.startswith\<close>,
  \<open>str.strip\<close>, slicing off a prefix, and the conversion \<open>int(v)\<close>.
\<close>

section \<open>Splitting and joining\<close>

fun py_split :: "char \<Rightarrow> string \<Rightarrow> string list" where
  "py_split sep [] = [[]]"
| "py_split sep (c # cs) =
     (if c = sep then [] # py_split sep cs
      else (case py_split sep cs of [] \<Rightarrow> [[c]] | p # ps \<Rightarrow> (c # p) # ps))"

fun py_join :: "string \<Rightarrow> string list \<Rightarrow> string" where
  "py_join sep [] = []"
| "py_join sep [p] = p"
| "py_join sep (p # q # ps) = p @ sep @ py_join sep (q # ps)"

lemma py_split_ne [simp]: "py_split sep s \<noteq> []"
  by (cases s) (auto split: list.splits)

lemma py_join_Cons: "py_join sep (p # ps) = (if ps = [] then p else p @ sep @ py_join sep ps)"
  by (cases ps) auto

lemma py_join_split [simp]: "py_join [sep] (py_split sep s) = s"
proof (induction s)
  case Nil
  then show ?case by simp
next
  case (Cons c cs)
  obtain p ps where pps: "py_split sep cs = p # ps"
    using py_split_ne [of sep cs] by (cases "py_split sep cs") auto
  with Cons show ?case by (auto simp: py_join_Cons split: if_splits)
qed

lemma py_split_parts: "\<forall>p \<in> set (py_split sep s). sep \<notin> set p"
  by (induction s) (auto split: list.splits)

lemma py_split_free: "sep \<notin> set p \<Longrightarrow> py_split sep p = [p]"
  by (induction p) auto

lemma py_split_append:
  "sep \<notin> set p \<Longrightarrow> py_split sep (p @ sep # s) = p # py_split sep s"
  by (induction p) auto

lemma py_split_join:
  "ps \<noteq> [] \<Longrightarrow> \<forall>p \<in> set ps. sep \<notin> set p \<Longrightarrow> py_split sep (py_join [sep] ps) = ps"
proof (induction ps)
  case Nil
  then show ?case by simp
next
  case (Cons p ps)
  then show ?case
    by (cases ps) (auto simp: py_split_free py_split_append)
qed

lemma length_py_split: "length (py_split sep s) = Suc (count_list s sep)"
proof (induction s)
  case Nil
  then show ?case by simp
next
  case (Cons c cs)
  then show ?case by (auto split: list.splits)
qed

section \<open>Prefixes and white space\<close>

definition py_startswith :: "string \<Rightarrow> string \<Rightarrow> bool" where
  "py_startswith s p \<longleftrightarrow> take (length p) s = p"

lemma py_startswith_append [simp]: "py_startswith (p @ s) p"
  by (simp add: py_startswith_def)

lemma py_startswith_iff: "py_startswith s p \<longleftrightarrow> (\<exists>t. s = p @ t)"
  by (metis append_eq_conv_conj append_take_drop_id py_startswith_def)

definition is_space :: "char \<Rightarrow> bool" where
  "is_space c \<longleftrightarrow> (let n = (of_char c :: nat) in (9 \<le> n \<and> n \<le> 13) \<or> (28 \<le> n \<and> n \<le> 32) \<or> n = 133 \<or> n = 160)"

definition py_strip :: "string \<Rightarrow> string" where
  "py_strip s = rev (dropWhile is_space (rev (dropWhile is_space s)))"

lemma py_strip_Nil_iff: "py_strip s = [] \<longleftrightarrow> (\<forall>c \<in> set s. is_space c)"
proof (cases "dropWhile is_space s")
  case Nil
  moreover from Nil have "\<forall>c \<in> set s. is_space c"
    by (simp only: dropWhile_eq_Nil_conv)
  ultimately show ?thesis by (simp only: py_strip_def) simp
next
  case (Cons c cs)
  then have "\<not> is_space c"
    using hd_dropWhile [of is_space s] by simp
  moreover have "c \<in> set s"
    using Cons by (metis list.set_intros(1) set_dropWhileD)
  ultimately show ?thesis
    using Cons by (auto simp: py_strip_def dropWhile_eq_Nil_conv)
qed

section \<open>int(v)\<close>

definition digit_val :: "char \<Rightarrow> int option" where
  "digit_val c = (let n = (of_char c :: int) in if 48 \<le> n \<and> n \<le> 57 then Some (n - 48) else None)"

text \<open>The flag says that the previous character was a digit, so that underscores may only stand
  between digits.\<close>

fun digits_val :: "bool \<Rightarrow> int \<Rightarrow> string \<Rightarrow> int option" where
  "digits_val seen acc [] = (if seen then Some acc else None)"
| "digits_val seen acc (c # cs) =
     (case digit_val c of
        Some d \<Rightarrow> digits_val True (10 * acc + d) cs
      | None \<Rightarrow> if c = CHR ''_'' \<and> seen then digits_val False acc cs else None)"

definition int_of_str :: "string \<Rightarrow> int option" where
  "int_of_str s =
     (case py_strip s of
        [] \<Rightarrow> None
      | c # cs \<Rightarrow>
          if c = CHR ''-'' then map_option uminus (digits_val False 0 cs)
          else if c = CHR ''+'' then digits_val False 0 cs
          else digits_val False 0 (c # cs))"

definition trunc_decimal :: "int \<Rightarrow> int \<Rightarrow> int" where
  "trunc_decimal m e = (if 0 \<le> e then m * 10 ^ nat e else sgn m * (\<bar>m\<bar> div 10 ^ nat (- e)))"

fun py_int :: "pyval \<Rightarrow> int res" where
  "py_int (PInt i) = Inr i"
| "py_int (PBool b) = Inr (if b then 1 else 0)"
| "py_int (PFloat m e) = Inr (trunc_decimal m e)"
| "py_int (PStr s) =
     (case int_of_str s of
        Some i \<Rightarrow> Inr i
      | None \<Rightarrow> Inl (Exn ValueError_cls ''invalid literal for int()'' [PStr s]))"
| "py_int v = Inl (Exn TypeError_cls ''int() argument must be a string or a number'' [v])"

lemma py_int_examples:
  "py_int (PStr '' 3_00 '') = Inr 300"
  "py_int (PStr ''-7'') = Inr (- 7)"
  "py_int (PFloat 2705 (- 1)) = Inr 270"
  "py_int (PStr ''1__0'') = Inl (Exn ValueError_cls ''invalid literal for int()'' [PStr ''1__0''])"
  by code_simp+

end
