(* ===== verification/Settings.thy ===== *)
theory Settings
  imports Py_Strings
begin

text \<open>
  \<open>lambda_tasks/settings.py\<close> and \<open>lambda_tasks/checks.py\<close>.  The record \<open>django_settings\<close> holds the
  attributes of Django's settings module that the package reads, \<open>None\<close> where the project does not
  define one.  Each property of \<open>LambdaTasksSettings\<close> is a function of it: the class keeps no state
  and reads the settings module at every access.
\<close>

section \<open>The settings module and the queue configurations\<close>

record django_settings =
  dj_queues :: "(string \<times> pyval) list option"
  dj_eager :: "pyval option"
  dj_soft_timeout :: "pyval option"
  dj_hard_timeout :: "pyval option"
  dj_max_retries :: "pyval option"
  dj_singleton_cache :: "string option"
  dj_local_workers :: "pyval option"
  dj_noop :: "pyval option"
  dj_installed_apps :: "string list"

definition MAX_DELAY :: int where "MAX_DELAY = 900"

definition MAX_TIMEOUT :: int where "MAX_TIMEOUT = 900"

definition MAX_BATCH_TIMEOUT :: int where "MAX_BATCH_TIMEOUT = 3600"

text \<open>\<open>SQSQueueConfig\<close> has the field \<open>queue_url\<close>, \<open>BatchQueueConfig\<close> the fields \<open>job_queue_arn\<close> and
  \<open>job_definition_arn\<close>; \<open>QueueConfig\<close> is their union.\<close>

datatype queue_config =
    SQSQueueConfig (queue_url: string)
  | BatchQueueConfig (job_queue_arn: string) (job_definition_arn: string)

text \<open>Validation against a model with string fields and \<open>extra = "forbid"\<close>.\<close>

definition str_field :: "(string \<times> pyval) list \<Rightarrow> string \<Rightarrow> string option" where
  "str_field raw k = (case map_of raw k of Some (PStr s) \<Rightarrow> Some s | _ \<Rightarrow> None)"

definition sqs_config_validate :: "(string \<times> pyval) list \<Rightarrow> queue_config option" where
  "sqs_config_validate raw =
     (if list_all (\<lambda>(k, v). k = ''queue_url'') raw
      then map_option SQSQueueConfig (str_field raw ''queue_url'')
      else None)"

definition batch_config_validate :: "(string \<times> pyval) list \<Rightarrow> queue_config option" where
  "batch_config_validate raw =
     (if list_all (\<lambda>(k, v). k = ''job_queue_arn'' \<or> k = ''job_definition_arn'') raw
      then (case str_field raw ''job_queue_arn'' of
              None \<Rightarrow> None
            | Some q \<Rightarrow> map_option (BatchQueueConfig q) (str_field raw ''job_definition_arn''))
      else None)"

definition improperly_configured :: "string \<Rightarrow> pyval list \<Rightarrow> exn" where
  "improperly_configured msg args = Exn ImproperlyConfigured_cls msg args"

definition parse_queue_config :: "string \<Rightarrow> pyval \<Rightarrow> queue_config res" where
  "parse_queue_config name raw = (case raw of
       PDict kvs \<Rightarrow>
         (case sqs_config_validate kvs of
            Some c \<Rightarrow> Inr c
          | None \<Rightarrow>
              (case batch_config_validate kvs of
                 Some c \<Rightarrow> Inr c
               | None \<Rightarrow> Inl (improperly_configured
                   ''must contain either queue_url or both job_queue_arn and job_definition_arn''
                   [PStr name])))
     | _ \<Rightarrow> Inl (improperly_configured ''must be a dict'' [PStr name]))"

section \<open>LambdaTasksSettings\<close>

text \<open>\<open>getattr(django_settings, "LAMBDA_TASKS_QUEUES")\<close> has no default: a project that does not define
  the setting gets \<open>AttributeError\<close>.\<close>

definition QUEUES :: "django_settings \<Rightarrow> (string \<times> queue_config) list res" where
  "QUEUES dj = (case dj_queues dj of
       None \<Rightarrow> Inl (Exn AttributeError_cls ''LAMBDA_TASKS_QUEUES'' [])
     | Some queues \<Rightarrow>
         res_bind (res_check (queues = [])
            (improperly_configured ''LAMBDA_TASKS_QUEUES must be defined in Django settings.'' []))
         (\<lambda>_. res_bind (res_check (''default'' \<notin> set (map fst queues))
            (improperly_configured ''LAMBDA_TASKS_QUEUES must contain a default key.'' []))
         (\<lambda>_. res_bind (res_map (\<lambda>(name, raw). res_bind (parse_queue_config name raw) (\<lambda>c. Inr (name, c))) queues)
         (\<lambda>parsed. case map_of parsed ''default'' of
            Some (SQSQueueConfig u) \<Rightarrow> Inr parsed
          | _ \<Rightarrow> Inl (improperly_configured ''LAMBDA_TASKS_QUEUES default must be an SQS queue'' [])))))"

definition get_queue :: "(string \<times> queue_config) list \<Rightarrow> string \<Rightarrow> queue_config res" where
  "get_queue queues name = (case map_of queues name of
       Some c \<Rightarrow> Inr c
     | None \<Rightarrow> Inl (Exn KeyError_cls name []))"

definition queue_max_timeout :: "django_settings \<Rightarrow> string \<Rightarrow> int res" where
  "queue_max_timeout dj queue =
     res_bind (QUEUES dj) (\<lambda>queues. res_bind (get_queue queues queue) (\<lambda>config.
       case config of
         BatchQueueConfig q d \<Rightarrow> Inr MAX_BATCH_TIMEOUT
       | SQSQueueConfig u \<Rightarrow> Inr MAX_TIMEOUT))"

definition getattr_or :: "pyval option \<Rightarrow> pyval \<Rightarrow> pyval" where
  "getattr_or a d = (case a of Some v \<Rightarrow> v | None \<Rightarrow> d)"

definition EAGER :: "django_settings \<Rightarrow> bool" where
  "EAGER dj = py_truth (getattr_or (dj_eager dj) (PBool False))"

definition DEFAULT_SOFT_TIMEOUT :: "django_settings \<Rightarrow> int res" where
  "DEFAULT_SOFT_TIMEOUT dj = py_int (getattr_or (dj_soft_timeout dj) (PInt 270))"

definition DEFAULT_HARD_TIMEOUT :: "django_settings \<Rightarrow> int res" where
  "DEFAULT_HARD_TIMEOUT dj = py_int (getattr_or (dj_hard_timeout dj) (PInt 300))"

definition MAX_RETRIES :: "django_settings \<Rightarrow> int res" where
  "MAX_RETRIES dj = py_int (getattr_or (dj_max_retries dj) (PInt 2880))"

definition SINGLETON_CACHE :: "django_settings \<Rightarrow> string" where
  "SINGLETON_CACHE dj = (case dj_singleton_cache dj of Some s \<Rightarrow> s | None \<Rightarrow> ''default'')"

definition LOCAL_WORKERS :: "django_settings \<Rightarrow> int res" where
  "LOCAL_WORKERS dj =
     res_bind (py_int (getattr_or (dj_local_workers dj) (PInt 0))) (\<lambda>value.
       if value < 0 then Inl (improperly_configured
            ''LAMBDA_TASKS_LOCAL_WORKERS must be a non-negative integer.'' [])
       else if value > 0 \<and> EAGER dj then Inl (improperly_configured
            ''LAMBDA_TASKS_LOCAL_WORKERS and LAMBDA_TASKS_EAGER are mutually exclusive.'' [])
       else Inr value)"

definition NOOP_EXECUTION :: "django_settings \<Rightarrow> bool res" where
  "NOOP_EXECUTION dj =
     (let value = py_truth (getattr_or (dj_noop dj) (PBool False)) in
      if value \<and> EAGER dj then Inl (improperly_configured
            ''LAMBDA_TASKS_NOOP_EXECUTION and LAMBDA_TASKS_EAGER are mutually exclusive.'' [])
      else if value then
        res_bind (py_int (getattr_or (dj_local_workers dj) (PInt 0))) (\<lambda>workers.
          if workers > 0 then Inl (improperly_configured
            ''LAMBDA_TASKS_NOOP_EXECUTION and LAMBDA_TASKS_LOCAL_WORKERS are mutually exclusive.'' [])
          else Inr value)
      else Inr value)"

section \<open>Deployment checks\<close>

datatype check_message = CheckError string | CheckWarning string

definition check_contrib_postgres_installed :: "django_settings \<Rightarrow> check_message list" where
  "check_contrib_postgres_installed dj =
     (if ''django.contrib.postgres'' \<notin> set (dj_installed_apps dj)
      then [CheckError ''lambda_tasks.E001''] else [])"

definition check_noop_not_in_production :: "django_settings \<Rightarrow> check_message list res" where
  "check_noop_not_in_production dj =
     (let w1 = (if py_truth (getattr_or (dj_noop dj) (PBool False))
                then [CheckWarning ''lambda_tasks.W001''] else []);
          w2 = (if py_truth (getattr_or (dj_eager dj) (PBool False))
                then [CheckWarning ''lambda_tasks.W002''] else [])
      in res_bind (py_int (getattr_or (dj_local_workers dj) (PInt 0))) (\<lambda>local_workers.
           Inr (w1 @ w2 @ (if local_workers > 0 then [CheckWarning ''lambda_tasks.W003''] else []))))"

section \<open>What the settings guarantee\<close>

lemma parse_queue_config_names:
  "res_map (\<lambda>(name, raw). res_bind (parse_queue_config name raw) (\<lambda>c. Inr (name, c))) queues = Inr parsed
   \<Longrightarrow> map fst parsed = map fst queues"
  by (induction queues arbitrary: parsed) (auto simp: res_bind_Inr_iff)

lemma QUEUES_Inr:
  assumes "QUEUES dj = Inr parsed"
  obtains queues u where "dj_queues dj = Some queues" "map fst parsed = map fst queues"
    "map_of parsed ''default'' = Some (SQSQueueConfig u)"
  using assms parse_queue_config_names
  by (auto simp: QUEUES_def elim!: res_bind_InrE split: option.split_asm queue_config.split_asm)

lemma str_field_iff: "str_field raw k = Some s \<longleftrightarrow> map_of raw k = Some (PStr s)"
  by (auto simp: str_field_def split: option.splits pyval.splits)

text \<open>No raw configuration is accepted by both models, so the order of the two attempts does not
  matter.\<close>

lemma configs_disjoint:
  "sqs_config_validate raw = Some c \<Longrightarrow> batch_config_validate raw = None"
proof -
  assume a: "sqs_config_validate raw = Some c"
  then obtain s where "map_of raw ''queue_url'' = Some (PStr s)"
    by (auto simp: sqs_config_validate_def str_field_iff split: if_splits)
  then have "(''queue_url'', PStr s) \<in> set raw" by (rule map_of_SomeD)
  then have "\<not> list_all (\<lambda>(k, v). k = ''job_queue_arn'' \<or> k = ''job_definition_arn'') raw"
    by (force simp: list_all_iff)
  then show ?thesis by (simp add: batch_config_validate_def)
qed

lemma queue_max_timeout_cases:
  "queue_max_timeout dj q = Inr m \<Longrightarrow> m = MAX_TIMEOUT \<or> m = MAX_BATCH_TIMEOUT"
  by (auto simp: queue_max_timeout_def elim!: res_bind_InrE split: queue_config.split_asm)

lemma LOCAL_WORKERS_Inr:
  "LOCAL_WORKERS dj = Inr n \<Longrightarrow> 0 \<le> n \<and> (0 < n \<longrightarrow> \<not> EAGER dj)"
  by (auto simp: LOCAL_WORKERS_def res_bind_Inr_iff split: if_splits)

lemma NOOP_EXECUTION_True:
  "NOOP_EXECUTION dj = Inr True \<Longrightarrow>
   \<not> EAGER dj \<and> (\<exists>n \<le> 0. py_int (getattr_or (dj_local_workers dj) (PInt 0)) = Inr n)"
  by (auto simp: NOOP_EXECUTION_def Let_def res_bind_Inr_iff split: if_splits)

end
