(* ===== verification/Task_Data.thy ===== *)
theory Task_Data
  imports Settings
begin

text \<open>
  The data of \<open>lambda_tasks/models.py\<close>: the \<open>TaskRecord\<close> row and its table, the two message
  schemas, and what the code of a task function may do.  A task function is user code; the model
  takes it as a \<open>prog\<close>, a tree of the actions the package's interface gives it.
\<close>

section \<open>TaskRecord\<close>

datatype task_status = RUNNING | SUCCEEDED | FAILED | RETRIED

fun status_value :: "task_status \<Rightarrow> string" where
  "status_value RUNNING = ''RUNNING''"
| "status_value SUCCEEDED = ''SUCCEEDED''"
| "status_value FAILED = ''FAILED''"
| "status_value RETRIED = ''RETRIED''"

record task_record =
  tr_task_name :: string
  tr_kwargs :: kwargs
  tr_n_retries :: int
  tr_status :: task_status
  tr_start_time :: "int option"
  tr_end_time :: "int option"
  tr_result :: pyval
  tr_traceback :: "string option"

text \<open>\<open>TaskRecord.duration\<close>: the difference of the two times, \<open>None\<close> when either is \<open>None\<close>.\<close>

definition duration :: "task_record \<Rightarrow> int option" where
  "duration r = (case (tr_end_time r, tr_start_time r) of
       (Some e, Some s) \<Rightarrow> Some (e - s)
     | _ \<Rightarrow> None)"

text \<open>A status no later write changes.\<close>

definition terminal :: "task_status \<Rightarrow> bool" where
  "terminal s \<longleftrightarrow> s \<noteq> RUNNING"

text \<open>The order of a record's life: RUNNING comes before the final ones, which do not compare.\<close>

instantiation task_status :: order
begin

definition less_eq_task_status :: "task_status \<Rightarrow> task_status \<Rightarrow> bool" where
  "less_eq_task_status s t \<longleftrightarrow> s = t \<or> s = RUNNING"

definition less_task_status :: "task_status \<Rightarrow> task_status \<Rightarrow> bool" where
  "less_task_status s t \<longleftrightarrow> s \<le> t \<and> \<not> t \<le> (s :: task_status)"

instance
  by standard (auto simp: less_eq_task_status_def less_task_status_def)

end

lemma terminal_greatest: "terminal s \<Longrightarrow> s \<le> t \<longleftrightarrow> t = s"
  by (auto simp: terminal_def less_eq_task_status_def)

lemma running_least: "RUNNING \<le> s"
  by (simp add: less_eq_task_status_def)

lemma status_value_inj: "status_value a = status_value b \<Longrightarrow> a = b"
  by (cases a; cases b) simp_all

text \<open>The database: the rows of the application, and the table of task records with their primary
  keys.\<close>

type_synonym record_table = "(string \<times> task_record) list"

record 'd database =
  db_rows :: 'd
  db_records :: record_table

section \<open>Messages\<close>

record sqs_message =
  msg_task_name :: string
  msg_kwargs :: kwargs
  msg_n_retries :: int

record sqs_task =
  tk_message :: sqs_message
  tk_delay :: int
  tk_queue :: string

definition validation_error :: "string \<Rightarrow> exn" where
  "validation_error model = Exn ValidationError_cls model []"

text \<open>
  The schema of \<open>SQSLambdaTaskMessage\<close>: no other keys, \<open>task_name\<close> a string, \<open>kwargs\<close> a dict,
  \<open>n_retries\<close> an integer with default 0 and at least 0.  \<open>lax_int\<close> is pydantic's conversion of a value
  to an integer.
\<close>

definition SQSLambdaTaskMessage_validate ::
  "(pyval \<Rightarrow> int res) \<Rightarrow> (string \<times> pyval) list \<Rightarrow> sqs_message res" where
  "SQSLambdaTaskMessage_validate lax_int raw =
     (if \<not> list_all (\<lambda>(k, v). k \<in> {''task_name'', ''kwargs'', ''n_retries''}) raw
      then Inl (validation_error ''SQSLambdaTaskMessage'')
      else (case (map_of raw ''task_name'', map_of raw ''kwargs'') of
         (Some (PStr name), Some (PDict kw)) \<Rightarrow>
           (case (case map_of raw ''n_retries'' of None \<Rightarrow> Inr 0 | Some v \<Rightarrow> lax_int v) of
              Inl e \<Rightarrow> Inl (validation_error ''SQSLambdaTaskMessage'')
            | Inr n \<Rightarrow>
                if n < 0 then Inl (validation_error ''SQSLambdaTaskMessage'')
                else Inr \<lparr>msg_task_name = name, msg_kwargs = kw, msg_n_retries = n\<rparr>)
       | _ \<Rightarrow> Inl (validation_error ''SQSLambdaTaskMessage'')))"

text \<open>\<open>model_dump()\<close> of a message and of a task.\<close>

definition SQSLambdaTaskMessage_dump :: "sqs_message \<Rightarrow> (string \<times> pyval) list" where
  "SQSLambdaTaskMessage_dump m =
     [(''task_name'', PStr (msg_task_name m)),
      (''kwargs'', PDict (msg_kwargs m)),
      (''n_retries'', PInt (msg_n_retries m))]"

text \<open>The schema of \<open>SQSLambdaTask\<close>.\<close>

definition SQSLambdaTask_validate ::
  "(pyval \<Rightarrow> int res) \<Rightarrow> (string \<times> pyval) list \<Rightarrow> sqs_task res" where
  "SQSLambdaTask_validate lax_int raw =
     (if \<not> list_all (\<lambda>(k, v). k \<in> {''message'', ''delay'', ''queue''}) raw
      then Inl (validation_error ''SQSLambdaTask'')
      else (case (map_of raw ''message'', map_of raw ''delay'', map_of raw ''queue'') of
         (Some (PDict m), Some d, Some (PStr q)) \<Rightarrow>
           (case (SQSLambdaTaskMessage_validate lax_int m, lax_int d) of
              (Inr msg, Inr n) \<Rightarrow> Inr \<lparr>tk_message = msg, tk_delay = n, tk_queue = q\<rparr>
            | _ \<Rightarrow> Inl (validation_error ''SQSLambdaTask''))
       | _ \<Rightarrow> Inl (validation_error ''SQSLambdaTask'')))"

definition SQSLambdaTask_dump :: "sqs_task \<Rightarrow> (string \<times> pyval) list" where
  "SQSLambdaTask_dump t =
     [(''message'', PDict (SQSLambdaTaskMessage_dump (tk_message t))),
      (''delay'', PInt (tk_delay t)),
      (''queue'', PStr (tk_queue t))]"

lemma SQSLambdaTaskMessage_validate_n_retries:
  "SQSLambdaTaskMessage_validate li raw = Inr m \<Longrightarrow> 0 \<le> msg_n_retries m"
  by (auto simp: SQSLambdaTaskMessage_validate_def
      split: if_splits option.splits pyval.splits sum.splits)

lemma SQSLambdaTaskMessage_validate_dump:
  assumes "\<And>i. lax_int (PInt i) = Inr i" and "0 \<le> msg_n_retries m"
  shows "SQSLambdaTaskMessage_validate lax_int (SQSLambdaTaskMessage_dump m) = Inr m"
  using assms by (simp add: SQSLambdaTaskMessage_validate_def SQSLambdaTaskMessage_dump_def)

lemma SQSLambdaTask_validate_dump:
  assumes "\<And>i. lax_int (PInt i) = Inr i" and "0 \<le> msg_n_retries (tk_message t)"
  shows "SQSLambdaTask_validate lax_int (SQSLambdaTask_dump t) = Inr t"
  using assms
  by (simp add: SQSLambdaTask_validate_def SQSLambdaTask_dump_def SQSLambdaTaskMessage_validate_dump)

section \<open>Task functions\<close>

record batch_job =
  job_name :: string
  job_queue :: string
  job_definition :: string
  job_environment :: "(string \<times> string) list"

text \<open>
  \<open>Work n k h\<close> runs for \<open>n\<close> seconds and goes on with \<open>k\<close>; if the alarm handler raises \<open>e\<close> meanwhile
  it goes on with \<open>h e\<close>, the code of the enclosing \<open>except\<close> clauses (\<open>Raise e\<close> where there are
  none).  \<open>Query upd k\<close> reads the clock and the database, changes the database with \<open>upd\<close> and goes on
  with \<open>k\<close>, both applied to the clock and the database before the change.  \<open>Enqueue\<close> is a call of another
  task's \<open>execute_on_commit\<close> whose arguments have been validated.  \<open>Submit\<close> is the AWS call
  \<open>batch.submit_job\<close>.
\<close>

datatype (dead 'd) prog =
    Return pyval
  | Raise exn
  | Work nat "'d prog" "exn \<Rightarrow> 'd prog"
  | Query "int \<Rightarrow> 'd database \<Rightarrow> 'd database" "int \<Rightarrow> 'd database \<Rightarrow> 'd prog"
  | Enqueue sqs_task "'d prog"
  | Submit batch_job "string res \<Rightarrow> 'd prog"

lemma prog_induct [case_names Return Raise Work Query Enqueue Submit]:
  assumes "\<And>v. P (Return v)" and "\<And>e. P (Raise e)"
    and "\<And>n k h. P k \<Longrightarrow> (\<And>e. P (h e)) \<Longrightarrow> P (Work n k h)"
    and "\<And>upd k. (\<And>now db. P (k now db)) \<Longrightarrow> P (Query upd k)"
    and "\<And>t k. P k \<Longrightarrow> P (Enqueue t k)"
    and "\<And>job k. (\<And>r. P (k r)) \<Longrightarrow> P (Submit job k)"
  shows "P p"
proof (induction p)
  case (Query upd k)
  then show ?case using assms(4) by blast
next
  case (Work n k h)
  then show ?case using assms(3) by blast
next
  case (Submit job k)
  then show ?case using assms(6) by blast
qed (use assms in blast)+

end
