(* ===== verification/Decorators.thy ===== *)
theory Decorators
  imports Task_Data
begin

text \<open>
  \<open>lambda_tasks/decorators.py\<close>: the signature checks, the option checks, the keyword-argument
  schema, the construction of a \<open>LambdaTaskWrapper\<close>, the resolution of its timeouts and the
  construction of the message of one invocation.
\<close>

section \<open>Functions and options\<close>

datatype param_kind =
    POSITIONAL_ONLY
  | POSITIONAL_OR_KEYWORD
  | VAR_POSITIONAL
  | KEYWORD_ONLY
  | VAR_KEYWORD

text \<open>\<open>pm_annot\<close> is the entry of the parameter in \<open>__annotations__\<close>, if any.\<close>

record param =
  pm_name :: string
  pm_kind :: param_kind
  pm_default :: "pyval option"
  pm_annot :: "string option"

record 'd pyfun =
  fn_module :: string
  fn_qualname :: string
  fn_name :: string
  fn_params :: "param list"
  fn_code :: "kwargs \<Rightarrow> 'd prog"

text \<open>An element of \<open>retry_on\<close>: a class, or an object that is not a class.\<close>

datatype retry_item = RClass pyclass | RObject pyval

record task_options =
  opt_retry_delay :: int
  opt_soft_timeout :: "int option"
  opt_hard_timeout :: "int option"
  opt_queue :: string
  opt_retry_on :: "retry_item list"
  opt_singleton :: bool
  opt_retry_singleton :: bool

definition default_options :: task_options where
  "default_options =
     \<lparr>opt_retry_delay = 0, opt_soft_timeout = None, opt_hard_timeout = None, opt_queue = ''default'',
      opt_retry_on = [], opt_singleton = False, opt_retry_singleton = True\<rparr>"

section \<open>The checks at decoration time\<close>

definition type_error :: "string \<Rightarrow> pyval list \<Rightarrow> exn" where
  "type_error msg args = Exn TypeError_cls msg args"

definition value_error :: "string \<Rightarrow> pyval list \<Rightarrow> exn" where
  "value_error msg args = Exn ValueError_cls msg args"

definition validate_param :: "string \<Rightarrow> param \<Rightarrow> unit res" where
  "validate_param name p =
     (if pm_kind p = POSITIONAL_ONLY \<or> pm_kind p = POSITIONAL_OR_KEYWORD
      then Inl (type_error ''lambda_task functions must use keyword-only arguments.''
                  [PStr name, PStr (pm_name p)])
      else if pm_kind p = VAR_KEYWORD
      then Inl (type_error ''lambda_task functions must not use **kwargs.''
                  [PStr name, PStr (pm_name p)])
      else if py_startswith (pm_name p) ''_''
      then Inl (type_error ''lambda_task function parameters must not start with _''
                  [PStr name, PStr (pm_name p)])
      else if pm_kind p = KEYWORD_ONLY \<and> pm_annot p = None
      then Inl (type_error ''lambda_task function parameters must be type-annotated.''
                  [PStr name, PStr (pm_name p)])
      else Inr ())"

definition validate_func :: "'d pyfun \<Rightarrow> unit res" where
  "validate_func f = res_each (validate_param (fn_name f)) (fn_params f)"

definition validate_timeouts :: "int option \<Rightarrow> int option \<Rightarrow> unit res" where
  "validate_timeouts soft hard =
     res_bind (res_each (\<lambda>(name, value).
         case value of
           None \<Rightarrow> Inr ()
         | Some v \<Rightarrow> res_check (v \<le> 0)
             (value_error ''must be greater than zero.'' [PStr name, PInt v]))
       [(''soft_timeout'', soft), (''hard_timeout'', hard)])
     (\<lambda>_. case (soft, hard) of
        (Some s, Some h) \<Rightarrow> res_check (s \<ge> h)
          (value_error ''soft_timeout must be strictly less than hard_timeout'' [PInt s, PInt h])
      | _ \<Rightarrow> Inr ())"

definition validate_retry_delay :: "int \<Rightarrow> retry_item list \<Rightarrow> unit res" where
  "validate_retry_delay retry_delay retry_on =
     (if retry_delay < 0 \<or> retry_delay > MAX_DELAY
      then Inl (value_error ''retry_delay must be in the range'' [PInt retry_delay, PInt MAX_DELAY])
      else if retry_delay \<noteq> 0 \<and> retry_on = []
      then Inl (type_error ''retry_delay requires retry_on to be non-empty'' [PInt retry_delay])
      else Inr ())"

fun validate_retry_item :: "retry_item \<Rightarrow> unit res" where
  "validate_retry_item (RClass c) =
     res_check (\<not> issubclass c BaseException_cls)
       (type_error ''retry_on must contain only exception types'' [PStr (cls_name c)])"
| "validate_retry_item (RObject v) =
     Inl (type_error ''retry_on must contain only exception types'' [v])"

definition validate_retry_on :: "retry_item list \<Rightarrow> unit res" where
  "validate_retry_on retry_on = res_each validate_retry_item retry_on"

text \<open>\<open>issubclass\<close> raises on an argument that is not a class; \<open>_validate_retry_on\<close> runs first, so
  the case is not reached.\<close>

fun validate_singleton_item :: "retry_item \<Rightarrow> unit res" where
  "validate_singleton_item (RClass c) =
     res_check (issubclass c LockError_cls \<or> issubclass LockError_cls c)
       (type_error ''retry_on must not include LockError (or a superclass of it)''
          [PStr (cls_name c)])"
| "validate_singleton_item (RObject v) = Inl (type_error ''issubclass() arg 1 must be a class'' [])"

definition validate_singleton :: "bool \<Rightarrow> retry_item list \<Rightarrow> unit res" where
  "validate_singleton singleton retry_on =
     (if singleton then res_each validate_singleton_item retry_on else Inr ())"

definition validate_options :: "'d pyfun \<Rightarrow> task_options \<Rightarrow> unit res" where
  "validate_options f opts =
     res_bind (validate_func f)
     (\<lambda>_. res_bind (validate_timeouts (opt_soft_timeout opts) (opt_hard_timeout opts))
     (\<lambda>_. res_bind (validate_retry_delay (opt_retry_delay opts) (opt_retry_on opts))
     (\<lambda>_. res_bind (validate_retry_on (opt_retry_on opts))
     (\<lambda>_. validate_singleton (opt_singleton opts) (opt_retry_on opts)))))"

section \<open>The keyword-argument schema\<close>

text \<open>A field is its name, its annotation (\<open>None\<close> for \<open>Any\<close>) and its default (\<open>None\<close> for a
  required field).\<close>

record model_field =
  fd_name :: string
  fd_annot :: "string option"
  fd_default :: "pyval option"

definition build_kwargs_model :: "'d pyfun \<Rightarrow> model_field list" where
  "build_kwargs_model f =
     map (\<lambda>p. \<lparr>fd_name = pm_name p, fd_annot = pm_annot p, fd_default = pm_default p\<rparr>) (fn_params f)"

text \<open>Validation against the model, with \<open>strict=True\<close> and \<open>extra="forbid"\<close>.  \<open>type_ok\<close> is
  pydantic's strict check of a value against an annotation.\<close>

type_synonym type_check = "string option \<Rightarrow> pyval \<Rightarrow> bool"

definition kwargs_model_validate :: "type_check \<Rightarrow> model_field list \<Rightarrow> kwargs \<Rightarrow> unit res" where
  "kwargs_model_validate type_ok fds kwargs =
     res_check (\<not> (list_all (\<lambda>(k, v). k \<in> set (map fd_name fds)) kwargs \<and>
                   list_all (\<lambda>fd. case map_of kwargs (fd_name fd) of
                        None \<Rightarrow> fd_default fd \<noteq> None
                      | Some v \<Rightarrow> type_ok (fd_annot fd) v) fds))
       (validation_error ''kwargs'')"

section \<open>LambdaTaskWrapper\<close>

record 'd wrapper =
  w_func :: "'d pyfun"
  w_retry_delay :: int
  w_soft_timeout :: "int option"
  w_hard_timeout :: "int option"
  w_queue :: string
  w_retry_on :: "retry_item list"
  w_singleton :: bool
  w_retry_singleton :: bool
  w_kwargs_model :: "model_field list"

definition LambdaTaskWrapper :: "'d pyfun \<Rightarrow> task_options \<Rightarrow> 'd wrapper res" where
  "LambdaTaskWrapper f opts =
     res_bind (validate_options f opts) (\<lambda>_. Inr
       \<lparr>w_func = f,
        w_retry_delay = opt_retry_delay opts,
        w_soft_timeout = opt_soft_timeout opts,
        w_hard_timeout = opt_hard_timeout opts,
        w_queue = opt_queue opts,
        w_retry_on = opt_retry_on opts,
        w_singleton = opt_singleton opts,
        w_retry_singleton = opt_retry_singleton opts,
        w_kwargs_model = build_kwargs_model f\<rparr>)"

text \<open>\<open>lambda_task(func, ...)\<close> decorates at once, \<open>lambda_task(...)\<close> returns the decorator.\<close>

definition lambda_task ::
  "'d pyfun option \<Rightarrow> task_options \<Rightarrow> 'd wrapper res + ('d pyfun \<Rightarrow> 'd wrapper res)" where
  "lambda_task func opts =
     (let decorate = (\<lambda>f. LambdaTaskWrapper f opts) in
      case func of Some f \<Rightarrow> Inl (decorate f) | None \<Rightarrow> Inr decorate)"

definition resolved_timeouts :: "django_settings \<Rightarrow> 'd wrapper \<Rightarrow> (int \<times> int) res" where
  "resolved_timeouts dj wr =
     res_bind (case w_soft_timeout wr of Some s \<Rightarrow> Inr s | None \<Rightarrow> DEFAULT_SOFT_TIMEOUT dj) (\<lambda>soft.
     res_bind (case w_hard_timeout wr of Some h \<Rightarrow> Inr h | None \<Rightarrow> DEFAULT_HARD_TIMEOUT dj) (\<lambda>hard.
     res_bind (queue_max_timeout dj (w_queue wr)) (\<lambda>max_timeout.
     res_bind (res_each (\<lambda>(name, value, source).
         if source = None \<and> value \<le> 0
         then Inl (value_error ''from settings must be greater than zero.'' [PStr name, PInt value])
         else if source = None \<and> value > max_timeout
         then Inl (value_error ''from settings exceeds the maximum allowed value''
                     [PStr name, PInt value, PInt max_timeout])
         else if source \<noteq> None \<and> value > max_timeout
         then Inl (value_error ''exceeds the maximum allowed value for queue''
                     [PStr name, PInt value, PInt max_timeout, PStr (w_queue wr)])
         else Inr ())
       [(''soft_timeout'', soft, w_soft_timeout wr), (''hard_timeout'', hard, w_hard_timeout wr)]) (\<lambda>_.
     res_bind (res_check (soft \<ge> hard)
       (value_error ''Resolved soft_timeout must be strictly less than hard_timeout for task''
          [PInt soft, PInt hard, PStr (fn_name (w_func wr))])) (\<lambda>_.
     Inr (soft, hard))))))"

section \<open>One invocation\<close>

text \<open>\<open>delay < 0 or delay > MAX_DELAY\<close>: a value that does not compare with integers raises
  \<open>TypeError\<close>.\<close>

fun delay_outside :: "pyval \<Rightarrow> bool res" where
  "delay_outside (PInt i) = Inr (i < 0 \<or> i > MAX_DELAY)"
| "delay_outside (PBool b) = Inr False"
| "delay_outside (PFloat m e) =
     Inr (m < 0 \<or> (if 0 \<le> e then m * 10 ^ nat e > MAX_DELAY else m > MAX_DELAY * 10 ^ nat (- e)))"
| "delay_outside v = Inl (type_error ''< not supported between these types'' [v])"

definition validate_delay :: "pyval \<Rightarrow> unit res" where
  "validate_delay delay = res_bind (delay_outside delay) (\<lambda>b.
     res_check b (value_error ''delay must be in the range'' [delay, PInt MAX_DELAY]))"

definition kwargs_pop :: "kwargs \<Rightarrow> string \<Rightarrow> pyval \<Rightarrow> pyval \<times> kwargs" where
  "kwargs_pop kwargs k d =
     (case map_of kwargs k of
        Some v \<Rightarrow> (v, AList.delete k kwargs)
      | None \<Rightarrow> (d, kwargs))"

text \<open>The message is built through the schemas: \<open>n_retries\<close> and \<open>delay\<close> go through pydantic's
  conversion to integers.\<close>

definition build_task ::
  "type_check \<Rightarrow> (pyval \<Rightarrow> int res) \<Rightarrow> 'd wrapper \<Rightarrow> kwargs \<Rightarrow> sqs_task res" where
  "build_task type_ok lax_int wr kwargs0 =
     (let (n_retries, kwargs1) = kwargs_pop kwargs0 ''_n_retries'' (PInt 0);
          (delay, kwargs) = kwargs_pop kwargs1 ''_delay'' (PInt 0) in
      res_bind (validate_delay delay) (\<lambda>_.
      res_bind (kwargs_model_validate type_ok (w_kwargs_model wr) kwargs) (\<lambda>_.
      res_bind (SQSLambdaTaskMessage_validate lax_int
          [(''task_name'', PStr (fn_module (w_func wr) @ ''.'' @ fn_qualname (w_func wr))),
           (''kwargs'', PDict kwargs),
           (''n_retries'', n_retries)]) (\<lambda>message.
      case lax_int delay of
        Inl e \<Rightarrow> Inl (validation_error ''SQSLambdaTask'')
      | Inr d \<Rightarrow> Inr \<lparr>tk_message = message, tk_delay = d, tk_queue = w_queue wr\<rparr>))))"

text \<open>\<open>serialize\<close>; \<open>to_jsonable\<close> is pydantic's \<open>model_dump(mode="json")\<close> of the argument values.\<close>

definition serialize ::
  "type_check \<Rightarrow> (pyval \<Rightarrow> int res) \<Rightarrow> (kwargs \<Rightarrow> kwargs res) \<Rightarrow> 'd wrapper \<Rightarrow> kwargs
   \<Rightarrow> (string \<times> pyval) list res" where
  "serialize type_ok lax_int to_jsonable wr kwargs =
     res_bind (build_task type_ok lax_int wr kwargs) (\<lambda>t.
     res_bind (to_jsonable (msg_kwargs (tk_message t))) (\<lambda>kw.
       Inr (SQSLambdaTask_dump (t\<lparr>tk_message := (tk_message t)\<lparr>msg_kwargs := kw\<rparr>\<rparr>))))"

text \<open>\<open>self._func(**kwargs)\<close>: how Python binds keyword arguments, for the functions the decorator lets through,
  whose parameters are keyword-only but for a possible \<open>*args\<close>, which takes no keyword argument.\<close>

definition call_function :: "'d pyfun \<Rightarrow> kwargs \<Rightarrow> 'd prog" where
  "call_function f kwargs =
     (let keywords = filter (\<lambda>p. pm_kind p = KEYWORD_ONLY) (fn_params f) in
      case List.find (\<lambda>(k, v). k \<notin> set (map pm_name keywords)) kwargs of
        Some (k, v) \<Rightarrow> Raise (type_error ''got an unexpected keyword argument'' [PStr (fn_name f), PStr k])
      | None \<Rightarrow>
          (case List.find (\<lambda>p. pm_default p = None \<and> map_of kwargs (pm_name p) = None) keywords of
             Some p \<Rightarrow> Raise (type_error ''missing required keyword-only argument'' [PStr (fn_name f), PStr (pm_name p)])
           | None \<Rightarrow> fn_code f kwargs))"

text \<open>A direct call: validation, then the call of the function.\<close>

definition wrapper_call :: "type_check \<Rightarrow> 'd wrapper \<Rightarrow> kwargs \<Rightarrow> 'd prog" where
  "wrapper_call type_ok wr kwargs =
     (case kwargs_model_validate type_ok (w_kwargs_model wr) kwargs of
        Inl e \<Rightarrow> Raise e
      | Inr _ \<Rightarrow> call_function (w_func wr) kwargs)"

lemma wrapper_call_code:
  assumes "\<And>e. P (Raise e)" and "P (fn_code (w_func wr) kwargs)"
  shows "P (wrapper_call type_ok wr kwargs)"
  using assms by (simp add: wrapper_call_def call_function_def Let_def split: sum.split option.split prod.split)

section \<open>What decoration guarantees\<close>

definition param_ok :: "param \<Rightarrow> bool" where
  "param_ok p \<longleftrightarrow> (pm_kind p = VAR_POSITIONAL \<or> pm_kind p = KEYWORD_ONLY \<and> pm_annot p \<noteq> None)
     \<and> \<not> py_startswith (pm_name p) ''_''"

definition timeouts_ok :: "int option \<Rightarrow> int option \<Rightarrow> bool" where
  "timeouts_ok soft hard \<longleftrightarrow> (\<forall>s. soft = Some s \<longrightarrow> 0 < s) \<and> (\<forall>h. hard = Some h \<longrightarrow> 0 < h)
     \<and> (\<forall>s h. soft = Some s \<longrightarrow> hard = Some h \<longrightarrow> s < h)"

definition retry_ok :: "int \<Rightarrow> retry_item list \<Rightarrow> bool" where
  "retry_ok retry_delay retry_on \<longleftrightarrow> 0 \<le> retry_delay \<and> retry_delay \<le> MAX_DELAY
     \<and> (retry_delay \<noteq> 0 \<longrightarrow> retry_on \<noteq> [])
     \<and> (\<forall>r \<in> set retry_on. \<exists>c. r = RClass c \<and> issubclass c BaseException_cls)"

definition singleton_ok :: "bool \<Rightarrow> retry_item list \<Rightarrow> bool" where
  "singleton_ok singleton retry_on \<longleftrightarrow>
     (singleton \<longrightarrow> (\<forall>c. RClass c \<in> set retry_on \<longrightarrow>
        \<not> issubclass c LockError_cls \<and> \<not> issubclass LockError_cls c))"

definition options_ok :: "'d pyfun \<Rightarrow> task_options \<Rightarrow> bool" where
  "options_ok f opts \<longleftrightarrow> (\<forall>p \<in> set (fn_params f). param_ok p)
     \<and> timeouts_ok (opt_soft_timeout opts) (opt_hard_timeout opts)
     \<and> retry_ok (opt_retry_delay opts) (opt_retry_on opts)
     \<and> singleton_ok (opt_singleton opts) (opt_retry_on opts)"

definition wrapper_ok :: "'d wrapper \<Rightarrow> bool" where
  "wrapper_ok wr \<longleftrightarrow> (\<forall>p \<in> set (fn_params (w_func wr)). param_ok p)
     \<and> timeouts_ok (w_soft_timeout wr) (w_hard_timeout wr)
     \<and> retry_ok (w_retry_delay wr) (w_retry_on wr)
     \<and> singleton_ok (w_singleton wr) (w_retry_on wr)
     \<and> w_kwargs_model wr = build_kwargs_model (w_func wr)"

lemma validate_param_iff: "validate_param name p = Inr () \<longleftrightarrow> param_ok p"
  by (cases "pm_kind p") (simp_all add: validate_param_def param_ok_def)

lemma validate_func_iff: "validate_func f = Inr () \<longleftrightarrow> (\<forall>p \<in> set (fn_params f). param_ok p)"
  by (simp add: validate_func_def res_each_Inr_iff validate_param_iff)

lemma validate_timeouts_iff: "validate_timeouts soft hard = Inr () \<longleftrightarrow> timeouts_ok soft hard"
  by (cases soft; cases hard) (auto simp: validate_timeouts_def timeouts_ok_def res_bind_Inr_iff)

lemma validate_retry_item_iff:
  "validate_retry_item r = Inr () \<longleftrightarrow> (\<exists>c. r = RClass c \<and> issubclass c BaseException_cls)"
  by (cases r) auto

lemma validate_retry_iff:
  "validate_retry_delay d rs = Inr () \<and> validate_retry_on rs = Inr () \<longleftrightarrow> retry_ok d rs"
  by (auto simp: validate_retry_delay_def validate_retry_on_def retry_ok_def res_each_Inr_iff
      validate_retry_item_iff)

lemma validate_singleton_iff:
  assumes "validate_retry_on rs = Inr ()"
  shows "validate_singleton b rs = Inr () \<longleftrightarrow> singleton_ok b rs"
proof -
  have rs: "\<forall>r \<in> set rs. \<exists>c. r = RClass c"
    using assms by (auto simp: validate_retry_on_def res_each_Inr_iff validate_retry_item_iff)
  have "(\<forall>r \<in> set rs. validate_singleton_item r = Inr ()) \<longleftrightarrow>
        (\<forall>c. RClass c \<in> set rs \<longrightarrow> \<not> issubclass c LockError_cls \<and> \<not> issubclass LockError_cls c)"
    using rs by (metis res_check_iff(1) validate_singleton_item.simps(1))
  then show ?thesis by (simp add: validate_singleton_def singleton_ok_def res_each_Inr_iff)
qed

lemma validate_options_iff: "validate_options f opts = Inr () \<longleftrightarrow> options_ok f opts"
  using validate_retry_iff [of "opt_retry_delay opts" "opt_retry_on opts"] validate_singleton_iff
  by (auto simp: validate_options_def options_ok_def res_bind_Inr_iff validate_func_iff
      validate_timeouts_iff)

lemma LambdaTaskWrapper_ok: "LambdaTaskWrapper f opts = Inr wr \<Longrightarrow> wrapper_ok wr \<and> w_func wr = f"
  by (auto simp: LambdaTaskWrapper_def res_bind_Inr_iff validate_options_iff options_ok_def
      wrapper_ok_def)

lemma LambdaTaskWrapper_Inr:
  "options_ok f opts \<Longrightarrow> LambdaTaskWrapper f opts = Inr
     \<lparr>w_func = f,
      w_retry_delay = opt_retry_delay opts,
      w_soft_timeout = opt_soft_timeout opts,
      w_hard_timeout = opt_hard_timeout opts,
      w_queue = opt_queue opts,
      w_retry_on = opt_retry_on opts,
      w_singleton = opt_singleton opts,
      w_retry_singleton = opt_retry_singleton opts,
      w_kwargs_model = build_kwargs_model f\<rparr>"
  using validate_options_iff [of f opts] by (simp add: LambdaTaskWrapper_def)

lemma options_ok_default:
  "\<forall>p \<in> set (fn_params f). param_ok p \<Longrightarrow> options_ok f default_options"
  by (simp add: options_ok_def default_options_def timeouts_ok_def retry_ok_def singleton_ok_def
      MAX_DELAY_def)

text \<open>Arguments that fit the schema reach the code of a function without \<open>*args\<close>.\<close>

lemma kwargs_model_validate_iff:
  "kwargs_model_validate type_ok (build_kwargs_model f) kwargs = Inr () \<longleftrightarrow>
     (\<forall>(k, v) \<in> set kwargs. k \<in> pm_name ` set (fn_params f)) \<and>
     (\<forall>p \<in> set (fn_params f). case map_of kwargs (pm_name p) of
        None \<Rightarrow> pm_default p \<noteq> None | Some v \<Rightarrow> type_ok (pm_annot p) v)"
  by (auto simp: kwargs_model_validate_def build_kwargs_model_def res_check_def list_all_iff option.case_eq_if)

lemma call_function_valid:
  assumes v: "kwargs_model_validate type_ok (build_kwargs_model f) kwargs = Inr ()"
    and k: "\<forall>p \<in> set (fn_params f). pm_kind p = KEYWORD_ONLY"
  shows "call_function f kwargs = fn_code f kwargs"
proof -
  have f: "filter (\<lambda>p. pm_kind p = KEYWORD_ONLY) (fn_params f) = fn_params f"
    using k by (simp add: filter_id_conv)
  have "List.find (\<lambda>(k, v). k \<notin> set (map pm_name (fn_params f))) kwargs = None"
    and "List.find (\<lambda>p. pm_default p = None \<and> map_of kwargs (pm_name p) = None) (fn_params f) = None"
    using v unfolding kwargs_model_validate_iff find_None_iff by (auto split: option.splits)
  then show ?thesis by (simp add: call_function_def f)
qed

lemma wrapper_call_valid:
  assumes "wrapper_ok wr" and "kwargs_model_validate type_ok (w_kwargs_model wr) kwargs = Inr ()"
    and "\<forall>p \<in> set (fn_params (w_func wr)). pm_kind p = KEYWORD_ONLY"
  shows "wrapper_call type_ok wr kwargs = fn_code (w_func wr) kwargs"
  using assms call_function_valid [of type_ok "w_func wr" kwargs] by (simp add: wrapper_call_def wrapper_ok_def)

text \<open>A function with \<open>*args\<close> is let through, too: its schema then requires a keyword argument of that name,
  which no call can take.\<close>

lemma star_args_never_called:
  assumes "LambdaTaskWrapper f opts = Inr wr" and "distinct (map pm_name (fn_params f))"
    and p: "p \<in> set (fn_params f)" "pm_kind p = VAR_POSITIONAL" "pm_default p = None"
  shows "\<exists>e. wrapper_call type_ok wr kwargs = Raise e"
proof (cases "kwargs_model_validate type_ok (w_kwargs_model wr) kwargs")
  case (Inl e)
  then show ?thesis by (simp add: wrapper_call_def)
next
  case (Inr u)
  have wr: "w_kwargs_model wr = build_kwargs_model f" "w_func wr = f"
    using LambdaTaskWrapper_ok [OF assms(1)] by (auto simp: wrapper_ok_def)
  have "kwargs_model_validate type_ok (build_kwargs_model f) kwargs = Inr ()" using Inr wr by simp
  then have "case map_of kwargs (pm_name p) of None \<Rightarrow> pm_default p \<noteq> None | Some v \<Rightarrow> type_ok (pm_annot p) v"
    using p(1) unfolding kwargs_model_validate_iff by blast
  then obtain v where v: "map_of kwargs (pm_name p) = Some v"
    using p(3) by (cases "map_of kwargs (pm_name p)") simp_all
  have "pm_kind q \<noteq> KEYWORD_ONLY" if "q \<in> set (fn_params f)" "pm_name q = pm_name p" for q
    using assms(2) p(1,2) that by (metis distinct_map inj_onD param_kind.distinct)
  then have "pm_name p \<notin> pm_name ` set (filter (\<lambda>p. pm_kind p = KEYWORD_ONLY) (fn_params f))"
    by auto
  then have "List.find (\<lambda>(k, v). k \<notin> set (map pm_name (filter (\<lambda>p. pm_kind p = KEYWORD_ONLY) (fn_params f)))) kwargs \<noteq> None"
    using map_of_SomeD [OF v] unfolding find_None_iff by auto
  then show ?thesis
    using Inr wr by (auto simp: wrapper_call_def call_function_def Let_def split: option.split)
qed

text \<open>What pydantic documents of its conversion of numbers to integers, and an instance.\<close>

definition lax_int_spec :: "(pyval \<Rightarrow> int res) \<Rightarrow> bool" where
  "lax_int_spec li \<longleftrightarrow> (\<forall>i. li (PInt i) = Inr i) \<and> (\<forall>b. li (PBool b) = Inr (if b then 1 else 0))
     \<and> (\<forall>m e i. li (PFloat m e) = Inr i \<longrightarrow> (if 0 \<le> e then i = m * 10 ^ nat e else i * 10 ^ nat (- e) = m))"

fun lax_int_instance :: "pyval \<Rightarrow> int res" where
  "lax_int_instance (PInt i) = Inr i"
| "lax_int_instance (PBool b) = Inr (if b then 1 else 0)"
| "lax_int_instance (PFloat m e) =
     (if 0 \<le> e then Inr (m * 10 ^ nat e)
      else if m mod 10 ^ nat (- e) = 0 then Inr (m div 10 ^ nat (- e))
      else Inl (validation_error ''int_from_float''))"
| "lax_int_instance (PStr s) =
     (case int_of_str s of Some i \<Rightarrow> Inr i | None \<Rightarrow> Inl (validation_error ''int_parsing''))"
| "lax_int_instance v = Inl (validation_error ''int_type'')"

lemma lax_int_instance_spec: "lax_int_spec lax_int_instance"
  by (auto simp: lax_int_spec_def split: if_splits)

lemma delay_in_range:
  assumes "lax_int_spec li" and "delay_outside v = Inr False" and "li v = Inr d"
  shows "0 \<le> d \<and> d \<le> MAX_DELAY"
proof (cases v)
  case (PFloat m e)
  with assms have d: "if 0 \<le> e then d = m * 10 ^ nat e else d * 10 ^ nat (- e) = m"
    unfolding lax_int_spec_def by blast
  from assms PFloat have m: "0 \<le> m"
    "if 0 \<le> e then m * 10 ^ nat e \<le> MAX_DELAY else m \<le> MAX_DELAY * 10 ^ nat (- e)"
    by (auto split: if_splits)
  have pos: "(0::int) < 10 ^ nat (- e)" by simp
  show ?thesis
  proof (cases "0 \<le> e")
    case True
    with d m show ?thesis by simp
  next
    case False
    with d m pos have "0 \<le> d" "d \<le> MAX_DELAY"
      by (simp_all, metis not_le mult_neg_pos, metis mult_le_cancel_right_pos)
    then show ?thesis by simp
  qed
qed (use assms in \<open>auto simp: lax_int_spec_def MAX_DELAY_def split: if_splits\<close>)

lemma build_task_Inr:
  assumes "build_task type_ok li wr kw = Inr t"
  obtains "tk_queue t = w_queue wr"
    and "msg_task_name (tk_message t) = fn_module (w_func wr) @ ''.'' @ fn_qualname (w_func wr)"
    and "msg_kwargs (tk_message t) = snd (kwargs_pop (snd (kwargs_pop kw ''_n_retries'' (PInt 0))) ''_delay'' (PInt 0))"
    and "kwargs_model_validate type_ok (w_kwargs_model wr) (msg_kwargs (tk_message t)) = Inr ()"
    and "validate_delay (fst (kwargs_pop (snd (kwargs_pop kw ''_n_retries'' (PInt 0))) ''_delay'' (PInt 0))) = Inr ()"
    and "li (fst (kwargs_pop (snd (kwargs_pop kw ''_n_retries'' (PInt 0))) ''_delay'' (PInt 0))) = Inr (tk_delay t)"
    and "0 \<le> msg_n_retries (tk_message t)"
proof -
  obtain n kw1 where 1: "kwargs_pop kw ''_n_retries'' (PInt 0) = (n, kw1)" by force
  obtain d kw2 where 2: "kwargs_pop kw1 ''_delay'' (PInt 0) = (d, kw2)" by force
  from assms 1 2 obtain m where "validate_delay d = Inr ()"
    and v: "kwargs_model_validate type_ok (w_kwargs_model wr) kw2 = Inr ()"
    and m: "SQSLambdaTaskMessage_validate li
          [(''task_name'', PStr (fn_module (w_func wr) @ ''.'' @ fn_qualname (w_func wr))),
           (''kwargs'', PDict kw2), (''n_retries'', n)] = Inr m"
    and "li d = Inr (tk_delay t)" "tk_message t = m" "tk_queue t = w_queue wr"
    by (auto simp: build_task_def elim!: res_bind_InrE split: sum.splits)
  moreover from m have "msg_task_name m = fn_module (w_func wr) @ ''.'' @ fn_qualname (w_func wr)"
    "msg_kwargs m = kw2"
    by (auto simp: SQSLambdaTaskMessage_validate_def split: sum.splits if_splits)
  moreover from m have "0 \<le> msg_n_retries m" by (rule SQSLambdaTaskMessage_validate_n_retries)
  ultimately show ?thesis using that 1 2 by simp
qed

end
