(* ===== verification/Timeouts.thy ===== *)
theory Timeouts
  imports Py_Prelude
begin

text \<open>
  \<open>lambda_tasks/timeouts.py\<close>: the two exceptions and \<open>TimeoutContext\<close>, over the SIGALRM state of
  the process (seconds left on the pending alarm, zero for none, and the installed handler).
  \<open>work\<close> is the passage of time while Python code runs: it delivers the alarm when its time has
  come and runs the installed handler.
\<close>

section \<open>Signals of the process\<close>

text \<open>\<open>TimeoutHandler soft hard phase\<close> is the bound method \<open>_handler\<close> of a context object with these
  timeouts; \<open>phase\<close> is the attribute \<open>_in_hard_phase\<close> of that object.\<close>

datatype sig_handler =
    SIG_DFL
  | SIG_IGN
  | UserHandler string
  | TimeoutHandler int int bool

record signals =
  alarm_left :: nat
  alrm_handler :: sig_handler

definition signal_alarm :: "nat \<Rightarrow> signals \<Rightarrow> nat \<times> signals" where
  "signal_alarm n s = (alarm_left s, s\<lparr>alarm_left := n\<rparr>)"

definition signal_signal :: "sig_handler \<Rightarrow> signals \<Rightarrow> sig_handler \<times> signals" where
  "signal_signal h s = (alrm_handler s, s\<lparr>alrm_handler := h\<rparr>)"

section \<open>TimeoutContext\<close>

definition SoftTimeLimitExceeded_cls :: pyclass where
  "SoftTimeLimitExceeded_cls = Cls ''SoftTimeLimitExceeded'' [Exception_cls]"

definition HardTimeLimitExceeded_cls :: pyclass where
  "HardTimeLimitExceeded_cls = Cls ''HardTimeLimitExceeded'' [Exception_cls]"

definition SoftTimeLimitExceeded :: exn where
  "SoftTimeLimitExceeded = Exn SoftTimeLimitExceeded_cls [] []"

definition HardTimeLimitExceeded :: exn where
  "HardTimeLimitExceeded = Exn HardTimeLimitExceeded_cls [] []"

record timeout_ctx =
  tc_soft_timeout :: int
  tc_hard_timeout :: int
  tc_previous_alarm :: nat
  tc_previous_handler :: "sig_handler option"

definition TimeoutContext :: "int \<Rightarrow> int \<Rightarrow> timeout_ctx" where
  "TimeoutContext soft hard =
     \<lparr>tc_soft_timeout = soft, tc_hard_timeout = hard, tc_previous_alarm = 0, tc_previous_handler = None\<rparr>"

definition TimeoutContext_handler :: "int \<Rightarrow> int \<Rightarrow> bool \<Rightarrow> signals \<Rightarrow> exn \<times> signals" where
  "TimeoutContext_handler soft hard in_hard_phase s =
     (if \<not> in_hard_phase
      then (let s1 = s\<lparr>alrm_handler := TimeoutHandler soft hard True\<rparr>;
                remaining = hard - soft;
                (_, s2) = signal_alarm (nat (max 1 remaining)) s1
            in (SoftTimeLimitExceeded, s2))
      else (HardTimeLimitExceeded, s))"

definition TimeoutContext_enter :: "bool \<Rightarrow> timeout_ctx \<Rightarrow> signals \<Rightarrow> timeout_ctx \<times> signals" where
  "TimeoutContext_enter eager c s =
     (if \<not> eager
      then (let (h, s1) = signal_signal
                  (TimeoutHandler (tc_soft_timeout c) (tc_hard_timeout c) False) s;
                (a, s2) = signal_alarm (nat (tc_soft_timeout c)) s1
            in (c\<lparr>tc_previous_handler := Some h, tc_previous_alarm := a\<rparr>, s2))
      else (c, s))"

text \<open>\<open>signal.signal(SIGALRM, None)\<close> raises \<open>TypeError\<close>.\<close>

definition TimeoutContext_exit :: "bool \<Rightarrow> timeout_ctx \<Rightarrow> signals \<Rightarrow> unit res \<times> signals" where
  "TimeoutContext_exit eager c s =
     (if \<not> eager
      then (let (_, s1) = signal_alarm 0 s
            in case tc_previous_handler c of
                 None \<Rightarrow> (Inl (Exn TypeError_cls ''signal handler must be callable'' []), s1)
               | Some h \<Rightarrow>
                   (let (_, s2) = signal_signal h s1
                    in (Inr (), if tc_previous_alarm c > 0
                                then snd (signal_alarm (tc_previous_alarm c) s2) else s2)))
      else (Inr (), s))"

section \<open>Running code for a while\<close>

text \<open>\<open>work other n s\<close>: the code runs for \<open>n\<close> seconds.  The result is the exception the alarm
  handler raised, if any, the seconds that passed, and the new signal state.  \<open>other\<close> says what a
  handler that the package did not install raises.\<close>

definition work :: "(sig_handler \<Rightarrow> exn option) \<Rightarrow> nat \<Rightarrow> signals \<Rightarrow> exn option \<times> nat \<times> signals" where
  "work other n s =
     (if alarm_left s = 0 \<or> n < alarm_left s
      then (None, n, s\<lparr>alarm_left := alarm_left s - n\<rparr>)
      else (let a = alarm_left s; s1 = s\<lparr>alarm_left := 0\<rparr> in
            case alrm_handler s of
              TimeoutHandler soft hard phase \<Rightarrow>
                (let (e, s2) = TimeoutContext_handler soft hard phase s1 in (Some e, a, s2))
            | h \<Rightarrow> (case other h of Some e \<Rightarrow> (Some e, a, s1) | None \<Rightarrow> (None, n, s1))))"

section \<open>Lemmas\<close>

lemma TimeoutContext_enter_non_eager:
  "TimeoutContext_enter False (TimeoutContext soft hard) s =
   (\<lparr>tc_soft_timeout = soft, tc_hard_timeout = hard,
     tc_previous_alarm = alarm_left s, tc_previous_handler = Some (alrm_handler s)\<rparr>,
    s\<lparr>alarm_left := nat soft, alrm_handler := TimeoutHandler soft hard False\<rparr>)"
  by (simp add: TimeoutContext_enter_def TimeoutContext_def signal_signal_def signal_alarm_def)

lemma TimeoutContext_enter_eager: "TimeoutContext_enter True c s = (c, s)"
  by (simp add: TimeoutContext_enter_def)

lemma TimeoutContext_exit_eager: "TimeoutContext_exit True c s = (Inr (), s)"
  by (simp add: TimeoutContext_exit_def)

text \<open>Leaving the context restores the alarm and the handler found on entry, whatever happened to
  them in between.\<close>

lemma TimeoutContext_exit_restores:
  assumes "TimeoutContext_enter False (TimeoutContext soft hard) s = (c, s1)"
  shows "TimeoutContext_exit False c s2 =
         (Inr (), s2\<lparr>alarm_left := alarm_left s, alrm_handler := alrm_handler s\<rparr>)"
  using assms
  by (auto simp: TimeoutContext_enter_non_eager TimeoutContext_exit_def signal_alarm_def
      signal_signal_def)

text \<open>The phases of an armed context, with the seconds since entry.\<close>

definition armed :: "int \<Rightarrow> int \<Rightarrow> nat \<Rightarrow> signals \<Rightarrow> bool" where
  "armed soft hard t s \<longleftrightarrow>
     (alrm_handler s = TimeoutHandler soft hard False \<and> int t < soft
        \<and> alarm_left s = nat (soft - int t)) \<or>
     (alrm_handler s = TimeoutHandler soft hard True \<and> soft \<le> int t \<and> int t < hard
        \<and> alarm_left s = nat (hard - int t)) \<or>
     (alrm_handler s = TimeoutHandler soft hard True \<and> hard \<le> int t \<and> alarm_left s = 0)"

lemma armed_enter:
  assumes "0 < soft"
  shows "armed soft hard 0 (snd (TimeoutContext_enter False (TimeoutContext soft hard) s))"
  using assms by (simp add: armed_def TimeoutContext_enter_non_eager)

lemma work_quiet:
  "alarm_left s = 0 \<or> n < alarm_left s \<Longrightarrow>
   work other n s = (None, n, s\<lparr>alarm_left := alarm_left s - n\<rparr>)"
  by (simp add: work_def)

lemma work_fires:
  "0 < alarm_left s \<Longrightarrow> alarm_left s \<le> n \<Longrightarrow> alrm_handler s = TimeoutHandler soft hard phase \<Longrightarrow>
   work other n s =
     (if phase then (Some HardTimeLimitExceeded, alarm_left s, s\<lparr>alarm_left := 0\<rparr>)
      else (Some SoftTimeLimitExceeded, alarm_left s,
            s\<lparr>alarm_left := nat (max 1 (hard - soft)), alrm_handler := TimeoutHandler soft hard True\<rparr>))"
  by (simp add: work_def Let_def TimeoutContext_handler_def signal_alarm_def)

lemma armed_cases [consumes 1, case_names soft hard expired]:
  assumes "armed soft hard t s"
  obtains "alrm_handler s = TimeoutHandler soft hard False" "int t < soft"
      "alarm_left s = nat (soft - int t)"
    | "alrm_handler s = TimeoutHandler soft hard True" "soft \<le> int t" "int t < hard"
      "alarm_left s = nat (hard - int t)"
    | "alrm_handler s = TimeoutHandler soft hard True" "hard \<le> int t" "alarm_left s = 0"
  using assms by (auto simp: armed_def)

text \<open>What an armed context raises, and when: nothing before the soft timeout,
  \<open>SoftTimeLimitExceeded\<close> exactly at it, \<open>HardTimeLimitExceeded\<close> exactly at the hard timeout,
  nothing after it.  \<open>t\<close> seconds have passed since entry and the code wants to run for \<open>n\<close> more.\<close>

definition timeout_verdict :: "int \<Rightarrow> int \<Rightarrow> nat \<Rightarrow> nat \<Rightarrow> exn option \<Rightarrow> nat \<Rightarrow> bool" where
  "timeout_verdict soft hard t n r d \<longleftrightarrow>
     (if int t < soft \<and> soft \<le> int (t + n)
      then r = Some SoftTimeLimitExceeded \<and> int (t + d) = soft
      else if soft \<le> int t \<and> int t < hard \<and> hard \<le> int (t + n)
      then r = Some HardTimeLimitExceeded \<and> int (t + d) = hard
      else r = None \<and> d = n)"

lemma work_armed:
  assumes a: "armed soft hard t s" and h: "soft < hard" and w: "work other n s = (r, d, s')"
  shows "armed soft hard (t + d) s' \<and> timeout_verdict soft hard t n r d"
  using a
proof (cases rule: armed_cases)
  case soft
  show ?thesis
  proof (cases "n < alarm_left s")
    case True
    with w soft h show ?thesis by (auto simp: work_quiet armed_def timeout_verdict_def)
  next
    case False
    with w soft h show ?thesis by (auto simp: work_fires armed_def timeout_verdict_def)
  qed
next
  case hard
  show ?thesis
  proof (cases "n < alarm_left s")
    case True
    with w hard show ?thesis by (auto simp: work_quiet armed_def timeout_verdict_def)
  next
    case False
    with w hard show ?thesis by (auto simp: work_fires armed_def timeout_verdict_def)
  qed
next
  case expired
  with w h show ?thesis by (auto simp: work_quiet armed_def timeout_verdict_def)
qed

end
