(* ===== verification/Py_Effects.thy ===== *)
theory Py_Effects
  imports Py_Prelude
begin

text \<open>
  Effects: code that reads and updates a state and may raise.  \<open>eff_try\<close> is
  \<open>try: ... except\<close>, \<open>eff_finally\<close> is \<open>try: ... finally\<close>, \<open>eff_with\<close> is the \<open>with\<close> statement.

  An effect returns \<open>None\<close> when a bound on nested executions is used up; every other outcome is
  \<open>Some (Inl e, w)\<close> (the code raised \<open>e\<close>) or \<open>Some (Inr a, w)\<close>, with the state it left.
\<close>

type_synonym ('w, 'a) eff = "'w \<Rightarrow> ('a res \<times> 'w) option"

section \<open>Combinators\<close>

definition eff_ret :: "'a \<Rightarrow> ('w, 'a) eff" where
  "eff_ret a = (\<lambda>w. Some (Inr a, w))"

definition eff_raise :: "exn \<Rightarrow> ('w, 'a) eff" where
  "eff_raise e = (\<lambda>w. Some (Inl e, w))"

definition eff_res :: "'a res \<Rightarrow> ('w, 'a) eff" where
  "eff_res r = (\<lambda>w. Some (r, w))"

definition eff_get :: "('w \<Rightarrow> 'a) \<Rightarrow> ('w, 'a) eff" where
  "eff_get f = (\<lambda>w. Some (Inr (f w), w))"

definition eff_upd :: "('w \<Rightarrow> 'w) \<Rightarrow> ('w, unit) eff" where
  "eff_upd f = (\<lambda>w. Some (Inr (), f w))"

definition eff_bind :: "('w, 'a) eff \<Rightarrow> ('a \<Rightarrow> ('w, 'b) eff) \<Rightarrow> ('w, 'b) eff" where
  "eff_bind m k = (\<lambda>w. case m w of
       None \<Rightarrow> None
     | Some (r, w') \<Rightarrow> (case r of Inl e \<Rightarrow> Some (Inl e, w') | Inr a \<Rightarrow> k a w'))"

definition eff_seq :: "('w, unit) eff \<Rightarrow> ('w, 'b) eff \<Rightarrow> ('w, 'b) eff" where
  "eff_seq m n = eff_bind m (\<lambda>_. n)"

text \<open>\<open>h\<close> is the handler of every exception: it re-raises what its clauses do not match.\<close>

definition eff_try :: "('w, 'a) eff \<Rightarrow> (exn \<Rightarrow> ('w, 'a) eff) \<Rightarrow> ('w, 'a) eff" where
  "eff_try m h = (\<lambda>w. case m w of
       None \<Rightarrow> None
     | Some (r, w') \<Rightarrow> (case r of Inl e \<Rightarrow> h e w' | Inr a \<Rightarrow> Some (Inr a, w')))"

text \<open>The outcome of \<open>m\<close> as a value.\<close>

definition eff_attempt :: "('w, 'a) eff \<Rightarrow> ('w, 'a res) eff" where
  "eff_attempt m = (\<lambda>w. case m w of None \<Rightarrow> None | Some (r, w') \<Rightarrow> Some (Inr r, w'))"

definition eff_finally :: "('w, 'a) eff \<Rightarrow> ('w, unit) eff \<Rightarrow> ('w, 'a) eff" where
  "eff_finally m f = eff_bind (eff_attempt m) (\<lambda>r. eff_seq f (eff_res r))"

text \<open>\<open>with cm: body\<close>, for a manager that does not suppress exceptions: the exit sees the
  exception of the body, if any, and an exception of the exit replaces it.\<close>

definition eff_with ::
  "('w, 'c) eff \<Rightarrow> ('c \<Rightarrow> exn option \<Rightarrow> ('w, unit) eff) \<Rightarrow> ('w, 'a) eff \<Rightarrow> ('w, 'a) eff" where
  "eff_with enter exit body =
     eff_bind enter (\<lambda>c. eff_bind (eff_attempt body) (\<lambda>r.
       eff_seq (exit c (case r of Inl e \<Rightarrow> Some e | Inr _ \<Rightarrow> None)) (eff_res r)))"

fun eff_each :: "('a \<Rightarrow> ('w, unit) eff) \<Rightarrow> 'a list \<Rightarrow> ('w, unit) eff" where
  "eff_each f [] = eff_ret ()"
| "eff_each f (x # xs) = eff_seq (f x) (eff_each f xs)"

section \<open>Evaluation\<close>

lemma eff_ret_at [eff_simps]: "eff_ret a w = Some (Inr a, w)"
  by (simp add: eff_ret_def)

lemma eff_raise_at [eff_simps]: "eff_raise e w = Some (Inl e, w)"
  by (simp add: eff_raise_def)

lemma eff_res_at [eff_simps]: "eff_res r w = Some (r, w)"
  by (simp add: eff_res_def)

lemma eff_get_at [eff_simps]: "eff_get f w = Some (Inr (f w), w)"
  by (simp add: eff_get_def)

lemma eff_upd_at [eff_simps]: "eff_upd f w = Some (Inr (), f w)"
  by (simp add: eff_upd_def)

lemma eff_bind_at [eff_simps]:
  "eff_bind m k w = (case m w of
       None \<Rightarrow> None
     | Some (r, w') \<Rightarrow> (case r of Inl e \<Rightarrow> Some (Inl e, w') | Inr a \<Rightarrow> k a w'))"
  by (simp add: eff_bind_def)

lemma eff_seq_at [eff_simps]:
  "eff_seq m n w = (case m w of
       None \<Rightarrow> None
     | Some (r, w') \<Rightarrow> (case r of Inl e \<Rightarrow> Some (Inl e, w') | Inr a \<Rightarrow> n w'))"
  by (simp add: eff_seq_def eff_bind_def)

lemma eff_try_at [eff_simps]:
  "eff_try m h w = (case m w of
       None \<Rightarrow> None
     | Some (r, w') \<Rightarrow> (case r of Inl e \<Rightarrow> h e w' | Inr a \<Rightarrow> Some (Inr a, w')))"
  by (simp add: eff_try_def)

lemma eff_attempt_at [eff_simps]:
  "eff_attempt m w = (case m w of None \<Rightarrow> None | Some (r, w') \<Rightarrow> Some (Inr r, w'))"
  by (simp add: eff_attempt_def)

lemma eff_finally_at [eff_simps]:
  "eff_finally m f w = (case m w of
       None \<Rightarrow> None
     | Some (r, w') \<Rightarrow> (case f w' of
          None \<Rightarrow> None
        | Some (r', w'') \<Rightarrow> (case r' of Inl e \<Rightarrow> Some (Inl e, w'') | Inr _ \<Rightarrow> Some (r, w''))))"
  by (simp add: eff_finally_def eff_bind_def eff_seq_def eff_attempt_def eff_res_def
      split: option.splits prod.splits sum.splits)

lemma eff_with_at [eff_simps]:
  "eff_with enter exit body w = (case enter w of
       None \<Rightarrow> None
     | Some (rc, w1) \<Rightarrow> (case rc of
          Inl e \<Rightarrow> Some (Inl e, w1)
        | Inr c \<Rightarrow> (case body w1 of
             None \<Rightarrow> None
           | Some (r, w2) \<Rightarrow>
               (case exit c (case r of Inl e \<Rightarrow> Some e | Inr _ \<Rightarrow> None) w2 of
                  None \<Rightarrow> None
                | Some (r', w3) \<Rightarrow>
                    (case r' of Inl e \<Rightarrow> Some (Inl e, w3) | Inr _ \<Rightarrow> Some (r, w3))))))"
  by (simp add: eff_with_def eff_bind_def eff_seq_def eff_attempt_def eff_res_def
      split: option.splits prod.splits sum.splits)

lemma eff_bind_ret [simp]: "eff_bind (eff_ret a) k = k a"
  by (rule ext) (simp add: eff_simps)

lemma eff_bind_assoc: "eff_bind (eff_bind m k) l = eff_bind m (\<lambda>a. eff_bind (k a) l)"
  by (rule ext) (simp add: eff_simps split: option.splits prod.splits sum.splits)

section \<open>Monotonicity\<close>

text \<open>\<open>eff_le m n\<close>: wherever \<open>m\<close> has an outcome, \<open>n\<close> has the same.\<close>

definition eff_le :: "('w, 'a) eff \<Rightarrow> ('w, 'a) eff \<Rightarrow> bool" where
  "eff_le m n \<longleftrightarrow> (\<forall>w. m w = None \<or> m w = n w)"

lemma eff_leD: "eff_le m n \<Longrightarrow> m w = Some x \<Longrightarrow> n w = Some x"
  unfolding eff_le_def by (metis option.distinct(1))

lemma eff_leI: "(\<And>w x. m w = Some x \<Longrightarrow> n w = Some x) \<Longrightarrow> eff_le m n"
  unfolding eff_le_def by (metis not_None_eq)

lemma eff_le_refl [eff_mono, simp]: "eff_le m m"
  by (simp add: eff_le_def)

lemma eff_le_trans: "eff_le a b \<Longrightarrow> eff_le b c \<Longrightarrow> eff_le a c"
  unfolding eff_le_def by metis

lemma eff_le_bind [eff_mono]:
  assumes "eff_le m m'" and "\<And>a. eff_le (k a) (k' a)"
  shows "eff_le (eff_bind m k) (eff_bind m' k')"
proof (rule eff_leI)
  fix w x
  assume x: "eff_bind m k w = Some x"
  then obtain r w' where m: "m w = Some (r, w')"
    by (auto simp: eff_simps split: option.splits)
  from eff_leD [OF assms(1) m] x m show "eff_bind m' k' w = Some x"
    by (auto simp: eff_simps split: sum.splits intro: eff_leD [OF assms(2)])
qed

lemma eff_le_seq [eff_mono]: "eff_le m m' \<Longrightarrow> eff_le n n' \<Longrightarrow> eff_le (eff_seq m n) (eff_seq m' n')"
  unfolding eff_seq_def by (intro eff_le_bind)

lemma eff_le_try [eff_mono]:
  assumes "eff_le m m'" and "\<And>e. eff_le (h e) (h' e)"
  shows "eff_le (eff_try m h) (eff_try m' h')"
proof (rule eff_leI)
  fix w x
  assume x: "eff_try m h w = Some x"
  then obtain r w' where m: "m w = Some (r, w')"
    by (auto simp: eff_simps split: option.splits)
  from eff_leD [OF assms(1) m] x m show "eff_try m' h' w = Some x"
    by (auto simp: eff_simps split: sum.splits intro: eff_leD [OF assms(2)])
qed

lemma eff_le_attempt [eff_mono]: "eff_le m m' \<Longrightarrow> eff_le (eff_attempt m) (eff_attempt m')"
  by (intro eff_leI) (auto simp: eff_simps split: option.splits dest!: eff_leD [of m])

lemma eff_le_finally [eff_mono]:
  "eff_le m m' \<Longrightarrow> eff_le f f' \<Longrightarrow> eff_le (eff_finally m f) (eff_finally m' f')"
  unfolding eff_finally_def by (intro eff_le_bind eff_le_attempt eff_le_seq eff_le_refl)

lemma eff_le_with [eff_mono]:
  assumes "eff_le enter enter'" and "\<And>c r. eff_le (exit c r) (exit' c r)" and "eff_le m m'"
  shows "eff_le (eff_with enter exit m) (eff_with enter' exit' m')"
  unfolding eff_with_def
  by (intro eff_le_bind eff_le_attempt eff_le_seq eff_le_refl assms)

lemma eff_le_each [eff_mono]:
  "(\<And>x. eff_le (f x) (f' x)) \<Longrightarrow> eff_le (eff_each f xs) (eff_each f' xs)"
  by (induction xs) (auto intro: eff_le_seq)

lemma eff_le_if [eff_mono]:
  "(b \<Longrightarrow> eff_le m m') \<Longrightarrow> (\<not> b \<Longrightarrow> eff_le n n') \<Longrightarrow>
   eff_le (if b then m else n) (if b then m' else n')"
  by simp

lemma eff_le_option [eff_mono]:
  "eff_le n n' \<Longrightarrow> (\<And>a. eff_le (k a) (k' a)) \<Longrightarrow>
   eff_le (case x of None \<Rightarrow> n | Some a \<Rightarrow> k a) (case x of None \<Rightarrow> n' | Some a \<Rightarrow> k' a)"
  by (cases x) simp_all

lemma eff_le_sum [eff_mono]:
  "(\<And>a. eff_le (k a) (k' a)) \<Longrightarrow> (\<And>b. eff_le (l b) (l' b)) \<Longrightarrow>
   eff_le (case x of Inl a \<Rightarrow> k a | Inr b \<Rightarrow> l b) (case x of Inl a \<Rightarrow> k' a | Inr b \<Rightarrow> l' b)"
  by (cases x) simp_all

section \<open>Effects that always have an outcome\<close>

definition eff_total :: "('w, 'a) eff \<Rightarrow> bool" where
  "eff_total m \<longleftrightarrow> (\<forall>w. m w \<noteq> None)"

lemma eff_total_basic [simp, intro]:
  "eff_total (eff_ret a)" "eff_total (eff_raise e)" "eff_total (eff_res r)"
  "eff_total (eff_get f)" "eff_total (eff_upd g)"
  by (simp_all add: eff_total_def eff_simps)

lemma eff_total_bind [intro]: "eff_total m \<Longrightarrow> (\<And>a. eff_total (k a)) \<Longrightarrow> eff_total (eff_bind m k)"
  by (auto simp: eff_total_def eff_simps split: option.splits sum.splits)

lemma eff_total_seq [intro]: "eff_total m \<Longrightarrow> eff_total n \<Longrightarrow> eff_total (eff_seq m n)"
  unfolding eff_seq_def by (intro eff_total_bind)

lemma eff_total_try [intro]: "eff_total m \<Longrightarrow> (\<And>e. eff_total (h e)) \<Longrightarrow> eff_total (eff_try m h)"
  by (auto simp: eff_total_def eff_simps split: option.splits sum.splits)

lemma eff_total_attempt [intro]: "eff_total m \<Longrightarrow> eff_total (eff_attempt m)"
  by (auto simp: eff_total_def eff_simps split: option.splits)

lemma eff_total_finally [intro]: "eff_total m \<Longrightarrow> eff_total f \<Longrightarrow> eff_total (eff_finally m f)"
  unfolding eff_finally_def by (intro eff_total_bind eff_total_attempt eff_total_seq eff_total_basic)

lemma eff_total_with [intro]:
  "eff_total enter \<Longrightarrow> (\<And>c r. eff_total (exit c r)) \<Longrightarrow> eff_total m \<Longrightarrow>
   eff_total (eff_with enter exit m)"
  unfolding eff_with_def by (intro eff_total_bind eff_total_attempt eff_total_seq eff_total_basic)

lemma eff_total_each [intro]: "(\<And>x. eff_total (f x)) \<Longrightarrow> eff_total (eff_each f xs)"
  by (induction xs) auto

lemma eff_total_option:
  "(x = None \<Longrightarrow> eff_total n) \<Longrightarrow> (\<And>a. x = Some a \<Longrightarrow> eff_total (k a)) \<Longrightarrow>
   eff_total (case x of None \<Rightarrow> n | Some a \<Rightarrow> k a)"
  by (cases x) simp_all

lemma eff_total_bind_res:
  "(\<And>a. r = Inr a \<Longrightarrow> eff_total (k a)) \<Longrightarrow> eff_total (eff_bind (eff_res r) k)"
  by (cases r) (auto simp: eff_total_def eff_simps)

lemma eff_totalE: "eff_total m \<Longrightarrow> (\<And>r w'. m w = Some (r, w') \<Longrightarrow> thesis) \<Longrightarrow> thesis"
  unfolding eff_total_def by (metis not_None_eq surj_pair)

section \<open>Relations every effect keeps\<close>

text \<open>\<open>eff_keeps R m\<close>: every outcome of \<open>m\<close> leaves a state related to the initial one.  For a
  reflexive and transitive \<open>R\<close> it is enough to look at the parts of \<open>m\<close>.\<close>

definition eff_keeps :: "('w \<Rightarrow> 'w \<Rightarrow> bool) \<Rightarrow> ('w, 'a) eff \<Rightarrow> bool" where
  "eff_keeps R m \<longleftrightarrow> (\<forall>w r w'. m w = Some (r, w') \<longrightarrow> R w w')"

lemma eff_keepsD: "eff_keeps R m \<Longrightarrow> m w = Some (r, w') \<Longrightarrow> R w w'"
  by (simp add: eff_keeps_def)

lemma eff_keepsI: "(\<And>w r w'. m w = Some (r, w') \<Longrightarrow> R w w') \<Longrightarrow> eff_keeps R m"
  by (simp add: eff_keeps_def)

locale eff_relation =
  fixes R :: "'w \<Rightarrow> 'w \<Rightarrow> bool"
  assumes R_refl: "R w w"
    and R_trans: "R w1 w2 \<Longrightarrow> R w2 w3 \<Longrightarrow> R w1 w3"
begin

lemma keeps_pure:
  "eff_keeps R (eff_ret a)" "eff_keeps R (eff_raise e)" "eff_keeps R (eff_res r)"
  "eff_keeps R (eff_get f)"
  by (simp_all add: eff_keeps_def eff_simps R_refl)

lemma keeps_upd: "(\<And>w. R w (f w)) \<Longrightarrow> eff_keeps R (eff_upd f)"
  by (simp add: eff_keeps_def eff_simps)

lemma keeps_bind:
  "eff_keeps R m \<Longrightarrow> (\<And>a. eff_keeps R (k a)) \<Longrightarrow> eff_keeps R (eff_bind m k)"
  unfolding eff_keeps_def eff_simps
  by (auto split: option.split_asm sum.split_asm) (blast intro: R_trans)+

lemma keeps_seq: "eff_keeps R m \<Longrightarrow> eff_keeps R n \<Longrightarrow> eff_keeps R (eff_seq m n)"
  unfolding eff_seq_def by (intro keeps_bind)

lemma keeps_try:
  "eff_keeps R m \<Longrightarrow> (\<And>e. eff_keeps R (h e)) \<Longrightarrow> eff_keeps R (eff_try m h)"
  unfolding eff_keeps_def eff_simps
  by (auto split: option.split_asm sum.split_asm) (blast intro: R_trans)+

lemma keeps_attempt: "eff_keeps R m \<Longrightarrow> eff_keeps R (eff_attempt m)"
  unfolding eff_keeps_def eff_simps by (auto split: option.split_asm)

lemma keeps_finally: "eff_keeps R m \<Longrightarrow> eff_keeps R f \<Longrightarrow> eff_keeps R (eff_finally m f)"
  unfolding eff_finally_def by (intro keeps_bind keeps_attempt keeps_seq keeps_pure)

lemma keeps_with:
  "eff_keeps R enter \<Longrightarrow> (\<And>c r. eff_keeps R (exit c r)) \<Longrightarrow> eff_keeps R m \<Longrightarrow>
   eff_keeps R (eff_with enter exit m)"
  unfolding eff_with_def by (intro keeps_bind keeps_attempt keeps_seq keeps_pure)

lemma keeps_each: "(\<And>x. eff_keeps R (f x)) \<Longrightarrow> eff_keeps R (eff_each f xs)"
  by (induction xs) (auto intro: keeps_pure keeps_seq)

end

end
