(* ===== verification/World.thy ===== *)
theory World
  imports Complex_Main Decorators Timeouts Py_Effects
begin

text \<open>
  The state the worker reads and changes, and the services it calls.

  \<open>world\<close> is the state: the database with the open atomic blocks and the commit hooks of the
  connection, the clock, the SIGALRM state, the message id of \<open>task_logger\<close>, the process pool, and
  a trace of the log lines and external calls made so far.

  \<open>platform\<close> is everything that is not under \<open>src/\<close>: the settings module, the importer,
  pydantic's conversions, the database's refusals, the locks, SQS, Batch, the pool, random numbers
  and UUIDs.  A service may answer differently each time: its answer depends on the trace.
\<close>

section \<open>Events\<close>

text \<open>The lines \<open>execute_immediately\<close> logs, with the values they show.\<close>

datatype log_line =
    LReceived string
  | LSkipDuplicate task_status
  | LMaxRetries "int option"
  | LRetrying string "int option"
  | LTaskError exn
  | LFailed "int option"
  | LSucceeded "int option"
  | LSucceededIgnored string "int option"

datatype event =
    TaskLog string log_line
  | Dropped string kwargs string
  | SQSSend string string int
  | PoolCreate int
  | PoolSubmit string string
  | LockAcquire string string int
  | LockRelease string
  | BatchSubmit batch_job
  | AlarmRaised exn int
  | CloseConnections

section \<open>World and platform\<close>

record 'd world =
  wd_db :: "'d database"
  wd_frames :: "('d database \<times> nat) list"
  wd_hooks :: "sqs_task list"
  wd_now :: int
  wd_signals :: signals
  wd_log_id :: "string option"
  wd_pool :: "int option"
  wd_trace :: "event list"
  wd_draws :: nat
  wd_uuids :: nat

text \<open>What \<open>import_string\<close> may return.\<close>

datatype (dead 'd) imported = ImpWrapper "'d wrapper" | ImpOther string

record 'd platform =
  p_settings :: django_settings
  p_import_string :: "string \<Rightarrow> 'd imported res"
  p_type_ok :: type_check
  p_lax_int :: "pyval \<Rightarrow> int res"
  p_to_jsonable :: "kwargs \<Rightarrow> kwargs res"
  p_to_json :: "pyval \<Rightarrow> string res"
  p_from_json :: "string \<Rightarrow> pyval res"
  p_create_error :: "string \<Rightarrow> task_record \<Rightarrow> exn option"
  p_save_error :: "task_record \<Rightarrow> exn option"
  p_commit_error :: "event list \<Rightarrow> 'd database \<Rightarrow> exn option"
  p_close_connections :: "event list \<Rightarrow> exn option"
  p_cache_lock :: "string \<Rightarrow> string \<Rightarrow> exn option"
  p_lock_enter :: "event list \<Rightarrow> string \<Rightarrow> exn option"
  p_lock_exit :: "event list \<Rightarrow> string \<Rightarrow> exn option"
  p_sqs_send :: "event list \<Rightarrow> string \<Rightarrow> string \<Rightarrow> int \<Rightarrow> exn option"
  p_batch_submit :: "event list \<Rightarrow> batch_job \<Rightarrow> string res"
  p_pool_submit :: "event list \<Rightarrow> string \<Rightarrow> string \<Rightarrow> exn option"
  p_format_exc :: "exn \<Rightarrow> string"
  p_uuid4 :: "nat \<Rightarrow> string"
  p_uniform :: "nat \<Rightarrow> rat"
  p_other_alarm :: "sig_handler \<Rightarrow> exn option"

section \<open>Elementary effects\<close>

definition add_event :: "event \<Rightarrow> 'd world \<Rightarrow> 'd world" where
  "add_event ev w = w\<lparr>wd_trace := wd_trace w @ [ev]\<rparr>"

definition emit :: "event \<Rightarrow> ('d world, unit) eff" where
  "emit ev = eff_upd (add_event ev)"

text \<open>A call of a service that may raise.\<close>

definition ext_call :: "event \<Rightarrow> (event list \<Rightarrow> exn option) \<Rightarrow> ('d world, unit) eff" where
  "ext_call ev answer = (\<lambda>w.
     Some (case answer (wd_trace w) of Some e \<Rightarrow> Inl e | None \<Rightarrow> Inr (), add_event ev w))"

text \<open>\<open>_TaskLogger.process\<close> puts the message id before every line while one is set.\<close>

definition TaskLogger_prefix :: "string option \<Rightarrow> string" where
  "TaskLogger_prefix message_id = (case message_id of
       None \<Rightarrow> []
     | Some s \<Rightarrow> if s = [] then [] else ''['' @ s @ ''] '')"

definition task_log :: "log_line \<Rightarrow> ('d world, unit) eff" where
  "task_log line = eff_upd (\<lambda>w. add_event (TaskLog (TaskLogger_prefix (wd_log_id w)) line) w)"

definition set_log_id :: "string option \<Rightarrow> ('d world, unit) eff" where
  "set_log_id i = eff_upd (\<lambda>w. w\<lparr>wd_log_id := i\<rparr>)"

definition uuid4 :: "'d platform \<Rightarrow> ('d world, string) eff" where
  "uuid4 plat = (\<lambda>w. Some (Inr (p_uuid4 plat (wd_uuids w)), w\<lparr>wd_uuids := Suc (wd_uuids w)\<rparr>))"

text \<open>\<open>round\<close> rounds halves to the even neighbour.\<close>

definition py_round :: "rat \<Rightarrow> int" where
  "py_round r = (let f = \<lfloor>r\<rfloor>; d = r - of_int f in
     if d < 1 / 2 then f else if d > 1 / 2 then f + 1 else if even f then f else f + 1)"

definition uniform :: "'d platform \<Rightarrow> ('d world, rat) eff" where
  "uniform plat = (\<lambda>w. Some (Inr (p_uniform plat (wd_draws w)), w\<lparr>wd_draws := Suc (wd_draws w)\<rparr>))"

section \<open>Transactions and commit hooks\<close>

text \<open>
  \<open>transaction.atomic()\<close> and \<open>transaction.on_commit\<close> as Django documents them.  A frame holds the
  database and the number of hooks at the entry of an atomic block.  An exception restores the
  database and discards the hooks registered inside.  When the outermost block commits, the hooks
  run in order, outside any block; an exception of a hook propagates and the rest do not run.  The
  database may refuse the commit (a deferred constraint, a lost connection): then the block is rolled
  back as if its body had raised the database's exception.
  Outside a block \<open>on_commit\<close> runs its function at once.  The only function the package registers
  is \<open>SQSLambdaTask._execute\<close>, so a hook is a task; \<open>execute\<close> runs it.
\<close>

definition atomic_enter :: "('d world, unit) eff" where
  "atomic_enter = eff_upd (\<lambda>w. w\<lparr>wd_frames := (wd_db w, length (wd_hooks w)) # wd_frames w\<rparr>)"

definition atomic_exit ::
  "'d platform \<Rightarrow> (sqs_task \<Rightarrow> ('d world, unit) eff) \<Rightarrow> exn option \<Rightarrow> ('d world, unit) eff" where
  "atomic_exit plat execute r = (\<lambda>w. case wd_frames w of
       [] \<Rightarrow> Some (Inr (), w)
     | (db0, n) # fs \<Rightarrow>
         (let w0 = w\<lparr>wd_db := db0, wd_frames := fs, wd_hooks := take n (wd_hooks w)\<rparr> in
          case r of
            Some e \<Rightarrow> Some (Inr (), w0)
          | None \<Rightarrow>
              if fs = []
              then (case p_commit_error plat (wd_trace w) (wd_db w) of
                      Some e \<Rightarrow> Some (Inl e, w0)
                    | None \<Rightarrow> eff_each execute (wd_hooks w) (w\<lparr>wd_frames := [], wd_hooks := []\<rparr>))
              else Some (Inr (), w\<lparr>wd_frames := fs\<rparr>)))"

definition on_commit ::
  "(sqs_task \<Rightarrow> ('d world, unit) eff) \<Rightarrow> sqs_task \<Rightarrow> ('d world, unit) eff" where
  "on_commit execute t = (\<lambda>w.
     if wd_frames w = [] then execute t w
     else Some (Inr (), w\<lparr>wd_hooks := wd_hooks w @ [t]\<rparr>))"

section \<open>Running the code of a task\<close>

primrec run_prog ::
  "'d platform \<Rightarrow> (sqs_task \<Rightarrow> ('d world, unit) eff) \<Rightarrow> 'd prog \<Rightarrow> ('d world, pyval) eff" where
  "run_prog plat execute (Return v) = eff_ret v"
| "run_prog plat execute (Raise e) = eff_raise e"
| "run_prog plat execute (Work n k h) = (\<lambda>w.
     case work (p_other_alarm plat) n (wd_signals w) of (r, d, s) \<Rightarrow>
       (let w1 = w\<lparr>wd_now := wd_now w + int d, wd_signals := s\<rparr> in
        case r of
          None \<Rightarrow> run_prog plat execute k w1
        | Some e \<Rightarrow> run_prog plat execute (h e) (add_event (AlarmRaised e (wd_now w1)) w1)))"
| "run_prog plat execute (Query upd k) = (\<lambda>w.
     run_prog plat execute (k (wd_now w) (wd_db w)) (w\<lparr>wd_db := upd (wd_now w) (wd_db w)\<rparr>))"
| "run_prog plat execute (Enqueue t k) =
     eff_seq (on_commit execute t) (run_prog plat execute k)"
| "run_prog plat execute (Submit job k) = (\<lambda>w.
     run_prog plat execute (k (p_batch_submit plat (wd_trace w) job)) (add_event (BatchSubmit job) w))"

definition timeout_enter :: "'d platform \<Rightarrow> int \<Rightarrow> int \<Rightarrow> ('d world, timeout_ctx) eff" where
  "timeout_enter plat soft hard = (\<lambda>w.
     case TimeoutContext_enter (EAGER (p_settings plat)) (TimeoutContext soft hard) (wd_signals w) of
       (c, s) \<Rightarrow> Some (Inr c, w\<lparr>wd_signals := s\<rparr>))"

definition timeout_exit :: "'d platform \<Rightarrow> timeout_ctx \<Rightarrow> ('d world, unit) eff" where
  "timeout_exit plat c = (\<lambda>w.
     case TimeoutContext_exit (EAGER (p_settings plat)) c (wd_signals w) of
       (r, s) \<Rightarrow> Some (r, w\<lparr>wd_signals := s\<rparr>))"

section \<open>Lemmas\<close>

lemma py_round_bounds:
  assumes "of_int a \<le> r" and "r \<le> of_int b"
  shows "a \<le> py_round r \<and> py_round r \<le> b"
proof -
  have fa: "a \<le> \<lfloor>r\<rfloor>" using assms(1) by (simp add: le_floor_iff)
  have fb: "\<lfloor>r\<rfloor> \<le> b" using assms(2) by linarith
  have "\<lfloor>r\<rfloor> = b \<Longrightarrow> r - of_int \<lfloor>r\<rfloor> \<le> 0" using assms(2) by simp
  then have "\<lfloor>r\<rfloor> = b \<Longrightarrow> py_round r = \<lfloor>r\<rfloor>"
    by (simp add: py_round_def Let_def)
  moreover have "py_round r = \<lfloor>r\<rfloor> \<or> py_round r = \<lfloor>r\<rfloor> + 1"
    by (simp add: py_round_def Let_def)
  ultimately show ?thesis using fa fb by linarith
qed

lemma eff_total_atomic [intro]:
  "eff_total atomic_enter"
  "(\<And>t. eff_total (execute t)) \<Longrightarrow> eff_total (atomic_exit plat execute r)"
  "(\<And>t. eff_total (execute t)) \<Longrightarrow> eff_total (on_commit execute t')"
proof -
  show "eff_total atomic_enter" by (simp add: atomic_enter_def)
  assume e: "\<And>t. eff_total (execute t)"
  then have "eff_total (eff_each execute ts)" for ts by (rule eff_total_each)
  then show "eff_total (atomic_exit plat execute r)"
    by (auto simp: eff_total_def atomic_exit_def Let_def split: list.splits option.splits prod.splits)
  show "eff_total (on_commit execute t')"
    using e by (auto simp: eff_total_def on_commit_def)
qed

lemma eff_total_run_prog:
  assumes "\<And>t. eff_total (execute t)"
  shows "eff_total (run_prog plat execute p)"
proof (induction p rule: prog_induct)
  case (Work n k h)
  then show ?case
    by (auto simp: eff_total_def Let_def split: prod.splits option.splits)
next
  case (Query upd k)
  then show ?case by (simp add: eff_total_def)
next
  case (Enqueue t k)
  then show ?case using assms by auto
next
  case (Submit job k)
  then show ?case by (simp add: eff_total_def)
qed simp_all

lemma eff_total_world [simp, intro]:
  "eff_total (emit ev)" "eff_total (ext_call ev a)" "eff_total (task_log l)"
  "eff_total (set_log_id i)" "eff_total (uuid4 plat)" "eff_total (uniform plat)"
  "eff_total (timeout_enter plat soft hard)" "eff_total (timeout_exit plat c)"
  by (simp_all add: eff_total_def emit_def ext_call_def task_log_def set_log_id_def uuid4_def
      uniform_def timeout_enter_def timeout_exit_def eff_simps split: prod.splits)

lemma eff_le_atomic_exit [eff_mono]:
  "(\<And>t. eff_le (f t) (g t)) \<Longrightarrow> eff_le (atomic_exit plat f r) (atomic_exit plat g r)"
proof -
  assume "\<And>t. eff_le (f t) (g t)"
  then have "eff_le (eff_each f ts) (eff_each g ts)" for ts by (rule eff_le_each)
  then show ?thesis
    by (auto simp: eff_le_def atomic_exit_def Let_def split: list.splits option.splits)
qed

lemma eff_le_on_commit [eff_mono]:
  "(\<And>t. eff_le (f t) (g t)) \<Longrightarrow> eff_le (on_commit f t) (on_commit g t)"
  by (auto simp: eff_le_def on_commit_def)

lemma eff_le_run_prog [eff_mono]:
  assumes "\<And>t. eff_le (f t) (g t)"
  shows "eff_le (run_prog plat f p) (run_prog plat g p)"
proof (induction p rule: prog_induct)
  case (Work n k h)
  then show ?case
    by (auto simp: eff_le_def Let_def split: prod.splits option.splits)
next
  case (Query upd k)
  then show ?case by (simp add: eff_le_def)
next
  case (Enqueue t k)
  then show ?case using assms by (auto intro: eff_le_seq eff_le_on_commit)
next
  case (Submit job k)
  then show ?case by (simp add: eff_le_def)
qed simp_all

lemma eff_le_queue_config [eff_mono]:
  "(\<And>u. eff_le (f u) (f' u)) \<Longrightarrow> (\<And>q d. eff_le (g q d) (g' q d)) \<Longrightarrow>
   eff_le (case c of SQSQueueConfig u \<Rightarrow> f u | BatchQueueConfig q d \<Rightarrow> g q d)
     (case c of SQSQueueConfig u \<Rightarrow> f' u | BatchQueueConfig q d \<Rightarrow> g' q d)"
  by (cases c) simp_all

end
