(* ===== verification/Batch_Tasks.thy ===== *)
theory Batch_Tasks
  imports World
begin

text \<open>
  \<open>lambda_tasks/tasks.py\<close>: the built-in tasks \<open>cleanup_task_records\<close> and \<open>submit_batch_job\<close>, and the
  text form of a message that SQS, the pool and Batch carry.
\<close>

section \<open>Messages as text\<close>

definition message_to_json :: "(pyval \<Rightarrow> string res) \<Rightarrow> sqs_message \<Rightarrow> string res" where
  "message_to_json to_json m = to_json (PDict (SQSLambdaTaskMessage_dump m))"

definition message_from_json ::
  "(string \<Rightarrow> pyval res) \<Rightarrow> (pyval \<Rightarrow> int res) \<Rightarrow> string \<Rightarrow> sqs_message res" where
  "message_from_json from_json lax_int s = (case from_json s of
       Inr (PDict kvs) \<Rightarrow> SQSLambdaTaskMessage_validate lax_int kvs
     | _ \<Rightarrow> Inl (validation_error ''SQSLambdaTaskMessage''))"

section \<open>cleanup_task_records\<close>

text \<open>Times are seconds since the epoch; \<open>datetime\<close> holds the years 1 to 9999 and \<open>timedelta\<close> at
  most 999999999 days.\<close>

definition cleanup_cutoff :: "int \<Rightarrow> int \<Rightarrow> int res" where
  "cleanup_cutoff now retention_days =
     (let cutoff = now - retention_days * 86400 in
      if \<bar>retention_days\<bar> > 999999999 \<or> cutoff < - 62135596800 \<or> cutoff > 253402300799
      then Inl (Exn (Cls ''OverflowError'' [Cls ''ArithmeticError'' [Exception_cls]]) ''date value out of range'' [])
      else Inr cutoff)"

text \<open>\<open>start_time__lt\<close> does not match a row whose start time is null.\<close>

definition started_before :: "int \<Rightarrow> task_record \<Rightarrow> bool" where
  "started_before cutoff r = (case tr_start_time r of None \<Rightarrow> False | Some s \<Rightarrow> s < cutoff)"

text \<open>\<open>timedelta(days=v)\<close>.  The strict schema of the task (\<open>retention_days: int\<close>) lets only integers and
  booleans reach it.\<close>

fun timedelta_days :: "pyval \<Rightarrow> int res" where
  "timedelta_days (PInt i) = Inr i"
| "timedelta_days (PBool b) = Inr (if b then 1 else 0)"
| "timedelta_days v = Inl (Exn TypeError_cls ''unsupported type for timedelta days component'' [v])"

definition cleanup_task_records_code :: "kwargs \<Rightarrow> 'd prog" where
  "cleanup_task_records_code kwargs =
     (case (case map_of kwargs ''retention_days'' of None \<Rightarrow> Inr 7 | Some v \<Rightarrow> timedelta_days v) of
        Inl e \<Rightarrow> Raise e
      | Inr retention_days \<Rightarrow>
          Query
            (\<lambda>now db. case cleanup_cutoff now retention_days of
                Inl e \<Rightarrow> db
              | Inr cutoff \<Rightarrow> db\<lparr>db_records := filter (\<lambda>(k, r). \<not> started_before cutoff r) (db_records db)\<rparr>)
            (\<lambda>now db. case cleanup_cutoff now retention_days of
                Inl e \<Rightarrow> Raise e
              | Inr cutoff \<Rightarrow>
                  Return (PInt (int (length (filter (\<lambda>(k, r). started_before cutoff r) (db_records db)))))))"

definition cleanup_task_records_fn :: "'d pyfun" where
  "cleanup_task_records_fn =
     \<lparr>fn_module = ''lambda_tasks.tasks'', fn_qualname = ''cleanup_task_records'',
      fn_name = ''cleanup_task_records'',
      fn_params = [\<lparr>pm_name = ''retention_days'', pm_kind = KEYWORD_ONLY,
                    pm_default = Some (PInt 7), pm_annot = Some ''int''\<rparr>],
      fn_code = cleanup_task_records_code\<rparr>"

definition cleanup_task_records :: "'d wrapper res" where
  "cleanup_task_records = LambdaTaskWrapper cleanup_task_records_fn default_options"

section \<open>submit_batch_job\<close>

definition job_name_char :: "char \<Rightarrow> bool" where
  "job_name_char c \<longleftrightarrow> (let n = (of_char c :: nat) in
     (97 \<le> n \<and> n \<le> 122) \<or> (65 \<le> n \<and> n \<le> 90) \<or> (48 \<le> n \<and> n \<le> 57) \<or> c = CHR ''_'' \<or> c = CHR ''-'')"

definition sanitize_job_name :: "string \<Rightarrow> string" where
  "sanitize_job_name task_name =
     take 128 (map (\<lambda>c. if job_name_char c then c else CHR ''_'') task_name)"

definition submit_batch_job_code ::
  "django_settings \<Rightarrow> (string \<Rightarrow> sqs_message res) \<Rightarrow> kwargs \<Rightarrow> 'd prog" where
  "submit_batch_job_code dj parse kwargs =
     (case (map_of kwargs ''message_json'', map_of kwargs ''batch_queue'') of
        (Some (PStr message_json), Some (PStr batch_queue)) \<Rightarrow>
          (case QUEUES dj of
             Inl e \<Rightarrow> Raise e
           | Inr queues \<Rightarrow>
               (case map_of queues batch_queue of
                  None \<Rightarrow> Raise (improperly_configured ''is not defined in LAMBDA_TASKS_QUEUES.'' [PStr batch_queue])
                | Some (SQSQueueConfig u) \<Rightarrow>
                    Raise (improperly_configured ''is not a Batch queue.'' [PStr batch_queue])
                | Some (BatchQueueConfig q d) \<Rightarrow>
                    (case parse message_json of
                       Inl e \<Rightarrow> Raise e
                     | Inr message \<Rightarrow>
                         Submit \<lparr>job_name = sanitize_job_name (msg_task_name message),
                                 job_queue = q, job_definition = d,
                                 job_environment = [(''LAMBDA_TASKS_MESSAGE'', message_json)]\<rparr>
                           (\<lambda>r. case r of Inl e \<Rightarrow> Raise e | Inr jobId \<Rightarrow> Return (PStr jobId)))))
      | _ \<Rightarrow> Raise (type_error ''missing required keyword-only argument'' []))"

definition submit_batch_job_fn ::
  "django_settings \<Rightarrow> (string \<Rightarrow> sqs_message res) \<Rightarrow> 'd pyfun" where
  "submit_batch_job_fn dj parse =
     \<lparr>fn_module = ''lambda_tasks.tasks'', fn_qualname = ''submit_batch_job'',
      fn_name = ''submit_batch_job'',
      fn_params = [\<lparr>pm_name = ''message_json'', pm_kind = KEYWORD_ONLY,
                    pm_default = None, pm_annot = Some ''str''\<rparr>,
                   \<lparr>pm_name = ''batch_queue'', pm_kind = KEYWORD_ONLY,
                    pm_default = None, pm_annot = Some ''str''\<rparr>],
      fn_code = submit_batch_job_code dj parse\<rparr>"

definition submit_batch_job ::
  "django_settings \<Rightarrow> (string \<Rightarrow> sqs_message res) \<Rightarrow> 'd wrapper res" where
  "submit_batch_job dj parse = LambdaTaskWrapper (submit_batch_job_fn dj parse) default_options"

section \<open>Lemmas\<close>

lemma sanitize_job_name_ok:
  "length (sanitize_job_name s) \<le> 128 \<and> (\<forall>c \<in> set (sanitize_job_name s). job_name_char c)"
proof -
  have u: "job_name_char CHR ''_''" by (simp add: job_name_char_def)
  let ?s = "map (\<lambda>c. if job_name_char c then c else CHR ''_'') s"
  have "\<forall>c \<in> set ?s. job_name_char c"
    using u by auto
  moreover have "set (take 128 ?s) \<subseteq> set ?s" by (rule set_take_subset)
  ultimately have "\<forall>c \<in> set (take 128 ?s). job_name_char c" by blast
  moreover have "length (take 128 ?s) \<le> 128" by simp
  ultimately show ?thesis unfolding sanitize_job_name_def by blast
qed

lemma sanitize_job_name_id:
  "\<forall>c \<in> set s. job_name_char c \<Longrightarrow> length s \<le> 128 \<Longrightarrow> sanitize_job_name s = s"
  by (simp add: sanitize_job_name_def map_idI)

lemma sanitize_job_name_idem: "sanitize_job_name (sanitize_job_name s) = sanitize_job_name s"
  using sanitize_job_name_ok by (intro sanitize_job_name_id) auto

lemma submit_batch_job_wrapper:
  "submit_batch_job dj parse = Inr
     \<lparr>w_func = submit_batch_job_fn dj parse, w_retry_delay = 0, w_soft_timeout = None,
      w_hard_timeout = None, w_queue = ''default'', w_retry_on = [], w_singleton = False,
      w_retry_singleton = True,
      w_kwargs_model =
        [\<lparr>fd_name = ''message_json'', fd_annot = Some ''str'', fd_default = None\<rparr>,
         \<lparr>fd_name = ''batch_queue'', fd_annot = Some ''str'', fd_default = None\<rparr>]\<rparr>"
proof -
  have "options_ok (submit_batch_job_fn dj parse) default_options"
    by (rule options_ok_default) (simp add: submit_batch_job_fn_def param_ok_def py_startswith_def)
  then show ?thesis
    unfolding submit_batch_job_def
    by (subst LambdaTaskWrapper_Inr)
       (simp_all add: default_options_def build_kwargs_model_def submit_batch_job_fn_def)
qed

lemma cleanup_task_records_wrapper:
  "\<exists>wr. cleanup_task_records = Inr wr \<and> w_queue wr = ''default'' \<and> w_retry_on wr = [] \<and>
        w_func wr = cleanup_task_records_fn"
proof -
  have "options_ok cleanup_task_records_fn default_options"
    by (rule options_ok_default) (simp add: cleanup_task_records_fn_def param_ok_def py_startswith_def)
  then show ?thesis
    unfolding cleanup_task_records_def
    by (subst LambdaTaskWrapper_Inr) (simp_all add: default_options_def)
qed

end
