(* ===== verification/Local_Executor.thy ===== *)
theory Local_Executor
  imports World
begin

text \<open>
  \<open>lambda_tasks/local_executor.py\<close>, the side of the Django process: the lazily created pool and the
  submission of a task to it.
\<close>

definition get_pool :: "'d platform \<Rightarrow> ('d world, unit) eff" where
  "get_pool plat = (\<lambda>w. case wd_pool w of
       Some n \<Rightarrow> Some (Inr (), w)
     | None \<Rightarrow>
         (case LOCAL_WORKERS (p_settings plat) of
            Inl e \<Rightarrow> Some (Inl e, w)
          | Inr n \<Rightarrow>
              if n \<le> 0
              then Some (Inl (value_error ''max_workers must be greater than 0'' []), w)
              else Some (Inr (), add_event (PoolCreate n) (w\<lparr>wd_pool := Some n\<rparr>))))"

definition submit_task :: "'d platform \<Rightarrow> string \<Rightarrow> ('d world, unit) eff" where
  "submit_task plat message_json =
     eff_seq (get_pool plat)
     (eff_bind (uuid4 plat) (\<lambda>message_id.
        ext_call (PoolSubmit message_json message_id)
          (\<lambda>tr. p_pool_submit plat tr message_json message_id)))"

lemma get_pool_created: "get_pool plat w = Some (Inr (), w') \<Longrightarrow> wd_pool w' \<noteq> None"
  by (auto simp: get_pool_def add_event_def split: option.splits sum.splits if_splits)

text \<open>A second call of \<open>get_pool\<close> changes nothing: one pool serves the life of the process.\<close>

lemma get_pool_idem: "get_pool plat w = Some (Inr (), w') \<Longrightarrow> get_pool plat w' = Some (Inr (), w')"
  using get_pool_created [of plat w w'] by (auto simp: get_pool_def)

lemma eff_total_pool [simp, intro]: "eff_total (get_pool plat)" "eff_total (submit_task plat s)"
proof -
  show g: "eff_total (get_pool plat)"
    by (auto simp: eff_total_def get_pool_def split: option.splits sum.splits)
  show "eff_total (submit_task plat s)"
    unfolding submit_task_def by (intro eff_total_seq eff_total_bind eff_total_world g)
qed

end
