(* ===== verification/Record_Store.thy ===== *)
theory Record_Store
  imports Task_Data
begin

text \<open>
  The table of \<open>TaskRecord\<close> rows by primary key: what the executor needs of it as a locale, the
  table operations behind \<open>get_or_create\<close> and \<open>save(update_fields=...)\<close>, and the interpretation.
\<close>

section \<open>The interface\<close>

locale record_store =
  fixes lookup :: "'t \<Rightarrow> 'k \<Rightarrow> 'r option"
    and insert :: "'k \<Rightarrow> 'r \<Rightarrow> 't \<Rightarrow> 't"
    and update :: "'k \<Rightarrow> ('r \<Rightarrow> 'r) \<Rightarrow> 't \<Rightarrow> 't"
    and table_ok :: "'t \<Rightarrow> bool"
  assumes lookup_insert: "lookup t k = None \<Longrightarrow> lookup (insert k r t) k' = (if k' = k then Some r else lookup t k')"
    and lookup_update: "lookup (update k f t) k' = (if k' = k then map_option f (lookup t k') else lookup t k')"
    and ok_insert: "table_ok t \<Longrightarrow> lookup t k = None \<Longrightarrow> table_ok (insert k r t)"
    and ok_update: "table_ok t \<Longrightarrow> table_ok (update k f t)"
begin

text \<open>A row created and then written holds the written value, and no other row changes.\<close>

lemma lookup_created_updated:
  "lookup t k = None \<Longrightarrow>
   lookup (update k f (insert k r t)) k' = (if k' = k then Some (f r) else lookup t k')"
  by (simp add: lookup_insert lookup_update)

lemma ok_created_updated: "table_ok t \<Longrightarrow> lookup t k = None \<Longrightarrow> table_ok (update k f (insert k r t))"
  by (simp add: ok_insert ok_update)

lemma update_keeps_presence: "lookup (update k f t) k' = None \<longleftrightarrow> lookup t k' = None"
  by (simp add: lookup_update)

end

section \<open>The table\<close>

definition record_lookup :: "record_table \<Rightarrow> string \<Rightarrow> task_record option" where
  "record_lookup tbl pk = map_of tbl pk"

definition record_insert :: "string \<Rightarrow> task_record \<Rightarrow> record_table \<Rightarrow> record_table" where
  "record_insert pk r tbl = tbl @ [(pk, r)]"

definition record_update ::
  "string \<Rightarrow> (task_record \<Rightarrow> task_record) \<Rightarrow> record_table \<Rightarrow> record_table" where
  "record_update pk f tbl = map (\<lambda>(k, r). (k, if k = pk then f r else r)) tbl"

definition record_table_ok :: "record_table \<Rightarrow> bool" where
  "record_table_ok tbl \<longleftrightarrow> distinct (map fst tbl)"

lemma record_lookup_insert:
  "record_lookup t k = None \<Longrightarrow>
   record_lookup (record_insert k r t) k' = (if k' = k then Some r else record_lookup t k')"
  by (auto simp: record_lookup_def record_insert_def map_add_def split: option.splits)

lemma record_lookup_update:
  "record_lookup (record_update k f t) k' =
   (if k' = k then map_option f (record_lookup t k') else record_lookup t k')"
  by (induction t) (auto simp: record_lookup_def record_update_def)

interpretation rs: record_store record_lookup record_insert record_update record_table_ok
proof unfold_locales
  show "record_table_ok t \<Longrightarrow> record_lookup t k = None \<Longrightarrow> record_table_ok (record_insert k r t)"
    for t k r
    by (auto simp: record_table_ok_def record_lookup_def record_insert_def map_of_eq_None_iff)
  show "record_table_ok t \<Longrightarrow> record_table_ok (record_update k f t)" for t k f
    by (simp add: record_table_ok_def record_update_def comp_def case_prod_unfold)
qed (simp_all add: record_lookup_insert record_lookup_update)

end
