(* ===== verification/Executor.thy ===== *)
theory Executor
  imports Batch_Tasks Local_Executor Record_Store
begin

text \<open>
  The operations of \<open>lambda_tasks/models.py\<close>: \<open>SQSLambdaTaskMessage.execute_immediately\<close> and
  \<open>SQSLambdaTask._execute\<close>.  The two call each other: a task that runs commits hooks, a hook is
  \<open>_execute\<close>, and in eager mode \<open>_execute\<close> runs the next task in the same process.  Each is a step
  over the other, and \<open>execute_immediately\<close>, \<open>execute_task\<close> close the recursion with a bound on the
  nesting, as the interpreter's recursion limit does.
\<close>

section \<open>Records\<close>

definition set_records :: "record_table \<Rightarrow> 'd world \<Rightarrow> 'd world" where
  "set_records tbl w = w\<lparr>wd_db := (wd_db w)\<lparr>db_records := tbl\<rparr>\<rparr>"

abbreviation wd_records :: "'d world \<Rightarrow> record_table" where
  "wd_records w \<equiv> db_records (wd_db w)"

text \<open>\<open>TaskRecord.objects.get_or_create\<close> with its defaults: the record and whether it was created.\<close>

definition get_or_create_record ::
  "'d platform \<Rightarrow> sqs_message \<Rightarrow> string \<Rightarrow> ('d world, task_record \<times> bool) eff" where
  "get_or_create_record plat m message_id =
     eff_bind (eff_res (p_to_jsonable plat (msg_kwargs m))) (\<lambda>kw w.
       case record_lookup (wd_records w) message_id of
         Some r \<Rightarrow> Some (Inr (r, False), w)
       | None \<Rightarrow>
           (let r = \<lparr>tr_task_name = msg_task_name m, tr_kwargs = kw,
                     tr_n_retries = msg_n_retries m, tr_status = RUNNING,
                     tr_start_time = Some (wd_now w), tr_end_time = None,
                     tr_result = PNone, tr_traceback = None\<rparr> in
            case p_create_error plat message_id r of
              Some e \<Rightarrow> Some (Inl e, w)
            | None \<Rightarrow> Some (Inr (r, True), set_records (record_insert message_id r (wd_records w)) w)))"

text \<open>\<open>record.save(update_fields=...)\<close>: \<open>copy r row\<close> writes the listed fields of \<open>r\<close> into the row.  A
  save that matches no row raises \<open>DatabaseError\<close>.\<close>

definition save_record ::
  "'d platform \<Rightarrow> string \<Rightarrow> (task_record \<Rightarrow> task_record \<Rightarrow> task_record) \<Rightarrow> task_record
   \<Rightarrow> ('d world, unit) eff" where
  "save_record plat pk copy r = (\<lambda>w.
     case p_save_error plat r of
       Some e \<Rightarrow> Some (Inl e, w)
     | None \<Rightarrow>
         (case record_lookup (wd_records w) pk of
            None \<Rightarrow> Some (Inl (Exn DatabaseError_cls ''Save with update_fields did not affect any rows.'' []), w)
          | Some row \<Rightarrow> Some (Inr (), set_records (record_update pk (copy r) (wd_records w)) w)))"

definition status_traceback_end_time :: "task_record \<Rightarrow> task_record \<Rightarrow> task_record" where
  "status_traceback_end_time r row =
     row\<lparr>tr_status := tr_status r, tr_traceback := tr_traceback r, tr_end_time := tr_end_time r\<rparr>"

definition status_result_end_time :: "task_record \<Rightarrow> task_record \<Rightarrow> task_record" where
  "status_result_end_time r row =
     row\<lparr>tr_status := tr_status r, tr_result := tr_result r, tr_end_time := tr_end_time r\<rparr>"

section \<open>SQSLambdaTask._execute\<close>

definition execute_task_step ::
  "(sqs_message \<Rightarrow> string \<Rightarrow> ('d world, unit) eff) \<Rightarrow> (sqs_task \<Rightarrow> ('d world, unit) eff)
   \<Rightarrow> 'd platform \<Rightarrow> sqs_task \<Rightarrow> ('d world, unit) eff" where
  "execute_task_step execute_immediately execute plat t =
     (let dj = p_settings plat;
          m = tk_message t;
          dump = message_to_json (p_to_json plat) m in
      eff_bind (eff_res (NOOP_EXECUTION dj)) (\<lambda>noop.
      if noop then emit (Dropped (msg_task_name m) (msg_kwargs m) (tk_queue t))
      else if EAGER dj
      then eff_bind (uuid4 plat) (\<lambda>message_id. execute_immediately m message_id)
      else eff_bind (eff_res (LOCAL_WORKERS dj)) (\<lambda>workers.
      if workers > 0
      then eff_bind (eff_res dump) (\<lambda>message_json. submit_task plat message_json)
      else eff_bind (eff_res (QUEUES dj)) (\<lambda>queues.
      case map_of queues (tk_queue t) of
        None \<Rightarrow> eff_raise (improperly_configured ''is not defined in LAMBDA_TASKS_QUEUES.''
                             [PStr (tk_queue t)])
      | Some (BatchQueueConfig q d) \<Rightarrow>
          eff_bind (eff_res (submit_batch_job dj
              (message_from_json (p_from_json plat) (p_lax_int plat)) :: 'd wrapper res)) (\<lambda>submit_batch_job.
          eff_bind (eff_res dump) (\<lambda>message_json.
          eff_bind (eff_res (build_task (p_type_ok plat) (p_lax_int plat) submit_batch_job
              [(''message_json'', PStr message_json), (''batch_queue'', PStr (tk_queue t)),
               (''_delay'', PInt (tk_delay t))])) (\<lambda>task.
          on_commit execute task)))
      | Some (SQSQueueConfig url) \<Rightarrow>
          eff_bind (eff_res dump) (\<lambda>body.
          ext_call (SQSSend url body (tk_delay t))
            (\<lambda>tr. p_sqs_send plat tr url body (tk_delay t)))))))"

section \<open>SQSLambdaTaskMessage.execute_immediately\<close>

definition resolve_wrapper :: "'d platform \<Rightarrow> string \<Rightarrow> 'd wrapper res" where
  "resolve_wrapper plat task_name =
     res_bind (p_import_string plat task_name) (\<lambda>obj.
       case obj of
         ImpWrapper wr \<Rightarrow> Inr wr
       | ImpOther ty \<Rightarrow> Inl (type_error ''expected LambdaTaskWrapper.'' [PStr task_name, PStr ty]))"

text \<open>The lock of a singleton task: cache, key and timeout; \<open>None\<close> is \<open>contextlib.nullcontext()\<close>.\<close>

type_synonym lock_ctx = "(string \<times> string \<times> int) option"

definition singleton_key :: "string \<Rightarrow> string" where
  "singleton_key task_name = ''lambda_tasks.singleton_lock.'' @ task_name"

definition singleton_lock ::
  "'d platform \<Rightarrow> 'd wrapper \<Rightarrow> string \<Rightarrow> int \<Rightarrow> ('d world, lock_ctx) eff" where
  "singleton_lock plat wr task_name hard_timeout =
     (if w_singleton wr
      then (let cache = SINGLETON_CACHE (p_settings plat); key = singleton_key task_name in
            case p_cache_lock plat cache key of
              Some e \<Rightarrow> eff_raise e
            | None \<Rightarrow> eff_ret (Some (cache, key, hard_timeout)))
      else eff_ret None)"

definition effective_retry_on :: "'d wrapper \<Rightarrow> retry_item list" where
  "effective_retry_on wr =
     (if w_singleton wr
      then (if w_retry_singleton wr then RClass LockError_cls # w_retry_on wr else w_retry_on wr)
      else w_retry_on wr)"

definition lock_enter :: "'d platform \<Rightarrow> lock_ctx \<Rightarrow> ('d world, unit) eff" where
  "lock_enter plat c = (case c of
       None \<Rightarrow> eff_ret ()
     | Some (cache, key, timeout) \<Rightarrow>
         ext_call (LockAcquire cache key timeout) (\<lambda>tr. p_lock_enter plat tr key))"

definition lock_exit :: "'d platform \<Rightarrow> lock_ctx \<Rightarrow> ('d world, unit) eff" where
  "lock_exit plat c = (case c of
       None \<Rightarrow> eff_ret ()
     | Some (cache, key, timeout) \<Rightarrow>
         ext_call (LockRelease key) (\<lambda>tr. p_lock_exit plat tr key))"

text \<open>The three nested \<open>with\<close> blocks around \<open>wrapper(**self.kwargs)\<close>.\<close>

definition guarded_call ::
  "(sqs_task \<Rightarrow> ('d world, unit) eff) \<Rightarrow> 'd platform \<Rightarrow> 'd wrapper \<Rightarrow> kwargs \<Rightarrow> lock_ctx
   \<Rightarrow> int \<Rightarrow> int \<Rightarrow> ('d world, pyval) eff" where
  "guarded_call execute plat wr kwargs lock soft_timeout hard_timeout =
     eff_with (lock_enter plat lock) (\<lambda>_ _. lock_exit plat lock)
     (eff_with atomic_enter (\<lambda>_. atomic_exit plat execute)
     (eff_with (timeout_enter plat soft_timeout hard_timeout) (\<lambda>c _. timeout_exit plat c)
     (run_prog plat execute (wrapper_call (p_type_ok plat) wr kwargs))))"

definition isinstance_any :: "exn \<Rightarrow> retry_item list \<Rightarrow> bool" where
  "isinstance_any e items =
     list_ex (\<lambda>i. case i of RClass c \<Rightarrow> isinstance e c | RObject v \<Rightarrow> False) items"

definition MaxRetriesExceededError_cls :: pyclass where
  "MaxRetriesExceededError_cls = Cls ''MaxRetriesExceededError'' [Exception_cls]"

definition MaxRetriesExceededError :: "string \<Rightarrow> int \<Rightarrow> exn" where
  "MaxRetriesExceededError task_name n_retries =
     Exn MaxRetriesExceededError_cls ''exceeded the maximum retry limit'' [PStr task_name, PInt n_retries]"

text \<open>\<open>record.status = ...; record.traceback = ...; record.end_time = now(); record.save(...)\<close>: the
  record as it stands in memory afterwards.\<close>

definition finish_with_traceback ::
  "'d platform \<Rightarrow> string \<Rightarrow> task_record \<Rightarrow> task_status \<Rightarrow> exn \<Rightarrow> ('d world, task_record) eff" where
  "finish_with_traceback plat pk r status e =
     eff_bind (eff_get wd_now) (\<lambda>t.
       (let r' = r\<lparr>tr_status := status, tr_traceback := Some (p_format_exc plat e),
                    tr_end_time := Some t\<rparr> in
        eff_seq (save_record plat pk status_traceback_end_time r') (eff_ret r')))"

definition finish_with_result ::
  "'d platform \<Rightarrow> string \<Rightarrow> task_record \<Rightarrow> pyval \<Rightarrow> ('d world, task_record) eff" where
  "finish_with_result plat pk r v =
     eff_bind (eff_get wd_now) (\<lambda>t.
       (let r' = r\<lparr>tr_status := SUCCEEDED, tr_result := v, tr_end_time := Some t\<rparr> in
        eff_seq (save_record plat pk status_result_end_time r') (eff_ret r')))"

definition retry_delay_of :: "'d wrapper \<Rightarrow> rat \<Rightarrow> int" where
  "retry_delay_of wr u = min (w_retry_delay wr + py_round u) MAX_DELAY"

definition retry_task :: "'d wrapper \<Rightarrow> sqs_message \<Rightarrow> rat \<Rightarrow> sqs_task" where
  "retry_task wr m u =
     \<lparr>tk_message = \<lparr>msg_task_name = msg_task_name m, msg_kwargs = msg_kwargs m,
                    msg_n_retries = msg_n_retries m + 1\<rparr>,
      tk_delay = retry_delay_of wr u,
      tk_queue = w_queue wr\<rparr>"

definition handle_retry ::
  "(sqs_task \<Rightarrow> ('d world, unit) eff) \<Rightarrow> 'd platform \<Rightarrow> sqs_message \<Rightarrow> string \<Rightarrow> 'd wrapper
   \<Rightarrow> task_record \<Rightarrow> exn \<Rightarrow> ('d world, unit) eff" where
  "handle_retry execute plat m message_id wr r e =
     eff_bind (eff_res (MAX_RETRIES (p_settings plat))) (\<lambda>max_retries.
     if msg_n_retries m \<ge> max_retries
     then eff_bind (finish_with_traceback plat message_id r FAILED e) (\<lambda>r'.
          eff_seq (task_log (LMaxRetries (duration r')))
            (eff_raise (MaxRetriesExceededError (msg_task_name m) (msg_n_retries m))))
     else eff_bind (finish_with_traceback plat message_id r RETRIED e) (\<lambda>r'.
          eff_seq (task_log (LRetrying (cls_name (exn_cls e)) (duration r')))
            (eff_bind (uniform plat) (\<lambda>u. on_commit execute (retry_task wr m u)))))"

definition handle_error ::
  "(sqs_task \<Rightarrow> ('d world, unit) eff) \<Rightarrow> 'd platform \<Rightarrow> sqs_message \<Rightarrow> string \<Rightarrow> 'd wrapper
   \<Rightarrow> task_record \<Rightarrow> exn \<Rightarrow> ('d world, unit) eff" where
  "handle_error execute plat m message_id wr r e =
     (if \<not> is_Exception e then eff_raise e
      else if w_singleton wr \<and> \<not> w_retry_singleton wr \<and> isinstance e LockError_cls
      then eff_bind (finish_with_traceback plat message_id r SUCCEEDED e) (\<lambda>r'.
           task_log (LSucceededIgnored (cls_name (exn_cls e)) (duration r')))
      else if effective_retry_on wr \<noteq> [] \<and> isinstance_any e (effective_retry_on wr)
      then handle_retry execute plat m message_id wr r e
      else eff_seq (task_log (LTaskError e))
           (eff_bind (finish_with_traceback plat message_id r FAILED e) (\<lambda>r'.
            task_log (LFailed (duration r')))))"

definition run_task ::
  "(sqs_task \<Rightarrow> ('d world, unit) eff) \<Rightarrow> 'd platform \<Rightarrow> sqs_message \<Rightarrow> string \<Rightarrow> 'd wrapper
   \<Rightarrow> int \<Rightarrow> int \<Rightarrow> task_record \<Rightarrow> ('d world, unit) eff" where
  "run_task execute plat m message_id wr soft_timeout hard_timeout r =
     eff_bind (singleton_lock plat wr (msg_task_name m) hard_timeout) (\<lambda>lock.
     eff_bind (eff_attempt (guarded_call execute plat wr (msg_kwargs m) lock soft_timeout hard_timeout))
       (\<lambda>outcome. case outcome of
          Inl e \<Rightarrow> handle_error execute plat m message_id wr r e
        | Inr v \<Rightarrow> eff_bind (finish_with_result plat message_id r v) (\<lambda>r'.
                   task_log (LSucceeded (duration r')))))"

definition execute_body ::
  "(sqs_task \<Rightarrow> ('d world, unit) eff) \<Rightarrow> 'd platform \<Rightarrow> sqs_message \<Rightarrow> string
   \<Rightarrow> ('d world, unit) eff" where
  "execute_body execute plat m message_id =
     eff_seq (task_log (LReceived (msg_task_name m)))
     (eff_bind (eff_res (resolve_wrapper plat (msg_task_name m))) (\<lambda>wr.
      eff_bind (eff_res (resolved_timeouts (p_settings plat) wr)) (\<lambda>(soft_timeout, hard_timeout).
      eff_bind (get_or_create_record plat m message_id) (\<lambda>(r, created).
        if \<not> created then task_log (LSkipDuplicate (tr_status r))
        else run_task execute plat m message_id wr soft_timeout hard_timeout r))))"

definition execute_immediately_step ::
  "(sqs_task \<Rightarrow> ('d world, unit) eff) \<Rightarrow> 'd platform \<Rightarrow> sqs_message \<Rightarrow> string
   \<Rightarrow> ('d world, unit) eff" where
  "execute_immediately_step execute plat m message_id =
     eff_seq (set_log_id (Some message_id))
       (eff_finally (execute_body execute plat m message_id) (set_log_id None))"

section \<open>The recursion\<close>

fun execute_immediately ::
  "nat \<Rightarrow> 'd platform \<Rightarrow> sqs_message \<Rightarrow> string \<Rightarrow> ('d world, unit) eff"
and execute_task :: "nat \<Rightarrow> 'd platform \<Rightarrow> sqs_task \<Rightarrow> ('d world, unit) eff" where
  "execute_immediately 0 plat m message_id = (\<lambda>w. None)"
| "execute_immediately (Suc n) plat m message_id =
     execute_immediately_step (execute_task n plat) plat m message_id"
| "execute_task 0 plat t = (\<lambda>w. None)"
| "execute_task (Suc n) plat t =
     execute_task_step (execute_immediately n plat) (execute_task n plat) plat t"

text \<open>\<open>SQSLambdaTask.execute_on_commit\<close> and \<open>LambdaTaskWrapper.execute_on_commit\<close>.\<close>

definition execute_on_commit :: "nat \<Rightarrow> 'd platform \<Rightarrow> sqs_task \<Rightarrow> ('d world, unit) eff" where
  "execute_on_commit n plat t = on_commit (execute_task n plat) t"

definition wrapper_execute_on_commit ::
  "nat \<Rightarrow> 'd platform \<Rightarrow> 'd wrapper \<Rightarrow> kwargs \<Rightarrow> ('d world, unit) eff" where
  "wrapper_execute_on_commit n plat wr kwargs =
     eff_bind (eff_res (build_task (p_type_ok plat) (p_lax_int plat) wr kwargs))
       (\<lambda>t. execute_on_commit n plat t)"

text \<open>\<open>local_executor._execute_in_worker\<close>, in the worker process.\<close>

definition execute_in_worker :: "nat \<Rightarrow> 'd platform \<Rightarrow> string \<Rightarrow> string \<Rightarrow> ('d world, unit) eff" where
  "execute_in_worker n plat message_json message_id =
     eff_bind (eff_res (message_from_json (p_from_json plat) (p_lax_int plat) message_json))
       (\<lambda>m. execute_immediately n plat m message_id)"

end
