(* ===== verification/Executor_Facts.thy ===== *)
theory Executor_Facts
  imports Executor
begin

text \<open>
  The lemmas the properties of the executor rest on: what a sent task changes, totality outside eager
  mode, and monotonicity in the bound on nesting.
\<close>

section \<open>Invariant relations of the worker\<close>

text \<open>What a task does to the world when it is sent away: the trace grows, the pool may be created
  and identifiers are drawn; nothing else changes.\<close>

definition sends_only :: "'d world \<Rightarrow> 'd world \<Rightarrow> bool" where
  "sends_only w w' \<longleftrightarrow> (\<exists>t p u. w' = w\<lparr>wd_trace := wd_trace w @ t, wd_pool := p, wd_uuids := u\<rparr>)"

lemma sends_only_refl: "sends_only w w"
  unfolding sends_only_def by (intro exI [of _ "[]"] exI [of _ "wd_pool w"] exI [of _ "wd_uuids w"]) simp

lemma sends_only_trans: "sends_only w1 w2 \<Longrightarrow> sends_only w2 w3 \<Longrightarrow> sends_only w1 w3"
  unfolding sends_only_def by clarsimp (metis append_assoc)

interpretation sends: eff_relation sends_only
  by unfold_locales (auto intro: sends_only_refl sends_only_trans)

lemma sends_only_simps:
  assumes "sends_only w w'"
  shows "wd_db w' = wd_db w" "wd_frames w' = wd_frames w" "wd_hooks w' = wd_hooks w"
    "wd_now w' = wd_now w" "wd_signals w' = wd_signals w" "wd_log_id w' = wd_log_id w"
    "wd_draws w' = wd_draws w" "prefix (wd_trace w) (wd_trace w')"
  using assms by (auto simp: sends_only_def)

lemma sends_only_add_event: "sends_only w (add_event ev w)"
  unfolding sends_only_def add_event_def
  by (intro exI [of _ "[ev]"] exI [of _ "wd_pool w"] exI [of _ "wd_uuids w"]) simp

lemma sends_only_uuids: "sends_only w (w\<lparr>wd_uuids := u\<rparr>)"
  unfolding sends_only_def
  by (intro exI [of _ "[]"] exI [of _ "wd_pool w"] exI [of _ u]) simp

lemma sends_only_pool: "sends_only w (w\<lparr>wd_pool := p\<rparr>)"
  unfolding sends_only_def
  by (intro exI [of _ "[]"] exI [of _ p] exI [of _ "wd_uuids w"]) simp

lemma sends_keeps:
  "eff_keeps sends_only (emit ev)"
  "eff_keeps sends_only (ext_call ev a)"
  "eff_keeps sends_only (task_log l)"
  "eff_keeps sends_only (uuid4 plat)"
  "eff_keeps sends_only (get_pool plat)"
  "eff_keeps sends_only (submit_task plat s)"
proof -
  show "eff_keeps sends_only (emit ev)"
    by (simp add: emit_def sends.keeps_upd sends_only_add_event)
  show e: "eff_keeps sends_only (ext_call ev a)" for ev a
    by (auto simp: eff_keeps_def ext_call_def sends_only_add_event)
  show "eff_keeps sends_only (task_log l)"
    by (simp add: task_log_def sends.keeps_upd sends_only_add_event)
  show u: "eff_keeps sends_only (uuid4 plat)"
    by (auto simp: eff_keeps_def uuid4_def sends_only_uuids)
  show g: "eff_keeps sends_only (get_pool plat)"
    by (auto simp: eff_keeps_def get_pool_def sends_only_refl
        intro: sends_only_trans [OF sends_only_pool sends_only_add_event]
        split: option.split_asm sum.split_asm if_split_asm)
  show "eff_keeps sends_only (submit_task plat s)"
    unfolding submit_task_def by (intro sends.keeps_seq sends.keeps_bind g u e)
qed

definition sends_outside :: "'d world \<Rightarrow> 'd world \<Rightarrow> bool" where
  "sends_outside w w' \<longleftrightarrow> (wd_frames w = [] \<longrightarrow> sends_only w w')"

interpretation outside: eff_relation sends_outside
  by unfold_locales (auto simp: sends_outside_def sends_only_simps intro: sends_only_refl sends_only_trans)

lemma outside_sends: "eff_keeps sends_only m \<Longrightarrow> eff_keeps sends_outside m"
  by (auto simp: eff_keeps_def sends_outside_def)

text \<open>Outside a transaction and outside eager mode, \<open>_execute\<close> only sends.\<close>

lemma execute_task_sends:
  assumes ne: "\<not> EAGER (p_settings plat)"
  shows "wd_frames w = [] \<Longrightarrow> execute_task n plat t w = Some (r, w') \<Longrightarrow> sends_only w w'"
proof (induction n arbitrary: t w r w')
  case 0
  then show ?case by simp
next
  case (Suc n)
  have oc: "eff_keeps sends_outside (on_commit (execute_task n plat) t')" for t'
    using Suc.IH by (auto simp: eff_keeps_def sends_outside_def on_commit_def)
  note k = outside.keeps_bind outside.keeps_pure oc sends_keeps [THEN outside_sends]
  have "eff_keeps sends_outside (execute_task (Suc n) plat t)"
    unfolding execute_task.simps execute_task_step_def Let_def
    by (intro k) (auto simp: ne intro!: k split: option.split queue_config.split)
  with Suc.prems show ?case by (auto simp: sends_outside_def dest: eff_keepsD)
qed

section \<open>Totality outside eager mode\<close>

lemma QUEUES_default_sqs: "QUEUES dj = Inr qs \<Longrightarrow> \<exists>u. map_of qs ''default'' = Some (SQSQueueConfig u)"
  by (erule QUEUES_Inr) blast

lemma build_task_queue: "build_task type_ok li wr kw = Inr t \<Longrightarrow> tk_queue t = w_queue wr"
  by (erule build_task_Inr)

lemma execute_task_total:
  fixes plat :: "'d platform"
  assumes ne: "\<not> EAGER (p_settings plat)"
  shows "tk_queue t = ''default'' \<Longrightarrow> eff_total (execute_task (Suc n) plat t)"
    and "eff_total (execute_task (Suc (Suc n)) plat t)"
proof -
  show d: "tk_queue t = ''default'' \<Longrightarrow> eff_total (execute_task (Suc n) plat t)" for n t
    unfolding execute_task.simps execute_task_step_def Let_def
    by (intro eff_total_bind_res)
       (auto simp: ne intro!: eff_total_bind_res dest!: QUEUES_default_sqs)
  have oc: "eff_total (on_commit (execute_task (Suc n) plat) t')" if "tk_queue t' = ''default''" for t'
    using d [OF that] by (auto simp: eff_total_def on_commit_def)
  have sb: "tk_queue t' = ''default''"
    if "submit_batch_job dj parse = Inr (wr :: 'd wrapper)" "build_task ok li wr kw = Inr t'"
    for t' dj parse ok li kw and wr :: "'d wrapper"
    using build_task_queue [OF that(2)] that(1) by (auto simp: submit_batch_job_wrapper)
  show "eff_total (execute_task (Suc (Suc n)) plat t)"
    unfolding execute_task.simps(2) [of "Suc n"] execute_task_step_def Let_def
    by (intro eff_total_bind_res)
       (auto simp: ne intro!: eff_total_bind_res eff_total_option oc split: queue_config.split;
        erule sb; assumption)
qed

lemma eff_total_save [simp, intro]:
  "eff_total (get_or_create_record plat m i)"
  "eff_total (save_record plat pk c r)"
  "eff_total (finish_with_traceback plat pk r s e)"
  "eff_total (finish_with_result plat pk r v)"
proof -
  show "eff_total (get_or_create_record plat m i)"
    unfolding get_or_create_record_def
    by (intro eff_total_bind_res) (auto simp: eff_total_def Let_def split: option.splits)
  show s: "eff_total (save_record plat pk c r)" for c r
    by (auto simp: eff_total_def save_record_def split: option.splits)
  show "eff_total (finish_with_traceback plat pk r s e)"
    unfolding finish_with_traceback_def Let_def
    by (intro eff_total_bind eff_total_seq eff_total_basic s)
  show "eff_total (finish_with_result plat pk r v)"
    unfolding finish_with_result_def Let_def
    by (intro eff_total_bind eff_total_seq eff_total_basic s)
qed

lemma eff_total_handle_error:
  assumes "\<And>t. eff_total (execute t)"
  shows "eff_total (handle_error execute plat m i wr r e)"
  unfolding handle_error_def handle_retry_def
  by (auto intro!: eff_total_bind eff_total_seq eff_total_atomic assms)

lemma eff_total_guarded_call:
  assumes "\<And>t. eff_total (execute t)"
  shows "eff_total (guarded_call execute plat wr kw lock soft hard)"
  unfolding guarded_call_def lock_enter_def lock_exit_def
  by (intro eff_total_with eff_total_atomic eff_total_run_prog eff_total_world assms
      eff_total_option) (auto split: prod.splits)

lemma eff_total_run_task:
  assumes "\<And>t. eff_total (execute t)"
  shows "eff_total (run_task execute plat m i wr soft hard r)"
  unfolding run_task_def singleton_lock_def Let_def
  by (auto intro!: eff_total_bind eff_total_attempt eff_total_option
      eff_total_guarded_call eff_total_handle_error assms split: sum.split)

lemma execute_immediately_step_total:
  assumes "\<And>t. eff_total (execute t)"
  shows "eff_total (execute_immediately_step execute plat m i)"
  unfolding execute_immediately_step_def execute_body_def
  by (auto intro!: eff_total_seq eff_total_finally eff_total_bind eff_total_run_task assms)

lemma execute_immediately_total:
  "\<not> EAGER (p_settings plat) \<Longrightarrow> eff_total (execute_immediately (Suc (Suc (Suc n))) plat m i)"
  unfolding execute_immediately.simps(2) [of "Suc (Suc n)"]
  by (intro execute_immediately_step_total execute_task_total(2))

section \<open>More nesting changes nothing\<close>

lemma execute_task_step_le:
  assumes "\<And>m i. eff_le (im m i) (im' m i)" and "\<And>t. eff_le (ex t) (ex' t)"
  shows "eff_le (execute_task_step im ex plat t) (execute_task_step im' ex' plat t)"
  unfolding execute_task_step_def Let_def by (intro eff_mono assms)

lemma execute_immediately_step_le:
  assumes e: "\<And>t. eff_le (ex t) (ex' t)"
  shows "eff_le (execute_immediately_step ex plat m i) (execute_immediately_step ex' plat m i)"
proof -
  have gc: "eff_le (guarded_call ex plat wr kw lock soft hard) (guarded_call ex' plat wr kw lock soft hard)"
    for wr kw lock soft hard
    unfolding guarded_call_def by (intro eff_mono e)
  have he: "eff_le (handle_error ex plat m i wr r x) (handle_error ex' plat m i wr r x)" for wr r x
    unfolding handle_error_def handle_retry_def by (intro eff_mono e)
  have rt: "eff_le (run_task ex plat m i wr soft hard r) (run_task ex' plat m i wr soft hard r)"
    for wr soft hard r
    unfolding run_task_def by (intro eff_mono gc he)
  have "eff_le (execute_body ex plat m i) (execute_body ex' plat m i)"
    unfolding execute_body_def split_beta by (intro eff_mono rt)
  then show ?thesis
    unfolding execute_immediately_step_def by (intro eff_mono)
qed

lemma execute_le:
  "(\<forall>m i. eff_le (execute_immediately n plat m i) (execute_immediately (Suc n) plat m i)) \<and>
   (\<forall>t. eff_le (execute_task n plat t) (execute_task (Suc n) plat t))"
proof (induction n)
  case 0
  show ?case by (simp add: eff_le_def)
next
  case (Suc n)
  then have m: "\<And>m i. eff_le (execute_immediately n plat m i) (execute_immediately (Suc n) plat m i)"
    and t: "\<And>t. eff_le (execute_task n plat t) (execute_task (Suc n) plat t)"
    by blast+
  show ?case
    unfolding execute_immediately.simps(2) [of "Suc n"] execute_immediately.simps(2) [of n plat]
      execute_task.simps(2) [of "Suc n"] execute_task.simps(2) [of n plat]
    using execute_immediately_step_le [OF t] execute_task_step_le [OF m t]
    by (simp only: execute_immediately.simps execute_task.simps) simp
qed

lemma execute_mono_le:
  assumes "n \<le> k"
  shows "eff_le (execute_immediately n plat m i) (execute_immediately k plat m i)"
    and "eff_le (execute_task n plat t) (execute_task k plat t)"
proof -
  have "eff_le (execute_immediately n plat m i) (execute_immediately k plat m i) \<and>
        eff_le (execute_task n plat t) (execute_task k plat t)"
    using assms
  proof (induction k rule: dec_induct)
    case base
    show ?case by simp
  next
    case (step k)
    then show ?case using execute_le [of k plat] eff_le_trans by blast
  qed
  then show "eff_le (execute_immediately n plat m i) (execute_immediately k plat m i)"
    and "eff_le (execute_task n plat t) (execute_task k plat t)" by blast+
qed

end
