(* ===== verification/Guarded_Call.thy ===== *)
theory Guarded_Call
  imports Executor_Facts
begin

text \<open>
  What the three nested \<open>with\<close> blocks of \<open>execute_immediately\<close> do to the world: what the code of a task
  may change inside its transaction, and the three ways the guarded call ends.
\<close>

section \<open>The code of a task\<close>

text \<open>A relation between the worlds before and after the code of a task, which each elementary step of such code
  keeps; \<open>ok\<close> says what the code may do.\<close>

locale task_code = eff_relation R for R :: "'d world \<Rightarrow> 'd world \<Rightarrow> bool" +
  fixes ok :: "'d prog \<Rightarrow> bool"
  assumes ok_work: "ok (Work n k h) \<Longrightarrow> ok k \<and> ok (h e)"
    and ok_query: "ok (Query upd q) \<Longrightarrow> ok (q now db)"
    and ok_enqueue: "ok (Enqueue t k) \<Longrightarrow> ok k"
    and ok_submit: "ok (Submit job q') \<Longrightarrow> ok (q' x)"
    and R_clock: "R w (w\<lparr>wd_now := wd_now w + int d, wd_signals := s\<rparr>)"
    and R_alarm: "R w (add_event (AlarmRaised e' t') w)"
    and R_query: "ok (Query upd q) \<Longrightarrow> R w (w\<lparr>wd_db := upd (wd_now w) (wd_db w)\<rparr>)"
    and R_enqueue: "ok (Enqueue t k) \<Longrightarrow> R w (w\<lparr>wd_hooks := wd_hooks w @ [t]\<rparr>)"
    and R_submit: "R w (add_event (BatchSubmit job) w)"
begin

lemma run_keeps:
  "ok p \<Longrightarrow> wd_frames w \<noteq> [] \<Longrightarrow> run_prog plat execute p w = Some (r, w') \<Longrightarrow> R w w'"
proof (induction p arbitrary: w rule: prog_induct)
  case (Work n k h)
  obtain x d s where wk: "work (p_other_alarm plat) n (wd_signals w) = (x, d, s)"
    by (cases "work (p_other_alarm plat) n (wd_signals w)")
  let ?w1 = "w\<lparr>wd_now := wd_now w + int d, wd_signals := s\<rparr>"
  show ?case
  proof (cases x)
    case None
    have "R ?w1 w'" by (rule Work.IH(1)) (use Work.prems ok_work None wk in auto)
    with R_clock show ?thesis by (rule R_trans)
  next
    case (Some e)
    let ?w2 = "add_event (AlarmRaised e (wd_now ?w1)) ?w1"
    have "R ?w2 w'" by (rule Work.IH(2)) (use Work.prems ok_work Some wk in \<open>auto simp: add_event_def\<close>)
    with R_alarm have "R ?w1 w'" by (rule R_trans)
    with R_clock show ?thesis by (rule R_trans)
  qed
next
  case (Query upd q)
  have "R (w\<lparr>wd_db := upd (wd_now w) (wd_db w)\<rparr>) w'"
    by (rule Query.IH [of "wd_now w" "wd_db w"]) (use Query.prems ok_query in auto)
  with R_query [OF Query.prems(1)] show ?case by (rule R_trans)
next
  case (Enqueue t k)
  have "R (w\<lparr>wd_hooks := wd_hooks w @ [t]\<rparr>) w'"
    by (rule Enqueue.IH) (use Enqueue.prems ok_enqueue in \<open>auto simp: eff_simps on_commit_def\<close>)
  with R_enqueue [OF Enqueue.prems(1)] show ?case by (rule R_trans)
next
  case (Submit job q)
  have "R (add_event (BatchSubmit job) w) w'"
    by (rule Submit.IH [of "p_batch_submit plat (wd_trace w) job"]) (use Submit.prems ok_submit in \<open>auto simp: add_event_def\<close>)
  with R_submit show ?case by (rule R_trans)
qed (auto simp: eff_simps R_refl)

end

section \<open>The guarded call\<close>

definition is_send :: "event \<Rightarrow> bool" where
  "is_send ev = (case ev of SQSSend u b d \<Rightarrow> True | PoolSubmit j i \<Rightarrow> True | _ \<Rightarrow> False)"

text \<open>What the code of a task does inside its transaction: besides the database, the clock and the
  alarm it may only register hooks and leave alarms and Batch submissions in the trace.\<close>

definition in_task :: "'d world \<Rightarrow> 'd world \<Rightarrow> bool" where
  "in_task w w' \<longleftrightarrow> wd_frames w' = wd_frames w \<and> wd_log_id w' = wd_log_id w
     \<and> wd_pool w' = wd_pool w \<and> wd_draws w' = wd_draws w \<and> wd_uuids w' = wd_uuids w
     \<and> wd_now w \<le> wd_now w' \<and> prefix (wd_hooks w) (wd_hooks w')
     \<and> (\<exists>t. wd_trace w' = wd_trace w @ t \<and> (\<forall>ev \<in> set t. \<not> is_send ev))"

lemma in_task_refl: "in_task w w"
  by (simp add: in_task_def)

lemma in_task_trans: "in_task w1 w2 \<Longrightarrow> in_task w2 w3 \<Longrightarrow> in_task w1 w3"
  unfolding in_task_def by (elim conjE exE, intro conjI) (auto intro: prefix_order.trans)

lemma in_task_simple:
  "0 \<le> d \<Longrightarrow> in_task w (w\<lparr>wd_now := wd_now w + d, wd_signals := s\<rparr>)"
  "in_task w (w\<lparr>wd_db := db\<rparr>)"
  "in_task w (w\<lparr>wd_hooks := wd_hooks w @ ts\<rparr>)"
  "\<not> is_send ev \<Longrightarrow> in_task w (add_event ev w)"
  by (simp_all add: in_task_def add_event_def)

interpretation any_code: task_code in_task "\<lambda>p. True"
proof
  show "in_task w w" for w :: "'a world" by (rule in_task_refl)
  show "in_task w1 w2 \<Longrightarrow> in_task w2 w3 \<Longrightarrow> in_task w1 w3" for w1 w2 w3 :: "'a world" by (rule in_task_trans)
qed (simp_all add: in_task_simple is_send_def)

lemmas run_prog_in_task = any_code.run_keeps [OF TrueI]

text \<open>The states between the blocks.\<close>

definition idle :: "'d world \<Rightarrow> bool" where
  "idle w \<longleftrightarrow> wd_frames w = [] \<and> wd_hooks w = []"

definition lock_acquired :: "lock_ctx \<Rightarrow> 'd world \<Rightarrow> 'd world" where
  "lock_acquired lock w = (case lock of None \<Rightarrow> w | Some (c, k, t) \<Rightarrow> add_event (LockAcquire c k t) w)"

definition lock_released :: "lock_ctx \<Rightarrow> 'd world \<Rightarrow> 'd world" where
  "lock_released lock w = (case lock of None \<Rightarrow> w | Some (c, k, t) \<Rightarrow> add_event (LockRelease k) w)"

definition lock_refused :: "'d platform \<Rightarrow> lock_ctx \<Rightarrow> 'd world \<Rightarrow> exn option" where
  "lock_refused plat lock w = (case lock of None \<Rightarrow> None | Some (c, k, t) \<Rightarrow> p_lock_enter plat (wd_trace w) k)"

definition lock_lost :: "'d platform \<Rightarrow> lock_ctx \<Rightarrow> 'd world \<Rightarrow> exn option" where
  "lock_lost plat lock w = (case lock of None \<Rightarrow> None | Some (c, k, t) \<Rightarrow> p_lock_exit plat (wd_trace w) k)"

definition task_start :: "'d platform \<Rightarrow> lock_ctx \<Rightarrow> int \<Rightarrow> int \<Rightarrow> 'd world \<Rightarrow> 'd world" where
  "task_start plat lock soft hard w = (lock_acquired lock w)
     \<lparr>wd_frames := [(wd_db w, 0)],
      wd_signals := snd (TimeoutContext_enter (EAGER (p_settings plat)) (TimeoutContext soft hard) (wd_signals w))\<rparr>"

definition task_end :: "'d platform \<Rightarrow> 'd world \<Rightarrow> 'd world \<Rightarrow> 'd world" where
  "task_end plat w w2 = w2
     \<lparr>wd_frames := [], wd_hooks := [],
      wd_signals := (if EAGER (p_settings plat) then wd_signals w2
                     else (wd_signals w2)\<lparr>alarm_left := alarm_left (wd_signals w), alrm_handler := alrm_handler (wd_signals w)\<rparr>)\<rparr>"

lemma lock_acquired_simps [simp]:
  "wd_db (lock_acquired lock w) = wd_db w" "wd_frames (lock_acquired lock w) = wd_frames w"
  "wd_hooks (lock_acquired lock w) = wd_hooks w" "wd_signals (lock_acquired lock w) = wd_signals w"
  "wd_now (lock_acquired lock w) = wd_now w" "wd_log_id (lock_acquired lock w) = wd_log_id w"
  "wd_db (lock_released lock w) = wd_db w" "wd_frames (lock_released lock w) = wd_frames w"
  "wd_hooks (lock_released lock w) = wd_hooks w" "wd_signals (lock_released lock w) = wd_signals w"
  "wd_now (lock_released lock w) = wd_now w" "wd_log_id (lock_released lock w) = wd_log_id w"
  by (simp_all add: lock_acquired_def lock_released_def add_event_def split: option.split prod.split)

lemma lock_enter_at:
  "lock_enter plat lock w =
   Some (case lock_refused plat lock w of Some e \<Rightarrow> Inl e | None \<Rightarrow> Inr (), lock_acquired lock w)"
  by (cases lock) (auto simp: lock_enter_def lock_refused_def lock_acquired_def ext_call_def eff_simps)

lemma lock_exit_at:
  "lock_exit plat lock w =
   Some (case lock_lost plat lock w of Some e \<Rightarrow> Inl e | None \<Rightarrow> Inr (), lock_released lock w)"
  by (cases lock) (auto simp: lock_exit_def lock_lost_def lock_released_def ext_call_def eff_simps)

lemma timeout_block_at:
  "eff_with (timeout_enter plat soft hard) (\<lambda>c _. timeout_exit plat c) body w =
   (case body (w\<lparr>wd_signals := snd (TimeoutContext_enter (EAGER (p_settings plat)) (TimeoutContext soft hard) (wd_signals w))\<rparr>) of
      None \<Rightarrow> None
    | Some (r, w2) \<Rightarrow> Some (r, w2\<lparr>wd_signals := (if EAGER (p_settings plat) then wd_signals w2
          else (wd_signals w2)\<lparr>alarm_left := alarm_left (wd_signals w), alrm_handler := alrm_handler (wd_signals w)\<rparr>)\<rparr>))"
proof (cases "EAGER (p_settings plat)")
  case True
  then show ?thesis
    by (auto simp: eff_simps timeout_enter_def timeout_exit_def TimeoutContext_enter_eager
        TimeoutContext_exit_eager split: option.splits prod.splits)
next
  case False
  obtain c s1 where c: "TimeoutContext_enter False (TimeoutContext soft hard) (wd_signals w) = (c, s1)"
    by force
  show ?thesis
    using False TimeoutContext_exit_restores [OF c]
    by (auto simp: eff_simps timeout_enter_def timeout_exit_def c split: option.splits prod.splits)
qed

definition lock_outcome :: "exn option \<Rightarrow> 'a res \<Rightarrow> 'a res" where
  "lock_outcome lost r = (case lost of Some e \<Rightarrow> Inl e | None \<Rightarrow> r)"

definition caught_error :: "exn option \<Rightarrow> exn \<Rightarrow> exn" where
  "caught_error lost e = (case lost of Some l \<Rightarrow> l | None \<Rightarrow> e)"

lemma caught_error_simps [simp]:
  "caught_error None e = e" "caught_error (Some l) e = l" "lock_outcome lost (Inl e) = Inl (caught_error lost e)"
  by (simp_all add: caught_error_def lock_outcome_def split: option.split)

lemma atomic_block_at:
  "eff_with atomic_enter (\<lambda>_. atomic_exit plat execute) body w =
   (case body (w\<lparr>wd_frames := (wd_db w, length (wd_hooks w)) # wd_frames w\<rparr>) of
      None \<Rightarrow> None
    | Some (r, w2) \<Rightarrow>
        (case atomic_exit plat execute (case r of Inl e \<Rightarrow> Some e | Inr _ \<Rightarrow> None) w2 of
           None \<Rightarrow> None
         | Some (r', w3) \<Rightarrow> (case r' of Inl e \<Rightarrow> Some (Inl e, w3) | Inr _ \<Rightarrow> Some (r, w3))))"
  by (simp add: eff_with_at atomic_enter_def eff_upd_at)

lemma guarded_call_refused:
  "lock_refused plat lock w = Some e \<Longrightarrow>
   guarded_call execute plat wr kw lock soft hard w = Some (Inl e, lock_acquired lock w)"
  by (simp add: guarded_call_def eff_with_at [of "lock_enter plat lock"] lock_enter_at)

lemma task_end_worlds:
  "(task_end plat w w2)\<lparr>wd_db := wd_db w\<rparr> =
     (w2\<lparr>wd_signals := (if EAGER (p_settings plat) then wd_signals w2
        else (wd_signals w2)\<lparr>alarm_left := alarm_left (wd_signals w), alrm_handler := alrm_handler (wd_signals w)\<rparr>)\<rparr>)
        \<lparr>wd_db := wd_db w, wd_frames := [], wd_hooks := []\<rparr>"
  "task_end plat w w2 =
     (w2\<lparr>wd_signals := (if EAGER (p_settings plat) then wd_signals w2
        else (wd_signals w2)\<lparr>alarm_left := alarm_left (wd_signals w), alrm_handler := alrm_handler (wd_signals w)\<rparr>)\<rparr>)
        \<lparr>wd_frames := [], wd_hooks := []\<rparr>"
  by (simp_all add: task_end_def)

lemma task_start_fold:
  "(lock_acquired lock w)\<lparr>wd_frames := [(wd_db w, 0)],
     wd_signals := snd (TimeoutContext_enter (EAGER (p_settings plat)) (TimeoutContext soft hard) (wd_signals w))\<rparr>
   = task_start plat lock soft hard w"
  by (simp add: task_start_def)

text \<open>Why the block is rolled back: its body raised, or the database refused to commit.\<close>

definition block_error :: "'d platform \<Rightarrow> 'a res \<Rightarrow> 'd world \<Rightarrow> exn option" where
  "block_error plat r w = (case r of Inl e \<Rightarrow> Some e | Inr v \<Rightarrow> p_commit_error plat (wd_trace w) (wd_db w))"

text \<open>The guarded call once the lock is held.\<close>

lemma guarded_call_at:
  assumes idle: "idle w" and free: "lock_refused plat lock w = None"
  shows "guarded_call execute plat wr kw lock soft hard w =
    (case run_prog plat execute (wrapper_call (p_type_ok plat) wr kw) (task_start plat lock soft hard w) of
       None \<Rightarrow> None
     | Some (r, w2) \<Rightarrow>
         (case block_error plat r w2 of
            Some e \<Rightarrow>
              (let w3 = (task_end plat w w2)\<lparr>wd_db := wd_db w\<rparr>
               in Some (lock_outcome (lock_lost plat lock w3) (Inl e), lock_released lock w3))
          | None \<Rightarrow>
              (case eff_each execute (wd_hooks w2) (task_end plat w w2) of
                 None \<Rightarrow> None
               | Some (rh, w3) \<Rightarrow>
                   Some (lock_outcome (lock_lost plat lock w3) (case rh of Inl e \<Rightarrow> Inl e | Inr _ \<Rightarrow> r),
                         lock_released lock w3))))"
proof (cases "run_prog plat execute (wrapper_call (p_type_ok plat) wr kw) (task_start plat lock soft hard w)")
  case None
  with idle free show ?thesis
    by (simp add: guarded_call_def eff_with_at [of "lock_enter plat lock"] lock_enter_at atomic_block_at
        timeout_block_at task_start_fold idle_def)
next
  case (Some rw)
  then obtain r w2 where rp: "run_prog plat execute (wrapper_call (p_type_ok plat) wr kw) (task_start plat lock soft hard w) = Some (r, w2)"
    by (cases rw) auto
  have "in_task (task_start plat lock soft hard w) w2"
    by (rule run_prog_in_task [OF _ rp]) (simp add: task_start_def)
  then have fr: "wd_frames w2 = [(wd_db w, 0)]"
    by (simp add: in_task_def task_start_def)
  note ev = guarded_call_def eff_with_at [of "lock_enter plat lock"] lock_enter_at atomic_block_at
    timeout_block_at task_start_fold idle_def atomic_exit_def lock_exit_at lock_outcome_def
  show ?thesis
  proof (cases "block_error plat r w2")
    case (Some e)
    with idle free rp fr show ?thesis
      unfolding task_end_worlds(1) Let_def
      by (auto simp: ev block_error_def cong: if_cong split: option.split sum.split_asm)
  next
    case None
    then obtain v where v: "r = Inr v" by (auto simp: block_error_def split: sum.split_asm)
    from None idle free rp fr show ?thesis
      unfolding task_end_worlds(2) v
      by (auto simp: ev block_error_def Let_def cong: if_cong split: option.split sum.split)
  qed
qed

lemma guarded_call_cases:
  assumes idle: "idle w"
    and g: "guarded_call execute plat wr kw lock soft hard w = Some (out, w')"
  obtains
    (Refused) e where "lock_refused plat lock w = Some e" "out = Inl e" "w' = lock_acquired lock w"
  | (RolledBack) r e w2 w3 where "lock_refused plat lock w = None"
      "run_prog plat execute (wrapper_call (p_type_ok plat) wr kw) (task_start plat lock soft hard w) = Some (r, w2)"
      "in_task (task_start plat lock soft hard w) w2"
      "w3 = (task_end plat w w2)\<lparr>wd_db := wd_db w\<rparr>"
      "w' = lock_released lock w3" "out = lock_outcome (lock_lost plat lock w3) (Inl e)"
      "block_error plat r w2 = Some e"
  | (Committed) v w2 rh w3 where "lock_refused plat lock w = None"
      "run_prog plat execute (wrapper_call (p_type_ok plat) wr kw) (task_start plat lock soft hard w) = Some (Inr v, w2)"
      "in_task (task_start plat lock soft hard w) w2"
      "eff_each execute (wd_hooks w2) (task_end plat w w2) = Some (rh, w3)"
      "w' = lock_released lock w3"
      "out = lock_outcome (lock_lost plat lock w3) (case rh of Inl e \<Rightarrow> Inl e | Inr _ \<Rightarrow> Inr v)"
proof (cases "lock_refused plat lock w")
  case (Some e)
  with g show ?thesis by (intro Refused [of e]) (simp_all add: guarded_call_refused)
next
  case None
  let ?p = "wrapper_call (p_type_ok plat) wr kw"
  have it: "in_task (task_start plat lock soft hard w) w2"
    if "run_prog plat execute ?p (task_start plat lock soft hard w) = Some (r, w2)" for r w2
    by (rule run_prog_in_task [OF _ that]) (simp add: task_start_def)
  have v: "\<exists>v. r = Inr v" if "block_error plat r w2 = None" for r :: "pyval res" and w2
    using that by (auto simp: block_error_def split: sum.split_asm)
  from g show ?thesis
    unfolding guarded_call_at [OF idle None] Let_def
    by (auto split: option.split_asm prod.split_asm dest!: v intro: RolledBack [OF None _ it refl] Committed [OF None _ it])
qed

end
