(* ===== verification/Lifecycle.thy ===== *)
theory Lifecycle
  imports Guarded_Call
begin

text \<open>
  \<open>execute_immediately\<close> from the arrival of a message to the record it leaves: the states on the way,
  and one lemma per path through the function.
\<close>

section \<open>States on the way\<close>

definition log_event :: "string \<Rightarrow> log_line \<Rightarrow> event" where
  "log_event i l = TaskLog (TaskLogger_prefix (Some i)) l"

definition received :: "string \<Rightarrow> sqs_message \<Rightarrow> 'd world \<Rightarrow> 'd world" where
  "received i m w = add_event (log_event i (LReceived (msg_task_name m))) (w\<lparr>wd_log_id := Some i\<rparr>)"

definition fresh_record :: "sqs_message \<Rightarrow> kwargs \<Rightarrow> int \<Rightarrow> task_record" where
  "fresh_record m kw t =
     \<lparr>tr_task_name = msg_task_name m, tr_kwargs = kw, tr_n_retries = msg_n_retries m,
      tr_status = RUNNING, tr_start_time = Some t, tr_end_time = None,
      tr_result = PNone, tr_traceback = None\<rparr>"

definition begun :: "string \<Rightarrow> sqs_message \<Rightarrow> kwargs \<Rightarrow> 'd world \<Rightarrow> 'd world" where
  "begun i m kw w =
     set_records (record_insert i (fresh_record m kw (wd_now w)) (wd_records w)) (received i m w)"

definition lock_of :: "'d platform \<Rightarrow> 'd wrapper \<Rightarrow> sqs_message \<Rightarrow> int \<Rightarrow> lock_ctx" where
  "lock_of plat wr m hard =
     (if w_singleton wr
      then Some (SINGLETON_CACHE (p_settings plat), singleton_key (msg_task_name m), hard) else None)"

text \<open>The message names a task, the task's timeouts resolve and its arguments are JSON values.\<close>

definition resolves ::
  "'d platform \<Rightarrow> sqs_message \<Rightarrow> 'd wrapper \<Rightarrow> int \<Rightarrow> int \<Rightarrow> kwargs \<Rightarrow> bool" where
  "resolves plat m wr soft hard kw \<longleftrightarrow>
     resolve_wrapper plat (msg_task_name m) = Inr wr \<and>
     resolved_timeouts (p_settings plat) wr = Inr (soft, hard) \<and>
     p_to_jsonable plat (msg_kwargs m) = Inr kw"

text \<open>The delivery is the first with its id, the row can be written and the lock constructed: the task
  will be attempted.\<close>

definition attempts ::
  "'d platform \<Rightarrow> sqs_message \<Rightarrow> string \<Rightarrow> 'd world \<Rightarrow> 'd wrapper \<Rightarrow> int \<Rightarrow> int \<Rightarrow> kwargs \<Rightarrow> bool" where
  "attempts plat m i w wr soft hard kw \<longleftrightarrow>
     resolves plat m wr soft hard kw \<and> record_lookup (wd_records w) i = None \<and>
     p_create_error plat i (fresh_record m kw (wd_now w)) = None \<and>
     (w_singleton wr \<longrightarrow>
        p_cache_lock plat (SINGLETON_CACHE (p_settings plat)) (singleton_key (msg_task_name m)) = None)"

text \<open>The code of the task as the guarded call runs it, from the state in which it starts.\<close>

definition run_code ::
  "nat \<Rightarrow> 'd platform \<Rightarrow> sqs_message \<Rightarrow> string \<Rightarrow> 'd world \<Rightarrow> 'd wrapper \<Rightarrow> int \<Rightarrow> int \<Rightarrow> kwargs
   \<Rightarrow> (pyval res \<times> 'd world) option" where
  "run_code n plat m i w wr soft hard kw =
     run_prog plat (execute_task n plat) (wrapper_call (p_type_ok plat) wr (msg_kwargs m))
       (task_start plat (lock_of plat wr m hard) soft hard (begun i m kw w))"

section \<open>Evaluation\<close>

lemma begun_simps [simp]:
  "wd_frames (begun i m kw w) = wd_frames w" "wd_hooks (begun i m kw w) = wd_hooks w"
  "wd_now (begun i m kw w) = wd_now w" "wd_signals (begun i m kw w) = wd_signals w"
  "wd_log_id (begun i m kw w) = Some i"
  "wd_trace (begun i m kw w) = wd_trace w @ [log_event i (LReceived (msg_task_name m))]"
  "wd_db (begun i m kw w) =
     (wd_db w)\<lparr>db_records := record_insert i (fresh_record m kw (wd_now w)) (wd_records w)\<rparr>"
  by (simp_all add: begun_def received_def set_records_def add_event_def)

lemma idle_begun [simp]: "idle (begun i m kw w) \<longleftrightarrow> idle w"
  by (simp add: idle_def)

lemma execute_immediately_step_at:
  "execute_immediately_step ex plat m i w =
   map_option (\<lambda>(r, w'). (r, w'\<lparr>wd_log_id := None\<rparr>)) (execute_body ex plat m i (w\<lparr>wd_log_id := Some i\<rparr>))"
  by (auto simp: execute_immediately_step_def set_log_id_def eff_simps split: option.splits)

lemma task_log_at: "wd_log_id w = Some i \<Longrightarrow> task_log l w = Some (Inr (), add_event (log_event i l) w)"
  by (simp add: task_log_def log_event_def eff_simps)

lemma task_log_received:
  "task_log (LReceived (msg_task_name m)) (w\<lparr>wd_log_id := Some i\<rparr>) = Some (Inr (), received i m w)"
  by (simp add: task_log_def received_def log_event_def eff_simps)

lemma get_or_create_at:
  assumes "p_to_jsonable plat (msg_kwargs m) = Inr kw"
  shows "get_or_create_record plat m i (received i m w) =
    (case record_lookup (wd_records w) i of
       Some r \<Rightarrow> Some (Inr (r, False), received i m w)
     | None \<Rightarrow>
         (case p_create_error plat i (fresh_record m kw (wd_now w)) of
            Some e \<Rightarrow> Some (Inl e, received i m w)
          | None \<Rightarrow> Some (Inr (fresh_record m kw (wd_now w), True), begun i m kw w)))"
  using assms
  by (simp add: get_or_create_record_def eff_simps begun_def fresh_record_def received_def
      add_event_def Let_def split: option.split)

lemma execute_body_resolves:
  assumes "resolves plat m wr soft hard kw"
  shows "execute_body ex plat m i (w\<lparr>wd_log_id := Some i\<rparr>) =
    (case record_lookup (wd_records w) i of
       Some r \<Rightarrow> Some (Inr (), add_event (log_event i (LSkipDuplicate (tr_status r))) (received i m w))
     | None \<Rightarrow>
         (case p_create_error plat i (fresh_record m kw (wd_now w)) of
            Some e \<Rightarrow> Some (Inl e, received i m w)
          | None \<Rightarrow> run_task ex plat m i wr soft hard (fresh_record m kw (wd_now w)) (begun i m kw w)))"
proof -
  have g: "get_or_create_record plat m i (received i m w) =
    (case record_lookup (wd_records w) i of
       Some r \<Rightarrow> Some (Inr (r, False), received i m w)
     | None \<Rightarrow>
         (case p_create_error plat i (fresh_record m kw (wd_now w)) of
            Some e \<Rightarrow> Some (Inl e, received i m w)
          | None \<Rightarrow> Some (Inr (fresh_record m kw (wd_now w), True), begun i m kw w)))"
    using assms by (intro get_or_create_at) (simp add: resolves_def)
  have log: "wd_log_id (received i m w) = Some i"
    by (simp add: received_def add_event_def)
  show ?thesis
    using assms
    by (cases "record_lookup (wd_records w) i"; cases "p_create_error plat i (fresh_record m kw (wd_now w))")
       (simp_all add: execute_body_def resolves_def eff_simps task_log_received g task_log_at [OF log])
qed

lemma execute_body_rejected:
  assumes "(case resolve_wrapper plat (msg_task_name m) of
        Inl e' \<Rightarrow> e = e'
      | Inr wr \<Rightarrow> (case resolved_timeouts (p_settings plat) wr of
           Inl e' \<Rightarrow> e = e'
         | Inr st \<Rightarrow> p_to_jsonable plat (msg_kwargs m) = Inl e))"
  shows "execute_body ex plat m i (w\<lparr>wd_log_id := Some i\<rparr>) = Some (Inl e, received i m w)"
  using assms
  by (auto simp: execute_body_def eff_simps task_log_received get_or_create_record_def
      split: sum.splits prod.splits)

lemma run_task_attempts:
  assumes "attempts plat m i w wr soft hard kw"
  shows "run_task ex plat m i wr soft hard r w' =
    (case guarded_call ex plat wr (msg_kwargs m) (lock_of plat wr m hard) soft hard w' of
       None \<Rightarrow> None
     | Some (Inl e, w1) \<Rightarrow> handle_error ex plat m i wr r e w1
     | Some (Inr v, w1) \<Rightarrow>
         eff_bind (finish_with_result plat i r v) (\<lambda>r'. task_log (LSucceeded (duration r'))) w1)"
  using assms
  by (auto simp: run_task_def singleton_lock_def attempts_def lock_of_def eff_simps Let_def
      split: option.split sum.split)

lemma execute_immediately_attempts:
  assumes a: "attempts plat m i w wr soft hard kw"
  shows "execute_immediately (Suc n) plat m i w =
    map_option (\<lambda>(r, w'). (r, w'\<lparr>wd_log_id := None\<rparr>))
    (case guarded_call (execute_task n plat) plat wr (msg_kwargs m) (lock_of plat wr m hard) soft hard
         (begun i m kw w) of
       None \<Rightarrow> None
     | Some (Inl e, w1) \<Rightarrow>
         handle_error (execute_task n plat) plat m i wr (fresh_record m kw (wd_now w)) e w1
     | Some (Inr v, w1) \<Rightarrow>
         eff_bind (finish_with_result plat i (fresh_record m kw (wd_now w)) v)
           (\<lambda>r'. task_log (LSucceeded (duration r'))) w1)"
proof -
  have r: "resolves plat m wr soft hard kw" using a by (simp add: attempts_def)
  show ?thesis
    using a unfolding execute_immediately.simps(2) execute_immediately_step_at
      execute_body_resolves [OF r] run_task_attempts [OF a]
    by (simp add: attempts_def)
qed

section \<open>Writing the outcome\<close>

definition with_traceback :: "'d platform \<Rightarrow> task_status \<Rightarrow> exn \<Rightarrow> int \<Rightarrow> task_record \<Rightarrow> task_record" where
  "with_traceback plat s e t r =
     r\<lparr>tr_status := s, tr_traceback := Some (p_format_exc plat e), tr_end_time := Some t\<rparr>"

definition with_result :: "pyval \<Rightarrow> int \<Rightarrow> task_record \<Rightarrow> task_record" where
  "with_result v t r = r\<lparr>tr_status := SUCCEEDED, tr_result := v, tr_end_time := Some t\<rparr>"

lemma save_record_cases:
  assumes "save_record plat pk copy r w = Some (out, w')"
  obtains (Failed) e where "out = Inl e" "w' = w"
  | (Saved) row where "out = Inr ()" "p_save_error plat r = None" "record_lookup (wd_records w) pk = Some row"
      "w' = set_records (record_update pk (copy r) (wd_records w)) w"
  using assms by (auto simp: save_record_def split: option.split_asm)

lemma finish_with_traceback_at:
  "p_save_error plat (with_traceback plat s e (wd_now w) r) = None \<Longrightarrow>
   record_lookup (wd_records w) pk = Some row \<Longrightarrow>
   finish_with_traceback plat pk r s e w =
     Some (Inr (with_traceback plat s e (wd_now w) r),
       set_records (record_update pk (with_traceback plat s e (wd_now w)) (wd_records w)) w)"
  by (simp add: finish_with_traceback_def eff_simps save_record_def with_traceback_def [abs_def]
      status_traceback_end_time_def [abs_def] Let_def)

lemma finish_with_result_at:
  "p_save_error plat (with_result v (wd_now w) r) = None \<Longrightarrow>
   record_lookup (wd_records w) pk = Some row \<Longrightarrow>
   finish_with_result plat pk r v w =
     Some (Inr (with_result v (wd_now w) r),
       set_records (record_update pk (with_result v (wd_now w)) (wd_records w)) w)"
  by (simp add: finish_with_result_def eff_simps save_record_def with_result_def [abs_def]
      status_result_end_time_def [abs_def] Let_def)

lemma finish_with_traceback_cases:
  assumes "finish_with_traceback plat pk r s e w = Some (out, w')"
  obtains (Failed) x where "out = Inl x" "w' = w"
  | (Saved) row where "out = Inr (with_traceback plat s e (wd_now w) r)" "record_lookup (wd_records w) pk = Some row"
      "w' = set_records (record_update pk (with_traceback plat s e (wd_now w)) (wd_records w)) w"
proof -
  let ?r = "r\<lparr>tr_status := s, tr_traceback := Some (p_format_exc plat e), tr_end_time := Some (wd_now w)\<rparr>"
  from assms obtain o1 where s: "save_record plat pk status_traceback_end_time ?r w = Some (o1, w')"
    and o1: "out = (case o1 of Inl x \<Rightarrow> Inl x | Inr _ \<Rightarrow> Inr ?r)"
    by (auto simp: finish_with_traceback_def eff_simps Let_def split: option.split_asm sum.split_asm)
  from s show thesis
  proof (cases rule: save_record_cases)
    case (Failed x)
    with o1 that(1) show ?thesis by simp
  next
    case (Saved row)
    with o1 that(2) show ?thesis
      by (simp add: with_traceback_def [abs_def] status_traceback_end_time_def [abs_def])
  qed
qed

lemma finish_with_result_cases:
  assumes "finish_with_result plat pk r v w = Some (out, w')"
  obtains (Failed) x where "out = Inl x" "w' = w"
  | (Saved) row where "out = Inr (with_result v (wd_now w) r)" "record_lookup (wd_records w) pk = Some row"
      "w' = set_records (record_update pk (with_result v (wd_now w)) (wd_records w)) w"
proof -
  let ?r = "r\<lparr>tr_status := SUCCEEDED, tr_result := v, tr_end_time := Some (wd_now w)\<rparr>"
  from assms obtain o1 where s: "save_record plat pk status_result_end_time ?r w = Some (o1, w')"
    and o1: "out = (case o1 of Inl x \<Rightarrow> Inl x | Inr _ \<Rightarrow> Inr ?r)"
    by (auto simp: finish_with_result_def eff_simps Let_def split: option.split_asm sum.split_asm)
  from s show thesis
  proof (cases rule: save_record_cases)
    case (Failed x)
    with o1 that(1) show ?thesis by simp
  next
    case (Saved row)
    with o1 that(2) show ?thesis
      by (simp add: with_result_def [abs_def] status_result_end_time_def [abs_def])
  qed
qed

lemma record_update_inserted:
  "record_lookup tbl i = None \<Longrightarrow> record_update i f (record_insert i r tbl) = record_insert i (f r) tbl"
  by (auto simp: record_update_def record_insert_def record_lookup_def map_of_eq_None_iff
      intro!: map_idI) (metis fst_conv image_eqI)

lemma set_records_simps [simp]:
  "wd_records (set_records tbl w) = tbl" "db_rows (wd_db (set_records tbl w)) = db_rows (wd_db w)"
  "wd_frames (set_records tbl w) = wd_frames w" "wd_hooks (set_records tbl w) = wd_hooks w"
  "wd_now (set_records tbl w) = wd_now w" "wd_signals (set_records tbl w) = wd_signals w"
  "wd_log_id (set_records tbl w) = wd_log_id w" "wd_trace (set_records tbl w) = wd_trace w"
  "wd_draws (set_records tbl w) = wd_draws w" "wd_uuids (set_records tbl w) = wd_uuids w"
  "wd_pool (set_records tbl w) = wd_pool w"
  by (simp_all add: set_records_def)

lemma add_event_simps [simp]:
  "wd_db (add_event ev w) = wd_db w" "wd_frames (add_event ev w) = wd_frames w"
  "wd_hooks (add_event ev w) = wd_hooks w" "wd_now (add_event ev w) = wd_now w"
  "wd_signals (add_event ev w) = wd_signals w" "wd_log_id (add_event ev w) = wd_log_id w"
  "wd_trace (add_event ev w) = wd_trace w @ [ev]" "wd_draws (add_event ev w) = wd_draws w"
  "wd_uuids (add_event ev w) = wd_uuids w" "wd_pool (add_event ev w) = wd_pool w"
  by (simp_all add: add_event_def)

section \<open>A call that fails\<close>

text \<open>The lock is refused, the code of the task raises, or the database refuses to commit: \<open>e\<close> is the exception the handler of
  \<open>execute_immediately\<close> catches and \<open>w1\<close> the state in which it starts.  An exception of the lock's release
  takes the place of the first one.\<close>

definition failed_call ::
  "nat \<Rightarrow> 'd platform \<Rightarrow> sqs_message \<Rightarrow> string \<Rightarrow> 'd world \<Rightarrow> 'd wrapper \<Rightarrow> int \<Rightarrow> int \<Rightarrow> kwargs
   \<Rightarrow> (exn \<times> 'd world) option" where
  "failed_call n plat m i w wr soft hard kw =
     (let lock = lock_of plat wr m hard; w0 = begun i m kw w in
      case lock_refused plat lock w0 of
        Some e \<Rightarrow> Some (e, lock_acquired lock w0)
      | None \<Rightarrow>
          (case run_code n plat m i w wr soft hard kw of
             None \<Rightarrow> None
           | Some (r, w2) \<Rightarrow>
               map_option (\<lambda>e. (caught_error (lock_lost plat lock w2) e,
                                 lock_released lock ((task_end plat w0 w2)\<lparr>wd_db := wd_db w0\<rparr>)))
                 (block_error plat r w2)))"

lemma lock_lost_task_end [simp]:
  "lock_lost plat lock ((task_end plat w w2)\<lparr>wd_db := db\<rparr>) = lock_lost plat lock w2"
  by (simp add: lock_lost_def task_end_def split: option.split)

lemma failed_call_cases:
  assumes "failed_call n plat m i w wr soft hard kw = Some (e, w1)"
  obtains (Refused) "lock_refused plat (lock_of plat wr m hard) (begun i m kw w) = Some e"
      "w1 = lock_acquired (lock_of plat wr m hard) (begun i m kw w)"
  | (Raised) r e0 w2 where "lock_refused plat (lock_of plat wr m hard) (begun i m kw w) = None"
      "run_code n plat m i w wr soft hard kw = Some (r, w2)"
      "e = caught_error (lock_lost plat (lock_of plat wr m hard) w2) e0"
      "w1 = lock_released (lock_of plat wr m hard)
              ((task_end plat (begun i m kw w) w2)\<lparr>wd_db := wd_db (begun i m kw w)\<rparr>)"
      "block_error plat r w2 = Some e0"
  using assms
  by (auto simp: failed_call_def Let_def split: option.split_asm prod.split_asm sum.split_asm if_split_asm)

lemma guarded_call_failed:
  assumes idle: "idle w" and f: "failed_call n plat m i w wr soft hard kw = Some (e, w1)"
  shows "guarded_call (execute_task n plat) plat wr (msg_kwargs m) (lock_of plat wr m hard) soft hard
           (begun i m kw w) = Some (Inl e, w1)"
  using f
proof (cases rule: failed_call_cases)
  case Refused
  then show ?thesis by (simp add: guarded_call_refused)
next
  case (Raised r e0 w2)
  then show ?thesis
    by (simp add: guarded_call_at [OF iffD2 [OF idle_begun idle]] run_code_def
        del: begun_simps)
qed

text \<open>The failed call leaves the database with the fresh record and no other change, no open block, no
  hook, and has sent nothing.\<close>

definition quiet :: "'d world \<Rightarrow> 'd world \<Rightarrow> bool" where
  "quiet w w' \<longleftrightarrow> (\<exists>t. wd_trace w' = wd_trace w @ t \<and> (\<forall>ev \<in> set t. \<not> is_send ev))"

lemma quiet_refl [simp, intro]: "quiet w w"
  by (simp add: quiet_def)

lemma quiet_trans: "quiet w1 w2 \<Longrightarrow> quiet w2 w3 \<Longrightarrow> quiet w1 w3"
  by (force simp: quiet_def)

lemma quiet_cong: "wd_trace w1 = wd_trace w2 \<Longrightarrow> quiet w w1 \<longleftrightarrow> quiet w w2"
  by (simp add: quiet_def)

lemma quiet_add_event: "\<not> is_send ev \<Longrightarrow> quiet w w' \<Longrightarrow> quiet w (add_event ev w')"
  by (force simp: quiet_def)

lemma quiet_log [simp]: "\<not> is_send (log_event i l)" "\<not> is_send (TaskLog s l)"
  by (simp_all add: is_send_def log_event_def)

lemma quiet_lock:
  "quiet w w' \<Longrightarrow> quiet w (lock_acquired lock w')" "quiet w w' \<Longrightarrow> quiet w (lock_released lock w')"
  by (auto simp: lock_acquired_def lock_released_def is_send_def split: option.split
      intro!: quiet_add_event)

lemma quiet_begun: "quiet w (begun i m kw w)"
  by (simp add: quiet_def)

lemma in_task_quiet: "in_task w w' \<Longrightarrow> quiet w w'"
  by (auto simp: in_task_def quiet_def)

lemma lock_traced [simp]:
  "wd_draws (lock_acquired lock w) = wd_draws w" "wd_draws (lock_released lock w) = wd_draws w"
  "wd_uuids (lock_acquired lock w) = wd_uuids w" "wd_uuids (lock_released lock w) = wd_uuids w"
  by (simp_all add: lock_acquired_def lock_released_def split: option.split)

lemma begun_draws [simp]: "wd_draws (begun i m kw w) = wd_draws w" "wd_uuids (begun i m kw w) = wd_uuids w"
  by (simp_all add: begun_def received_def)

lemma run_code_in_task:
  "run_code n plat m i w wr soft hard kw = Some (r, w2) \<Longrightarrow>
   in_task (task_start plat (lock_of plat wr m hard) soft hard (begun i m kw w)) w2"
  unfolding run_code_def by (erule run_prog_in_task [rotated]) (simp add: task_start_def)

lemma task_start_simps [simp]:
  "wd_log_id (task_start plat lock soft hard w) = wd_log_id w"
  "wd_draws (task_start plat lock soft hard w) = wd_draws w"
  "wd_uuids (task_start plat lock soft hard w) = wd_uuids w"
  "wd_now (task_start plat lock soft hard w) = wd_now w"
  "wd_db (task_start plat lock soft hard w) = wd_db w"
  "wd_hooks (task_start plat lock soft hard w) = wd_hooks w"
  "wd_trace (task_start plat lock soft hard w) = wd_trace (lock_acquired lock w)"
  by (simp_all add: task_start_def)

lemma task_end_simps [simp]:
  "wd_log_id (task_end plat w w2) = wd_log_id w2" "wd_draws (task_end plat w w2) = wd_draws w2"
  "wd_uuids (task_end plat w w2) = wd_uuids w2" "wd_now (task_end plat w w2) = wd_now w2"
  "wd_db (task_end plat w w2) = wd_db w2" "wd_trace (task_end plat w w2) = wd_trace w2"
  "wd_frames (task_end plat w w2) = []" "wd_hooks (task_end plat w w2) = []"
  by (simp_all add: task_end_def)

lemma failed_call_facts:
  assumes idle: "idle w" and f: "failed_call n plat m i w wr soft hard kw = Some (e, w1)"
  shows "wd_db w1 = wd_db (begun i m kw w)" and "idle w1" and "wd_log_id w1 = Some i"
    and "wd_draws w1 = wd_draws w" and "wd_uuids w1 = wd_uuids w" and "wd_now w \<le> wd_now w1"
    and "quiet w w1" and "\<not> EAGER (p_settings plat) \<Longrightarrow> wd_signals w1 = wd_signals w"
proof -
  have "wd_db w1 = wd_db (begun i m kw w) \<and> idle w1 \<and> wd_log_id w1 = Some i \<and> wd_draws w1 = wd_draws w
    \<and> wd_uuids w1 = wd_uuids w \<and> wd_now w \<le> wd_now w1 \<and> quiet w w1
    \<and> (\<not> EAGER (p_settings plat) \<longrightarrow> wd_signals w1 = wd_signals w)"
    using f
  proof (cases rule: failed_call_cases)
    case Refused
    then show ?thesis using idle by (auto simp: idle_def intro: quiet_lock quiet_begun)
  next
    case (Raised r e0 w2)
    note it = run_code_in_task [OF Raised(2)]
    have "quiet w (task_start plat (lock_of plat wr m hard) soft hard (begun i m kw w))"
      unfolding quiet_cong [OF task_start_simps(7)] by (intro quiet_lock quiet_begun)
    then have q: "quiet w w2" using in_task_quiet [OF it] quiet_trans by blast
    have "quiet w ((task_end plat (begun i m kw w) w2)\<lparr>wd_db := wd_db (begun i m kw w)\<rparr>)"
      using q by (simp add: quiet_def)
    then have "quiet w w1" unfolding Raised(4) by (rule quiet_lock)
    then show ?thesis
      using it idle by (auto simp: Raised(4) in_task_def idle_def task_end_def)
  qed
  then show "wd_db w1 = wd_db (begun i m kw w)" "idle w1" "wd_log_id w1 = Some i"
    "wd_draws w1 = wd_draws w" "wd_uuids w1 = wd_uuids w" "wd_now w \<le> wd_now w1"
    "quiet w w1" "\<not> EAGER (p_settings plat) \<Longrightarrow> wd_signals w1 = wd_signals w"
    by blast+
qed

lemma execute_immediately_failed:
  assumes "attempts plat m i w wr soft hard kw" and "idle w"
    and "failed_call n plat m i w wr soft hard kw = Some (e, w1)"
  shows "execute_immediately (Suc n) plat m i w =
    map_option (\<lambda>(r, w'). (r, w'\<lparr>wd_log_id := None\<rparr>))
      (handle_error (execute_task n plat) plat m i wr (fresh_record m kw (wd_now w)) e w1)"
  unfolding execute_immediately_attempts [OF assms(1)] guarded_call_failed [OF assms(2,3)] by simp

lemma begun_row:
  assumes "attempts plat m i w wr soft hard kw" and "wd_db w1 = wd_db (begun i m kw w)"
  shows "record_lookup (wd_records w1) i = Some (fresh_record m kw (wd_now w))"
    and "record_update i f (wd_records w1) = record_insert i (f (fresh_record m kw (wd_now w))) (wd_records w)"
  using assms
  by (auto simp: attempts_def record_update_inserted record_lookup_insert)

text \<open>The record written after the failed call, and nothing else in the database.\<close>

definition concluded ::
  "'d platform \<Rightarrow> sqs_message \<Rightarrow> string \<Rightarrow> kwargs \<Rightarrow> 'd world \<Rightarrow> task_status \<Rightarrow> exn \<Rightarrow> 'd world \<Rightarrow> bool" where
  "concluded plat m i kw w s e w' \<longleftrightarrow>
     wd_db w' = (wd_db w)\<lparr>db_records := record_insert i
       (with_traceback plat s e (wd_now w') (fresh_record m kw (wd_now w))) (wd_records w)\<rparr>
     \<and> wd_now w \<le> wd_now w' \<and> quiet w w' \<and> idle w'"

lemma finish_concluded:
  assumes "attempts plat m i w wr soft hard kw" and "idle w"
    and f: "failed_call n plat m i w wr soft hard kw = Some (e, w1)"
    and s: "p_save_error plat (with_traceback plat s e (wd_now w1) (fresh_record m kw (wd_now w))) = None"
    and w2: "w2 = w1 \<or> (\<exists>l. w2 = add_event (log_event i l) w1)"
  obtains w3 where "finish_with_traceback plat i (fresh_record m kw (wd_now w)) s e w2 =
      Some (Inr (with_traceback plat s e (wd_now w1) (fresh_record m kw (wd_now w))), w3)"
    and "concluded plat m i kw w s e w3" and "wd_log_id w3 = Some i" and "wd_now w3 = wd_now w1"
    and "wd_draws w3 = wd_draws w" and "wd_uuids w3 = wd_uuids w"
    and "\<not> EAGER (p_settings plat) \<Longrightarrow> wd_signals w3 = wd_signals w"
proof -
  note facts = failed_call_facts [OF assms(2,3)]
  have eq: "wd_db w2 = wd_db w1" "wd_now w2 = wd_now w1" "wd_log_id w2 = wd_log_id w1"
    "wd_draws w2 = wd_draws w1" "wd_uuids w2 = wd_uuids w1" "wd_signals w2 = wd_signals w1"
    "wd_frames w2 = wd_frames w1" "wd_hooks w2 = wd_hooks w1" "quiet w w2"
    using w2 facts(7) by (auto intro: quiet_add_event)
  let ?t = "with_traceback plat s e (wd_now w1)"
  let ?w3 = "set_records (record_update i ?t (wd_records w1)) w2"
  note row = begun_row [OF assms(1) facts(1)]
  have "finish_with_traceback plat i (fresh_record m kw (wd_now w)) s e w2 =
      Some (Inr (?t (fresh_record m kw (wd_now w))), ?w3)"
    using finish_with_traceback_at [of plat s e w2 "fresh_record m kw (wd_now w)" i] s row(1) eq by simp
  moreover have "concluded plat m i kw w s e ?w3"
    using facts eq row(2) by (simp add: concluded_def idle_def quiet_def set_records_def)
  ultimately show thesis
    using facts eq that [of ?w3] by simp
qed

text \<open>Log lines change neither the record nor what has been sent.\<close>

lemma concluded_log:
  "concluded plat m i kw w s e w' \<Longrightarrow> concluded plat m i kw w s e (add_event (log_event j l) w')"
  by (auto simp: concluded_def idle_def intro: quiet_add_event)

lemma concluded_log_id [simp]:
  "concluded plat m i kw w s e (w'\<lparr>wd_log_id := x\<rparr>) = concluded plat m i kw w s e w'"
  "concluded plat m i kw w s e (w'\<lparr>wd_draws := d\<rparr>) = concluded plat m i kw w s e w'"
  by (simp_all add: concluded_def idle_def quiet_def)

end
