(* ===== verification/Sample.thy ===== *)
theory Sample
  imports Lifecycle
begin

text \<open>
  A concrete instance: the task and the settings of the example project under \<open>example/\<close>, a few more
  tasks, one per way a task can end, and a platform whose services answer.  The witnesses of the
  properties evaluate the model on it.
\<close>

section \<open>Tasks\<close>

text \<open>The loop of \<open>greet\<close>: ten times one second.  The application's own log lines are not modelled.\<close>

primrec greet_loop :: "nat \<Rightarrow> nat prog \<Rightarrow> nat prog" where
  "greet_loop 0 k = k"
| "greet_loop (Suc n) k = Work 1 (greet_loop n k) Raise"

definition greet_fn :: "nat pyfun" where
  "greet_fn =
     \<lparr>fn_module = ''example_app.tasks'', fn_qualname = ''greet'', fn_name = ''greet'',
      fn_params = [\<lparr>pm_name = ''name'', pm_kind = KEYWORD_ONLY, pm_default = None,
                    pm_annot = Some ''str''\<rparr>],
      fn_code = (\<lambda>kwargs. case map_of kwargs ''name'' of
          Some (PStr name) \<Rightarrow> greet_loop 10 (Return (PStr (''Hello, '' @ name @ ''!'')))
        | _ \<Rightarrow> Raise (type_error ''missing required keyword-only argument'' []))\<rparr>"

definition greet :: "nat wrapper res" where
  "greet = LambdaTaskWrapper greet_fn default_options"

definition sample_fn :: "string \<Rightarrow> nat prog \<Rightarrow> nat pyfun" where
  "sample_fn name p =
     \<lparr>fn_module = ''app.tasks'', fn_qualname = name, fn_name = name, fn_params = [], fn_code = (\<lambda>kwargs. p)\<rparr>"

definition timeout_connection :: exn where
  "timeout_connection = Exn (Cls ''ConnectionError'' [Exception_cls]) ''timed out'' []"

text \<open>The tasks count rows: each adds one, then does what its name says.\<close>

definition add_row :: "nat prog \<Rightarrow> nat prog" where
  "add_row k = Query (\<lambda>now db. db\<lparr>db_rows := Suc (db_rows db)\<rparr>) (\<lambda>now db. k)"

definition greet_task :: sqs_task where
  "greet_task = \<lparr>tk_message = \<lparr>msg_task_name = ''example_app.tasks.greet'',
      msg_kwargs = [(''name'', PStr ''Ada'')], msg_n_retries = 0\<rparr>, tk_delay = 0, tk_queue = ''default''\<rparr>"

definition crash_fn :: "nat pyfun" where
  "crash_fn = sample_fn ''crash'' (Enqueue greet_task (add_row (Raise (value_error ''bad'' []))))"

definition flaky_fn :: "nat pyfun" where
  "flaky_fn = sample_fn ''flaky'' (add_row (Raise timeout_connection))"

definition order_fn :: "nat pyfun" where
  "order_fn = sample_fn ''order'' (add_row (Enqueue greet_task (Return (PInt 7))))"

definition report_fn :: "nat pyfun" where
  "report_fn = sample_fn ''report'' (add_row (Return PNone))"

definition flaky_options :: task_options where
  "flaky_options = default_options\<lparr>opt_retry_delay := 30,
     opt_retry_on := [RClass (Cls ''ConnectionError'' [Exception_cls])]\<rparr>"

definition sample_import :: "string \<Rightarrow> nat imported res" where
  "sample_import name =
     (if name = ''example_app.tasks.greet'' then res_bind greet (\<lambda>wr. Inr (ImpWrapper wr))
      else if name = ''app.tasks.crash''
      then res_bind (LambdaTaskWrapper crash_fn default_options) (\<lambda>wr. Inr (ImpWrapper wr))
      else if name = ''app.tasks.flaky''
      then res_bind (LambdaTaskWrapper flaky_fn flaky_options) (\<lambda>wr. Inr (ImpWrapper wr))
      else if name = ''app.tasks.order''
      then res_bind (LambdaTaskWrapper order_fn default_options) (\<lambda>wr. Inr (ImpWrapper wr))
      else if name = ''app.tasks.report''
      then res_bind (LambdaTaskWrapper report_fn
             (default_options\<lparr>opt_singleton := True, opt_retry_singleton := False\<rparr>)) (\<lambda>wr. Inr (ImpWrapper wr))
      else if name = ''app.tasks.helper'' then Inr (ImpOther ''function'')
      else Inl (Exn (Cls ''ImportError'' [Exception_cls]) ''No module named'' [PStr name]))"

section \<open>Settings and platform\<close>

definition sample_queues :: "(string \<times> pyval) list" where
  "sample_queues =
     [(''default'', PDict [(''queue_url'', PStr ''https://sqs.localhost/default'')]),
      (''batch'', PDict [(''job_queue_arn'', PStr ''arn:queue''), (''job_definition_arn'', PStr ''arn:def'')])]"

definition sample_settings :: django_settings where
  "sample_settings =
     \<lparr>dj_queues = Some sample_queues, dj_eager = None, dj_soft_timeout = None, dj_hard_timeout = None,
      dj_max_retries = Some (PInt 2), dj_singleton_cache = None, dj_local_workers = None, dj_noop = None,
      dj_installed_apps = [''django.contrib.postgres'', ''lambda_tasks'']\<rparr>"

definition INSTALLED_APPS :: "string list" where
  "INSTALLED_APPS =
     [''django.contrib.admin'', ''django.contrib.auth'', ''django.contrib.contenttypes'', ''django.contrib.sessions'',
      ''django.contrib.messages'', ''django.contrib.staticfiles'', ''django.contrib.postgres'', ''lambda_tasks'', ''example_app'']"

text \<open>The example project's own settings: a local pool of two workers.\<close>

definition example_settings :: django_settings where
  "example_settings = sample_settings
     \<lparr>dj_queues := Some [(''default'', PDict [(''queue_url'', PStr ''https://sqs.localhost/default'')])],
      dj_max_retries := None, dj_local_workers := Some (PInt 2),
      dj_installed_apps := INSTALLED_APPS\<rparr>"

fun sample_type_ok :: type_check where
  "sample_type_ok (Some a) v =
     (if a = ''str'' then (case v of PStr s \<Rightarrow> True | _ \<Rightarrow> False)
      else if a = ''int'' then (case v of PInt i \<Rightarrow> True | PBool b \<Rightarrow> True | _ \<Rightarrow> False)
      else True)"
| "sample_type_ok None v = True"

text \<open>The texts of the messages the witnesses exchange.\<close>

definition sample_msg :: "string \<Rightarrow> kwargs \<Rightarrow> int \<Rightarrow> sqs_message" where
  "sample_msg name kw n = \<lparr>msg_task_name = name, msg_kwargs = kw, msg_n_retries = n\<rparr>"

definition sample_texts :: "(string \<times> pyval) list" where
  "sample_texts =
     [(''text of flaky'', PDict (SQSLambdaTaskMessage_dump (sample_msg ''app.tasks.flaky'' [] 0))),
      (''text of flaky, first retry'', PDict (SQSLambdaTaskMessage_dump (sample_msg ''app.tasks.flaky'' [] 1))),
      (''text of flaky, second retry'', PDict (SQSLambdaTaskMessage_dump (sample_msg ''app.tasks.flaky'' [] 2))),
      (''text of order'', PDict (SQSLambdaTaskMessage_dump (sample_msg ''app.tasks.order'' [] 0))),
      (''text of greet'', PDict (SQSLambdaTaskMessage_dump (tk_message greet_task))),
      (''text of submit_batch_job'', PDict (SQSLambdaTaskMessage_dump (sample_msg ''lambda_tasks.tasks.submit_batch_job''
         [(''message_json'', PStr ''text of greet''), (''batch_queue'', PStr ''batch'')] 0)))]"

definition sample_from_json :: "string \<Rightarrow> pyval res" where
  "sample_from_json s = (case map_of sample_texts s of
       Some v \<Rightarrow> Inr v | None \<Rightarrow> Inl (value_error ''Invalid JSON'' []))"

definition sample_to_json :: "pyval \<Rightarrow> string res" where
  "sample_to_json v = (case List.find (\<lambda>(s, v'). v' = v) sample_texts of
       Some (s, v') \<Rightarrow> Inr s | None \<Rightarrow> Inl (value_error ''not serializable'' []))"

definition sample_platform :: "nat platform" where
  "sample_platform =
     \<lparr>p_settings = sample_settings,
      p_import_string = sample_import,
      p_type_ok = sample_type_ok,
      p_lax_int = lax_int_instance,
      p_to_jsonable = (\<lambda>kw. if list_all (\<lambda>(k, v). case v of PObj x \<Rightarrow> False | _ \<Rightarrow> True) kw then Inr kw
                            else Inl (value_error ''not serializable'' [])),
      p_to_json = sample_to_json,
      p_from_json = sample_from_json,
      p_create_error = (\<lambda>i r. None),
      p_save_error = (\<lambda>r. None),
      p_commit_error = (\<lambda>tr db. None),
      p_close_connections = (\<lambda>tr. None),
      p_cache_lock = (\<lambda>c k. None),
      p_lock_enter = (\<lambda>tr k. None),
      p_lock_exit = (\<lambda>tr k. None),
      p_sqs_send = (\<lambda>tr u b d. None),
      p_batch_submit = (\<lambda>tr j. Inr ''job-1''),
      p_pool_submit = (\<lambda>tr s i. None),
      p_format_exc = (\<lambda>e. cls_name (exn_cls e)),
      p_uuid4 = (\<lambda>n. replicate (Suc n) CHR ''u''),
      p_uniform = (\<lambda>n. 3),
      p_other_alarm = (\<lambda>h. None)\<rparr>"

definition sample_world :: "nat world" where
  "sample_world =
     \<lparr>wd_db = \<lparr>db_rows = 0, db_records = []\<rparr>, wd_frames = [], wd_hooks = [], wd_now = 1000,
      wd_signals = \<lparr>alarm_left = 0, alrm_handler = SIG_DFL\<rparr>, wd_log_id = None, wd_pool = None,
      wd_trace = [], wd_draws = 0, wd_uuids = 0\<rparr>"

definition sample_wrapper :: "string \<Rightarrow> nat wrapper" where
  "sample_wrapper name = projr (resolve_wrapper sample_platform name)"

lemma sample_resolves:
  "\<not> isl (resolve_wrapper sample_platform name) \<Longrightarrow>
   resolve_wrapper sample_platform name = Inr (sample_wrapper name)"
  by (simp add: sample_wrapper_def)

definition sample_ready :: "string \<Rightarrow> kwargs \<Rightarrow> int \<Rightarrow> string \<Rightarrow> nat world \<Rightarrow> int \<Rightarrow> int \<Rightarrow> bool" where
  "sample_ready name kw n i w soft hard \<longleftrightarrow>
     \<not> isl (resolve_wrapper sample_platform name) \<and>
     resolved_timeouts sample_settings (sample_wrapper name) = Inr (soft, hard) \<and>
     p_to_jsonable sample_platform kw = Inr kw \<and> record_lookup (wd_records w) i = None"

lemma sample_ready_attempts:
  "sample_ready name kw n i w soft hard \<Longrightarrow>
   attempts sample_platform (sample_msg name kw n) i w (sample_wrapper name) soft hard kw"
  using sample_resolves [of name]
  by (simp add: sample_ready_def attempts_def resolves_def sample_msg_def)
     (simp add: sample_platform_def)

text \<open>The wrapper of the flaky task.\<close>

lemma flaky_wrapper:
  "w_func (sample_wrapper ''app.tasks.flaky'') = flaky_fn" "w_kwargs_model (sample_wrapper ''app.tasks.flaky'') = []"
proof -
  have "\<not> isl (LambdaTaskWrapper flaky_fn flaky_options)" by code_simp
  then have "LambdaTaskWrapper flaky_fn flaky_options = Inr (sample_wrapper ''app.tasks.flaky'')"
    by (auto simp: sample_wrapper_def resolve_wrapper_def sample_platform_def sample_import_def
        res_bind_def split: sum.split)
  then show "w_func (sample_wrapper ''app.tasks.flaky'') = flaky_fn" "w_kwargs_model (sample_wrapper ''app.tasks.flaky'') = []"
    using LambdaTaskWrapper_ok [of flaky_fn flaky_options "sample_wrapper ''app.tasks.flaky''"]
    by (auto simp: wrapper_ok_def build_kwargs_model_def flaky_fn_def sample_fn_def)
qed

lemma flaky_ready: "resolves sample_platform (sample_msg ''app.tasks.flaky'' [] n) (sample_wrapper ''app.tasks.flaky'') 270 300 []"
proof -
  have "sample_ready ''app.tasks.flaky'' [] 0 ''id'' sample_world 270 300" by code_simp
  from sample_ready_attempts [OF this] show ?thesis by (simp add: attempts_def resolves_def sample_msg_def)
qed

end
