(* ===== verification/Dispatch.thy ===== *)
theory Dispatch
  imports Sample
begin

text \<open>
  The properties of \<open>SQSLambdaTask._execute\<close>: where a task goes in each mode, and what is sent.
\<close>

section \<open>Modes\<close>

text \<open>The settings select the queues: neither dropping, nor eager, nor a local pool.\<close>

definition queue_mode :: "django_settings \<Rightarrow> bool" where
  "queue_mode dj \<longleftrightarrow> NOOP_EXECUTION dj = Inr False \<and> \<not> EAGER dj \<and> LOCAL_WORKERS dj = Inr 0"

lemma execute_task_queue:
  assumes "queue_mode (p_settings plat)" and "QUEUES (p_settings plat) = Inr queues"
    and "map_of queues (tk_queue t) = Some (SQSQueueConfig url)"
    and "message_to_json (p_to_json plat) (tk_message t) = Inr body"
  shows "execute_task (Suc n) plat t w =
    Some (case p_sqs_send plat (wd_trace w) url body (tk_delay t) of Some e \<Rightarrow> Inl e | None \<Rightarrow> Inr (),
          add_event (SQSSend url body (tk_delay t)) w)"
  using assms
  by (simp add: execute_task_step_def queue_mode_def eff_simps ext_call_def Let_def)

text \<open>In noop mode a task is logged and dropped: nothing is sent and nothing runs.\<close>

lemma noop_drops_task:
  assumes "NOOP_EXECUTION (p_settings plat) = Inr True"
  shows "execute_task (Suc n) plat t w =
    Some (Inr (), add_event (Dropped (msg_task_name (tk_message t)) (msg_kwargs (tk_message t)) (tk_queue t)) w)"
  using assms by (simp add: execute_task_step_def eff_simps emit_def Let_def)

lemma noop_drops_task_witness:
  "execute_task (Suc 0) (sample_platform\<lparr>p_settings := sample_settings\<lparr>dj_noop := Some (PBool True)\<rparr>\<rparr>) greet_task sample_world =
    Some (Inr (), add_event (Dropped ''example_app.tasks.greet'' [(''name'', PStr ''Ada'')] ''default'') sample_world)"
proof -
  have "NOOP_EXECUTION (sample_settings\<lparr>dj_noop := Some (PBool True)\<rparr>) = Inr True" by code_simp
  then show ?thesis
    using noop_drops_task [of "sample_platform\<lparr>p_settings := sample_settings\<lparr>dj_noop := Some (PBool True)\<rparr>\<rparr>"]
    by (simp add: greet_task_def)
qed

text \<open>On an SQS queue a task becomes exactly one message: the queue's URL, the JSON text of the
  message and the task's delay.  When the send fails its exception propagates.\<close>

lemma sqs_queue_sends_one_message:
  assumes "queue_mode (p_settings plat)" and "QUEUES (p_settings plat) = Inr queues"
    and "map_of queues (tk_queue t) = Some (SQSQueueConfig url)"
    and "message_to_json (p_to_json plat) (tk_message t) = Inr body"
  shows "execute_task (Suc n) plat t w =
    Some (case p_sqs_send plat (wd_trace w) url body (tk_delay t) of Some e \<Rightarrow> Inl e | None \<Rightarrow> Inr (),
          w\<lparr>wd_trace := wd_trace w @ [SQSSend url body (tk_delay t)]\<rparr>)"
  using execute_task_queue [OF assms] by (simp add: add_event_def)

lemma sqs_queue_sends_one_message_witness:
  "execute_task (Suc 0) sample_platform greet_task sample_world =
    Some (Inr (), sample_world\<lparr>wd_trace := [SQSSend ''https://sqs.localhost/default'' ''text of greet'' 0]\<rparr>)"
proof -
  have q: "queue_mode (p_settings sample_platform)"
    "QUEUES (p_settings sample_platform) = Inr (projr (QUEUES (p_settings sample_platform)))"
    "map_of (projr (QUEUES (p_settings sample_platform))) (tk_queue greet_task) =
       Some (SQSQueueConfig ''https://sqs.localhost/default'')"
    "message_to_json (p_to_json sample_platform) (tk_message greet_task) = Inr ''text of greet''"
    by code_simp+
  show ?thesis
    using sqs_queue_sends_one_message [OF q, of 0 sample_world]
    by (simp add: greet_task_def) (simp add: sample_platform_def sample_world_def)
qed

text \<open>A queue that the settings do not define is refused with \<open>ImproperlyConfigured\<close> when the task is
  dispatched, and nothing is sent.\<close>

lemma unknown_queue_refused:
  assumes "queue_mode (p_settings plat)" and "QUEUES (p_settings plat) = Inr queues"
    and "map_of queues (tk_queue t) = None"
  shows "\<exists>e. execute_task (Suc n) plat t w = Some (Inl e, w) \<and> isinstance e ImproperlyConfigured_cls"
  using assms
  by (simp add: execute_task_step_def queue_mode_def eff_simps Let_def improperly_configured_def isinstance_def)

lemma unknown_queue_refused_witness:
  "\<exists>e. execute_task (Suc 0) sample_platform (greet_task\<lparr>tk_queue := ''other''\<rparr>) sample_world = Some (Inl e, sample_world)
       \<and> isinstance e ImproperlyConfigured_cls"
proof -
  have q: "queue_mode (p_settings sample_platform)"
    "QUEUES (p_settings sample_platform) = Inr (projr (QUEUES (p_settings sample_platform)))"
    "map_of (projr (QUEUES (p_settings sample_platform))) (tk_queue (greet_task\<lparr>tk_queue := ''other''\<rparr>)) = None"
    by code_simp+
  show ?thesis by (rule unknown_queue_refused [OF q])
qed

text \<open>With local workers a task goes to the process pool with a fresh message id.  The first task
  creates the pool with the configured number of workers, later ones find it; no queue is used.\<close>

lemma local_workers_use_one_pool:
  assumes "NOOP_EXECUTION (p_settings plat) = Inr False" and "LOCAL_WORKERS (p_settings plat) = Inr k" and "0 < k"
    and "message_to_json (p_to_json plat) (tk_message t) = Inr body"
  shows "execute_task (Suc n) plat t w =
    Some (case p_pool_submit plat (wd_trace w @ (if wd_pool w = None then [PoolCreate k] else [])) body
             (p_uuid4 plat (wd_uuids w)) of Some e \<Rightarrow> Inl e | None \<Rightarrow> Inr (),
          w\<lparr>wd_pool := (if wd_pool w = None then Some k else wd_pool w),
            wd_uuids := Suc (wd_uuids w),
            wd_trace := wd_trace w @ (if wd_pool w = None then [PoolCreate k] else [])
                                   @ [PoolSubmit body (p_uuid4 plat (wd_uuids w))]\<rparr>)"
proof -
  have "\<not> EAGER (p_settings plat)" using assms(2,3) LOCAL_WORKERS_Inr by blast
  with assms show ?thesis
    by (cases "wd_pool w")
       (simp_all add: execute_task_step_def eff_simps Let_def submit_task_def get_pool_def uuid4_def ext_call_def
          add_event_def)
qed

lemma local_workers_use_one_pool_witness:
  "execute_task (Suc 0) (sample_platform\<lparr>p_settings := example_settings\<rparr>) greet_task sample_world =
    Some (Inr (), sample_world\<lparr>wd_pool := Some 2, wd_uuids := 1,
            wd_trace := [PoolCreate 2, PoolSubmit ''text of greet'' ''u'']\<rparr>)"
proof -
  let ?p = "sample_platform\<lparr>p_settings := example_settings\<rparr>"
  have q: "NOOP_EXECUTION (p_settings ?p) = Inr False" "LOCAL_WORKERS (p_settings ?p) = Inr 2" "(0::int) < 2"
    "message_to_json (p_to_json ?p) (tk_message greet_task) = Inr ''text of greet''"
    by code_simp+
  show ?thesis
    using local_workers_use_one_pool [OF q, of 0 sample_world]
    by (simp add: sample_world_def) (simp add: sample_platform_def)
qed

text \<open>Outside eager mode dispatching a task, in whatever mode and with whatever outcome, changes
  neither the database nor the clock nor the alarm nor the pending hooks: it only sends.\<close>

lemma dispatch_only_sends:
  assumes "\<not> EAGER (p_settings plat)" and "wd_frames w = []" and "execute_task n plat t w = Some (r, w')"
  shows "wd_db w' = wd_db w \<and> wd_now w' = wd_now w \<and> wd_signals w' = wd_signals w \<and> idle w' = idle w \<and>
    wd_log_id w' = wd_log_id w \<and> prefix (wd_trace w) (wd_trace w')"
  using sends_only_simps [OF execute_task_sends [OF assms]] by (simp add: idle_def)

lemma dispatch_only_sends_witness:
  "\<exists>w'. execute_task (Suc 0) sample_platform greet_task sample_world = Some (Inr (), w') \<and>
    wd_db w' = wd_db sample_world \<and> prefix (wd_trace sample_world) (wd_trace w')"
proof -
  let ?r = "execute_task (Suc 0) sample_platform greet_task sample_world"
  have h: "\<not> EAGER (p_settings sample_platform)" "wd_frames sample_world = []"
    "?r = Some (Inr (), snd (the ?r))" by code_simp+
  show ?thesis using h(3) dispatch_only_sends [OF h] by blast
qed

text \<open>A task enqueued inside a transaction is not sent there: it waits, behind the earlier ones, for
  the outermost block to commit.\<close>

lemma enqueue_waits_for_commit:
  assumes "wd_frames w \<noteq> []" and "build_task (p_type_ok plat) (p_lax_int plat) wr kw = Inr t"
  shows "wrapper_execute_on_commit n plat wr kw w = Some (Inr (), w\<lparr>wd_hooks := wd_hooks w @ [t]\<rparr>)"
  using assms by (simp add: wrapper_execute_on_commit_def execute_on_commit_def on_commit_def eff_simps)

lemma enqueue_waits_for_commit_witness:
  "wrapper_execute_on_commit 0 sample_platform (sample_wrapper ''example_app.tasks.greet'') [(''name'', PStr ''Ada'')]
     (sample_world\<lparr>wd_frames := [(wd_db sample_world, 0)]\<rparr>) =
   Some (Inr (), sample_world\<lparr>wd_frames := [(wd_db sample_world, 0)], wd_hooks := [greet_task]\<rparr>)"
proof -
  have b: "build_task (p_type_ok sample_platform) (p_lax_int sample_platform)
      (sample_wrapper ''example_app.tasks.greet'') [(''name'', PStr ''Ada'')] = Inr greet_task" by code_simp
  have h: "wd_hooks sample_world = []" by code_simp
  show ?thesis
    using enqueue_waits_for_commit [OF _ b, of "sample_world\<lparr>wd_frames := [(wd_db sample_world, 0)]\<rparr>" 0] h by simp
qed

section \<open>Batch queues\<close>

text \<open>The invocation of \<open>submit_batch_job\<close> that carries a task to Batch.\<close>

definition batch_carrier :: "string \<Rightarrow> sqs_task \<Rightarrow> sqs_task" where
  "batch_carrier body t =
     \<lparr>tk_message = \<lparr>msg_task_name = ''lambda_tasks.tasks.submit_batch_job'',
        msg_kwargs = [(''message_json'', PStr body), (''batch_queue'', PStr (tk_queue t))],
        msg_n_retries = 0\<rparr>,
      tk_delay = tk_delay t, tk_queue = ''default''\<rparr>"

lemma build_batch_carrier:
  assumes "\<And>s. type_ok (Some ''str'') (PStr s)" and "\<And>i. li (PInt i) = Inr i"
    and "0 \<le> tk_delay t" and "tk_delay t \<le> MAX_DELAY"
    and wr: "submit_batch_job dj parse = Inr wr"
  shows "build_task type_ok li wr
    [(''message_json'', PStr body), (''batch_queue'', PStr (tk_queue t)), (''_delay'', PInt (tk_delay t))] =
    Inr (batch_carrier body t)"
  using wr assms(1-4)
  by (auto simp: submit_batch_job_wrapper build_task_def kwargs_pop_def validate_delay_def
      kwargs_model_validate_def SQSLambdaTaskMessage_validate_def submit_batch_job_fn_def batch_carrier_def
      res_check_def)

text \<open>A task for a Batch queue goes through the default queue, which is always an SQS queue: what is
  sent is one message for \<open>submit_batch_job\<close> that holds the JSON text of the task's message and the
  name of the Batch queue, with the task's delay.\<close>

lemma batch_queue_goes_through_default_queue:
  fixes plat :: "'d platform"
  assumes "queue_mode (p_settings plat)" and "QUEUES (p_settings plat) = Inr queues"
    and "map_of queues (tk_queue t) = Some (BatchQueueConfig q d)"
    and "message_to_json (p_to_json plat) (tk_message t) = Inr body"
    and "message_to_json (p_to_json plat) (tk_message (batch_carrier body t)) = Inr envelope"
    and "0 \<le> tk_delay t" and "tk_delay t \<le> MAX_DELAY"
    and "\<forall>s. p_type_ok plat (Some ''str'') (PStr s)" and "\<forall>i. p_lax_int plat (PInt i) = Inr i"
    and "wd_frames w = []"
  shows "\<exists>url. map_of queues ''default'' = Some (SQSQueueConfig url) \<and>
    execute_task (Suc (Suc n)) plat t w =
    Some (case p_sqs_send plat (wd_trace w) url envelope (tk_delay t) of Some e \<Rightarrow> Inl e | None \<Rightarrow> Inr (),
          w\<lparr>wd_trace := wd_trace w @ [SQSSend url envelope (tk_delay t)]\<rparr>)"
proof -
  obtain url where url: "map_of queues ''default'' = Some (SQSQueueConfig url)"
    using assms(2) by (rule QUEUES_Inr) blast
  let ?c = "batch_carrier body t"
  let ?parse = "message_from_json (p_from_json plat) (p_lax_int plat)"
  obtain wr :: "'d wrapper" where wr: "submit_batch_job (p_settings plat) ?parse = Inr wr"
    using submit_batch_job_wrapper by blast
  have c: "build_task (p_type_ok plat) (p_lax_int plat) wr
     [(''message_json'', PStr body), (''batch_queue'', PStr (tk_queue t)), (''_delay'', PInt (tk_delay t))] = Inr ?c"
    using build_batch_carrier [OF _ _ assms(6,7) wr] assms(8,9) by blast
  have cs: "tk_queue ?c = ''default''" "tk_delay ?c = tk_delay t" by (simp_all add: batch_carrier_def)
  have s: "execute_task (Suc n) plat ?c w =
    Some (case p_sqs_send plat (wd_trace w) url envelope (tk_delay t) of Some e \<Rightarrow> Inl e | None \<Rightarrow> Inr (),
          add_event (SQSSend url envelope (tk_delay t)) w)"
    using execute_task_queue [of plat queues ?c url envelope n w] assms(1,2,5) url by (simp only: cs)
  have "execute_task (Suc (Suc n)) plat t w = on_commit (execute_task (Suc n) plat) ?c w"
    unfolding execute_task.simps(2) [of "Suc n"] execute_task_step_def Let_def
    using assms(1-4) wr c by (simp add: queue_mode_def eff_simps del: execute_task.simps)
  also have "\<dots> = execute_task (Suc n) plat ?c w"
    using assms(10) by (simp add: on_commit_def del: execute_task.simps)
  finally show ?thesis using url s by (simp add: add_event_def del: execute_task.simps)
qed

definition render_task :: sqs_task where
  "render_task = greet_task\<lparr>tk_queue := ''batch'', tk_delay := 60\<rparr>"

lemma batch_queue_goes_through_default_queue_witness:
  "execute_task (Suc (Suc 0)) sample_platform render_task sample_world =
    Some (Inr (), sample_world\<lparr>wd_trace :=
      [SQSSend ''https://sqs.localhost/default'' ''text of submit_batch_job'' 60]\<rparr>)"
proof -
  let ?qs = "projr (QUEUES (p_settings sample_platform))"
  have q: "queue_mode (p_settings sample_platform)"
    "QUEUES (p_settings sample_platform) = Inr ?qs"
    "map_of ?qs (tk_queue render_task) = Some (BatchQueueConfig ''arn:queue'' ''arn:def'')"
    "message_to_json (p_to_json sample_platform) (tk_message render_task) = Inr ''text of greet''"
    "message_to_json (p_to_json sample_platform) (tk_message (batch_carrier ''text of greet'' render_task)) =
       Inr ''text of submit_batch_job''"
    "0 \<le> tk_delay render_task" "tk_delay render_task \<le> MAX_DELAY"
    by code_simp+
  have t: "\<forall>s. p_type_ok sample_platform (Some ''str'') (PStr s)" "\<forall>i. p_lax_int sample_platform (PInt i) = Inr i"
    by (simp_all add: sample_platform_def)
  have w: "wd_frames sample_world = []" "wd_trace sample_world = []" "tk_delay render_task = 60"
    "map_of ?qs ''default'' = Some (SQSQueueConfig ''https://sqs.localhost/default'')" by code_simp+
  have p: "p_sqs_send sample_platform tr u b d = None" for tr u b d by (simp add: sample_platform_def)
  show ?thesis
    using batch_queue_goes_through_default_queue [OF q t w(1), of 0]
    by (simp add: w p del: execute_task.simps)
qed

text \<open>The job for a message, and the code of \<open>submit_batch_job\<close> that submits it.\<close>

definition submitted_job :: "string \<Rightarrow> string \<Rightarrow> string \<Rightarrow> sqs_message \<Rightarrow> batch_job" where
  "submitted_job q d body m =
     \<lparr>job_name = sanitize_job_name (msg_task_name m), job_queue = q, job_definition = d,
      job_environment = [(''LAMBDA_TASKS_MESSAGE'', body)]\<rparr>"

lemma submit_batch_job_call:
  assumes "submit_batch_job (p_settings plat) (message_from_json (p_from_json plat) (p_lax_int plat)) = Inr wr"
    and "QUEUES (p_settings plat) = Inr queues" and "map_of queues name = Some (BatchQueueConfig q d)"
    and "message_from_json (p_from_json plat) (p_lax_int plat) body = Inr m"
    and "\<forall>s. p_type_ok plat (Some ''str'') (PStr s)"
  shows "wrapper_call (p_type_ok plat) wr [(''message_json'', PStr body), (''batch_queue'', PStr name)] =
    Submit (submitted_job q d body m) (\<lambda>r. case r of Inl e \<Rightarrow> Raise e | Inr jobId \<Rightarrow> Return (PStr jobId))"
proof -
  let ?parse = "message_from_json (p_from_json plat) (p_lax_int plat)"
  let ?kw = "[(''message_json'', PStr body), (''batch_queue'', PStr name)]"
  have wr: "w_func wr = submit_batch_job_fn (p_settings plat) ?parse"
    "w_kwargs_model wr =
      [\<lparr>fd_name = ''message_json'', fd_annot = Some ''str'', fd_default = None\<rparr>,
       \<lparr>fd_name = ''batch_queue'', fd_annot = Some ''str'', fd_default = None\<rparr>]"
    using assms(1) by (auto simp: submit_batch_job_wrapper)
  have "wrapper_call (p_type_ok plat) wr ?kw = submit_batch_job_code (p_settings plat) ?parse ?kw"
    using assms(5) by (simp add: wrapper_call_def call_function_def kwargs_model_validate_def wr submit_batch_job_fn_def res_check_def)
  also have "\<dots> = Submit (submitted_job q d body m) (\<lambda>r. case r of Inl e \<Rightarrow> Raise e | Inr jobId \<Rightarrow> Return (PStr jobId))"
    using assms(2-4) by (simp add: submit_batch_job_code_def submitted_job_def)
  finally show ?thesis .
qed

text \<open>\<open>submit_batch_job\<close> submits one job to the queue's job queue and job definition: the text of the
  message travels unchanged in the environment, and the job name is the task's name reduced to the
  characters and the length Batch accepts.  Batch's exception propagates.\<close>

lemma submit_batch_job_submits:
  assumes "submit_batch_job (p_settings plat) (message_from_json (p_from_json plat) (p_lax_int plat)) = Inr wr"
    and "QUEUES (p_settings plat) = Inr queues" and "map_of queues name = Some (BatchQueueConfig q d)"
    and "message_from_json (p_from_json plat) (p_lax_int plat) body = Inr m"
    and "\<forall>s. p_type_ok plat (Some ''str'') (PStr s)"
  defines "job \<equiv> submitted_job q d body m"
  shows "job_environment job = [(''LAMBDA_TASKS_MESSAGE'', body)] \<and> job_queue job = q \<and> job_definition job = d
    \<and> job_name job = sanitize_job_name (msg_task_name m)
    \<and> length (job_name job) \<le> 128 \<and> (\<forall>c \<in> set (job_name job). job_name_char c)
    \<and> run_prog plat ex (wrapper_call (p_type_ok plat) wr
         [(''message_json'', PStr body), (''batch_queue'', PStr name)]) w =
       Some (case p_batch_submit plat (wd_trace w) job of Inl e \<Rightarrow> Inl e | Inr i \<Rightarrow> Inr (PStr i),
             add_event (BatchSubmit job) w)"
  using sanitize_job_name_ok [of "msg_task_name m"]
  by (simp add: submit_batch_job_call [OF assms(1-5)] job_def submitted_job_def eff_simps split: sum.split)

lemma submit_batch_job_submits_witness:
  "\<exists>job. job_environment job = [(''LAMBDA_TASKS_MESSAGE'', ''text of greet'')] \<and> job_name job = ''example_app_tasks_greet''
    \<and> run_prog sample_platform (execute_task 0 sample_platform) (wrapper_call sample_type_ok (projr (submit_batch_job sample_settings
         (message_from_json sample_from_json lax_int_instance)))
         [(''message_json'', PStr ''text of greet''), (''batch_queue'', PStr ''batch'')]) sample_world =
       Some (Inr (PStr ''job-1''), sample_world\<lparr>wd_trace := [BatchSubmit job]\<rparr>)"
proof -
  let ?parse = "message_from_json (p_from_json sample_platform) (p_lax_int sample_platform)"
  let ?qs = "projr (QUEUES (p_settings sample_platform))"
  have p: "p_settings sample_platform = sample_settings" "p_from_json sample_platform = sample_from_json"
    "p_lax_int sample_platform = lax_int_instance" "p_type_ok sample_platform = sample_type_ok"
    "p_batch_submit sample_platform tr j = Inr ''job-1''" for tr j
    by (simp_all add: sample_platform_def)
  have h: "submit_batch_job (p_settings sample_platform) ?parse = Inr (projr (submit_batch_job (p_settings sample_platform) ?parse))"
    by (simp add: submit_batch_job_wrapper)
  have q: "QUEUES (p_settings sample_platform) = Inr ?qs"
    "map_of ?qs ''batch'' = Some (BatchQueueConfig ''arn:queue'' ''arn:def'')"
    "message_from_json (p_from_json sample_platform) (p_lax_int sample_platform) ''text of greet'' = Inr (tk_message greet_task)"
    "wd_trace sample_world = []" "sanitize_job_name (msg_task_name (tk_message greet_task)) = ''example_app_tasks_greet''"
    by code_simp+
  have t: "\<forall>s. p_type_ok sample_platform (Some ''str'') (PStr s)"
    by (simp add: sample_platform_def)
  show ?thesis
    using submit_batch_job_submits [OF h q(1-3) t, of "execute_task 0 sample_platform" sample_world] unfolding p q(5)
    by (intro exI [of _ "submitted_job ''arn:queue'' ''arn:def'' ''text of greet'' (tk_message greet_task)"]) (simp add: add_event_def q(4))
qed

end
