(* ===== verification/Worker_Invariants.thy ===== *)
theory Worker_Invariants
  imports Dispatch
begin

text \<open>
  What every message leaves intact, in every mode and however it ends: a locale for the relations
  between worlds that the steps of the worker keep, the induction over the two mutually recursive
  functions done once in it, and its interpretation.
\<close>

section \<open>The interface\<close>

locale worker_relation = eff_relation R for R :: "'d world \<Rightarrow> 'd world \<Rightarrow> bool" +
  fixes plat :: "'d platform"
  assumes R_event: "R w (add_event ev w)"
    and R_log_id: "R w (w\<lparr>wd_log_id := x\<rparr>)"
    and R_uuids: "R w (w\<lparr>wd_uuids := u\<rparr>)"
    and R_draws: "R w (w\<lparr>wd_draws := d\<rparr>)"
    and R_pool: "wd_pool w = None \<Longrightarrow> R w (w\<lparr>wd_pool := Some k\<rparr>)"
    and R_records: "R w (set_records tbl w)"
    and R_hook: "wd_frames w \<noteq> [] \<Longrightarrow> R w (w\<lparr>wd_hooks := wd_hooks w @ [t]\<rparr>)"
    and R_guarded: "(\<And>t. eff_keeps R (execute t)) \<Longrightarrow>
      eff_keeps R (guarded_call execute plat wr kw lock soft hard)"
begin

lemma keeps_elementary:
  "eff_keeps R (emit ev)" "eff_keeps R (ext_call ev a)" "eff_keeps R (task_log l)"
  "eff_keeps R (set_log_id x)" "eff_keeps R (uuid4 plat)" "eff_keeps R (uniform plat)"
  by (auto simp: eff_keeps_def emit_def ext_call_def task_log_def set_log_id_def uuid4_def uniform_def
      eff_simps R_event R_log_id R_uuids R_draws)

lemma keeps_pool: "eff_keeps R (get_pool plat)" "eff_keeps R (submit_task plat s)"
proof -
  show g: "eff_keeps R (get_pool plat)"
    by (rule eff_keepsI)
       (auto simp: get_pool_def R_refl intro: R_trans [OF R_pool R_event]
         split: option.split_asm sum.split_asm if_split_asm)
  show "eff_keeps R (submit_task plat s)"
    unfolding submit_task_def by (intro keeps_seq keeps_bind keeps_elementary g)
qed

lemma keeps_save:
  "eff_keeps R (get_or_create_record plat m i)" "eff_keeps R (save_record plat pk c r)"
  "eff_keeps R (finish_with_traceback plat pk r s e)" "eff_keeps R (finish_with_result plat pk r v)"
proof -
  have "eff_keeps R (\<lambda>w. case record_lookup (wd_records w) i of
         Some r \<Rightarrow> Some (Inr (r, False), w)
       | None \<Rightarrow> (let r = f w in case p_create_error plat i r of
              Some e \<Rightarrow> Some (Inl e, w)
            | None \<Rightarrow> Some (Inr (r, True), set_records (record_insert i r (wd_records w)) w)))" for f
    by (auto simp: eff_keeps_def Let_def R_refl R_records split: option.split_asm)
  then show "eff_keeps R (get_or_create_record plat m i)"
    unfolding get_or_create_record_def by (intro keeps_bind keeps_pure)
  show s: "eff_keeps R (save_record plat pk c r)" for c r
    by (auto simp: eff_keeps_def save_record_def R_refl R_records split: option.split_asm)
  show "eff_keeps R (finish_with_traceback plat pk r s e)" "eff_keeps R (finish_with_result plat pk r v)"
    unfolding finish_with_traceback_def finish_with_result_def Let_def
    by (intro keeps_bind keeps_seq keeps_pure s)+
qed

lemma keeps_on_commit: "(\<And>t. eff_keeps R (execute t)) \<Longrightarrow> eff_keeps R (on_commit execute t)"
  by (auto simp: eff_keeps_def on_commit_def R_hook split: if_split_asm)

lemmas keeps_rules = keeps_bind keeps_seq keeps_pure keeps_elementary keeps_pool keeps_save

lemma keeps_handle_error:
  assumes "\<And>t. eff_keeps R (execute t)"
  shows "eff_keeps R (handle_error execute plat m i wr r e)"
  unfolding handle_error_def handle_retry_def
  by (auto intro!: keeps_rules keeps_on_commit assms)

lemma keeps_run_task:
  assumes "\<And>t. eff_keeps R (execute t)"
  shows "eff_keeps R (run_task execute plat m i wr soft hard r)"
  unfolding run_task_def singleton_lock_def Let_def
  by (auto intro!: keeps_rules keeps_attempt R_guarded keeps_handle_error assms split: sum.split option.split)

lemma keeps_execute_immediately_step:
  assumes "\<And>t. eff_keeps R (execute t)"
  shows "eff_keeps R (execute_immediately_step execute plat m i)"
  unfolding execute_immediately_step_def execute_body_def
  by (auto intro!: keeps_rules keeps_finally keeps_run_task assms split: prod.split)

lemma keeps_execute_task_step:
  assumes "\<And>m i. eff_keeps R (im m i)" and "\<And>t. eff_keeps R (execute t)"
  shows "eff_keeps R (execute_task_step im execute plat t)"
  unfolding execute_task_step_def Let_def
  by (intro keeps_bind keeps_pure)
     (auto intro!: keeps_rules keeps_on_commit assms split: option.split queue_config.split)

theorem keeps_execute:
  "(\<forall>m i. eff_keeps R (execute_immediately n plat m i)) \<and> (\<forall>t. eff_keeps R (execute_task n plat t))"
proof (induction n)
  case 0
  show ?case by (simp add: eff_keeps_def)
next
  case (Suc n)
  then show ?case
    by (auto intro: keeps_execute_immediately_step keeps_execute_task_step)
qed

end

section \<open>The interpretation\<close>

text \<open>Starting outside a transaction, a step ends outside one with no hook pending, the trace grows,
  the clock does not go back, a pool once created stays, and outside eager mode the alarm and its
  handler are as before.\<close>

definition undisturbed :: "'d platform \<Rightarrow> 'd world \<Rightarrow> 'd world \<Rightarrow> bool" where
  "undisturbed plat w w' \<longleftrightarrow> (idle w \<longrightarrow> idle w' \<and> prefix (wd_trace w) (wd_trace w') \<and> wd_now w \<le> wd_now w'
     \<and> (\<forall>k. wd_pool w = Some k \<longrightarrow> wd_pool w' = Some k)
     \<and> (\<not> EAGER (p_settings plat) \<longrightarrow> wd_signals w' = wd_signals w))"

lemma undisturbed_refl: "undisturbed plat w w"
  by (simp add: undisturbed_def)

lemma undisturbed_trans: "undisturbed plat w1 w2 \<Longrightarrow> undisturbed plat w2 w3 \<Longrightarrow> undisturbed plat w1 w3"
  unfolding undisturbed_def by (auto intro: prefix_order.trans)

lemma undisturbed_lock:
  "undisturbed plat w (lock_acquired lock w)" "undisturbed plat w (lock_released lock w)"
  by (auto simp: undisturbed_def lock_acquired_def lock_released_def idle_def split: option.split)

interpretation unit_of_work: eff_relation "undisturbed plat" for plat
  by unfold_locales (fact undisturbed_refl, erule undisturbed_trans)

lemma task_block_undisturbed:
  assumes it: "in_task (task_start plat lock soft hard w) w2"
  shows "undisturbed plat w (task_end plat w w2)" "undisturbed plat w ((task_end plat w w2)\<lparr>wd_db := db\<rparr>)"
proof -
  have p: "wd_pool w2 = wd_pool w" "prefix (wd_trace w) (wd_trace w2)" "wd_now w \<le> wd_now w2"
    using it by (auto simp: in_task_def task_start_def lock_acquired_def split: option.split_asm)
  moreover have "(wd_signals w2)\<lparr>alarm_left := alarm_left (wd_signals w), alrm_handler := alrm_handler (wd_signals w)\<rparr>
      = wd_signals w" by simp
  ultimately show "undisturbed plat w (task_end plat w w2)" "undisturbed plat w ((task_end plat w w2)\<lparr>wd_db := db\<rparr>)"
    by (simp_all add: undisturbed_def idle_def task_end_def)
qed

lemma guarded_call_undisturbed:
  assumes ex: "\<And>t. eff_keeps (undisturbed plat) (execute t)"
  shows "eff_keeps (undisturbed plat) (guarded_call execute plat wr kw lock soft hard)"
proof (rule eff_keepsI)
  fix w r w'
  assume g: "guarded_call execute plat wr kw lock soft hard w = Some (r, w')"
  show "undisturbed plat w w'"
  proof (cases "idle w")
    case True
    from True g show ?thesis
    proof (cases rule: guarded_call_cases)
      case (Refused e)
      then show ?thesis by (simp add: undisturbed_lock)
    next
      case (RolledBack r e w2 w3)
      then show ?thesis
        using task_block_undisturbed(2) undisturbed_lock(2) undisturbed_trans by metis
    next
      case (Committed v w2 rh w3)
      have "undisturbed plat (task_end plat w w2) w3"
        using unit_of_work.keeps_each [of plat execute, OF ex] Committed(4) by (rule eff_keepsD)
      then show ?thesis
        using Committed task_block_undisturbed(1) undisturbed_lock(2) undisturbed_trans by metis
    qed
  qed (simp add: undisturbed_def)
qed

interpretation worker: worker_relation "undisturbed plat" plat for plat
proof unfold_locales
  show "(\<And>t. eff_keeps (undisturbed plat) (execute t)) \<Longrightarrow>
      eff_keeps (undisturbed plat) (guarded_call execute plat wr kw lock soft hard)" for execute wr kw lock soft hard
    by (rule guarded_call_undisturbed)
qed (auto simp: undisturbed_def idle_def)

section \<open>Properties\<close>



end
