(* ===== verification/Executor_Props.thy ===== *)
theory Executor_Props
  imports Worker_Invariants
begin

text \<open>
  The properties of \<open>execute_immediately\<close>: what each way of ending leaves in the database, in the
  trace and in the process.
\<close>

section \<open>Messages that are not run\<close>

text \<open>A delivery whose message id already has a record runs nothing, whatever the record's status: the
  call returns normally, and all it changes is two log lines.\<close>

lemma duplicate_delivery_skipped:
  assumes "resolves plat m wr soft hard kw" and "record_lookup (wd_records w) i = Some r"
  shows "execute_immediately (Suc n) plat m i w =
    Some (Inr (), w\<lparr>wd_log_id := None,
      wd_trace := wd_trace w @ [log_event i (LReceived (msg_task_name m)),
                                log_event i (LSkipDuplicate (tr_status r))]\<rparr>)"
  using assms
  unfolding execute_immediately.simps(2) execute_immediately_step_at execute_body_resolves [OF assms(1)]
  by (simp add: received_def add_event_def)

text \<open>A message that cannot be run leaves no record: when the import fails, the name is not a task,
  the timeouts do not resolve or the arguments are not JSON values, the exception propagates and
  the database, the process and the queues are untouched.\<close>

lemma rejected_message_leaves_no_record:
  assumes "(case resolve_wrapper plat (msg_task_name m) of
        Inl e' \<Rightarrow> e = e'
      | Inr wr \<Rightarrow> (case resolved_timeouts (p_settings plat) wr of
           Inl e' \<Rightarrow> e = e'
         | Inr st \<Rightarrow> p_to_jsonable plat (msg_kwargs m) = Inl e))"
  shows "execute_immediately (Suc n) plat m i w =
    Some (Inl e, w\<lparr>wd_log_id := None,
      wd_trace := wd_trace w @ [log_event i (LReceived (msg_task_name m))]\<rparr>)"
  unfolding execute_immediately.simps(2) execute_immediately_step_at execute_body_rejected [OF assms]
  by (simp add: received_def add_event_def)

lemma rejected_message_leaves_no_record_witness:
  "execute_immediately (Suc 0) sample_platform (sample_msg ''app.tasks.helper'' [] 0) ''id'' sample_world =
    Some (Inl (type_error ''expected LambdaTaskWrapper.'' [PStr ''app.tasks.helper'', PStr ''function'']),
      sample_world\<lparr>wd_log_id := None,
        wd_trace := wd_trace sample_world @ [log_event ''id'' (LReceived ''app.tasks.helper'')]\<rparr>)"
proof -
  have "resolve_wrapper sample_platform ''app.tasks.helper'' =
      Inl (type_error ''expected LambdaTaskWrapper.'' [PStr ''app.tasks.helper'', PStr ''function''])"
    by (simp add: resolve_wrapper_def sample_platform_def sample_import_def)
  then show ?thesis
    using rejected_message_leaves_no_record [where plat = sample_platform and m = "sample_msg ''app.tasks.helper'' [] 0"
        and i = "''id''" and w = sample_world and n = 0]
    by (simp add: sample_msg_def)
qed

section \<open>Failure\<close>

text \<open>C10. All or nothing: when the code of a task raises, or the database refuses to commit what it did (or
  its lock is refused, or lost on release, with an error that is not ignored), and the exception is not
  to be retried, nothing the task did survives.  The
  application's rows are as before the delivery, the record is FAILED with the traceback and the end
  time, no message has been sent although the task may have enqueued some, no block and no hook is
  left open, and the exception does not propagate.\<close>

theorem failed_task_leaves_nothing:
  assumes "attempts plat m i w wr soft hard kw" and "idle w"
    and "failed_call n plat m i w wr soft hard kw = Some (e, w1)"
    and "is_Exception e" and "\<not> (w_singleton wr \<and> \<not> w_retry_singleton wr \<and> isinstance e LockError_cls)"
    and "\<not> isinstance_any e (effective_retry_on wr)"
    and "\<forall>r. p_save_error plat r = None"
  shows "\<exists>w'. execute_immediately (Suc n) plat m i w = Some (Inr (), w') \<and>
    concluded plat m i kw w FAILED e w' \<and> wd_now w' = wd_now w1 \<and> wd_log_id w' = None"
proof -
  obtain w3 where w3: "finish_with_traceback plat i (fresh_record m kw (wd_now w)) FAILED e
      (add_event (log_event i (LTaskError e)) w1) =
      Some (Inr (with_traceback plat FAILED e (wd_now w1) (fresh_record m kw (wd_now w))), w3)"
    and c: "concluded plat m i kw w FAILED e w3" and l: "wd_log_id w3 = Some i" and t: "wd_now w3 = wd_now w1"
    by (rule finish_concluded [OF assms(1-3) spec [OF assms(7)],
          where s = FAILED and ?w2.0 = "add_event (log_event i (LTaskError e)) w1"]) blast+
  let ?l = "LFailed (duration (with_traceback plat FAILED e (wd_now w1) (fresh_record m kw (wd_now w))))"
  show ?thesis
    unfolding execute_immediately_failed [OF assms(1-3)] handle_error_def
    using assms(4-6) failed_call_facts(3) [OF assms(2,3)] w3 l t concluded_log [OF c, of i ?l]
    by (intro exI [of _ "(add_event (log_event i ?l) w3)\<lparr>wd_log_id := None\<rparr>"]) (auto simp: eff_simps task_log_at)
qed

theorem failed_task_leaves_nothing_witness:
  "\<exists>w'. execute_immediately (Suc 3) sample_platform (sample_msg ''app.tasks.crash'' [] 0) ''id'' sample_world = Some (Inr (), w') \<and>
    concluded sample_platform (sample_msg ''app.tasks.crash'' [] 0) ''id'' [] sample_world FAILED (value_error ''bad'' []) w' \<and>
    wd_now w' = 1000 \<and> wd_log_id w' = None"
proof -
  let ?m = "sample_msg ''app.tasks.crash'' [] 0" and ?wr = "sample_wrapper ''app.tasks.crash''"
  let ?f = "failed_call 3 sample_platform ?m ''id'' sample_world ?wr 270 300 []"
  have a: "attempts sample_platform ?m ''id'' sample_world ?wr 270 300 []"
    by (rule sample_ready_attempts) code_simp
  have f: "?f = Some (value_error ''bad'' [], snd (the ?f))" by code_simp
  have t: "wd_now (snd (the ?f)) = 1000"
    by code_simp
  have e: "idle sample_world" "is_Exception (value_error ''bad'' [])"
    "\<not> (w_singleton ?wr \<and> \<not> w_retry_singleton ?wr \<and> isinstance (value_error ''bad'' []) LockError_cls)"
    "\<not> isinstance_any (value_error ''bad'' []) (effective_retry_on ?wr)"
    by code_simp+
  show ?thesis
    using failed_task_leaves_nothing [OF a e(1) f e(2-4)] unfolding t by (simp add: sample_platform_def)
qed

section \<open>Retries\<close>

text \<open>What the three clauses of the handler share: the exception is caught and matched by
  \<open>effective_retry_on\<close>, not by the ignored lock error.\<close>

definition retryable :: "'d wrapper \<Rightarrow> exn \<Rightarrow> bool" where
  "retryable wr e \<longleftrightarrow> is_Exception e \<and> isinstance_any e (effective_retry_on wr) \<and>
     \<not> (w_singleton wr \<and> \<not> w_retry_singleton wr \<and> isinstance e LockError_cls)"

lemma handle_error_retryable:
  assumes "retryable wr e"
  shows "handle_error ex plat m i wr r e = handle_retry ex plat m i wr r e"
proof -
  have "effective_retry_on wr \<noteq> []"
    using assms by (auto simp: retryable_def isinstance_any_def)
  then show ?thesis using assms by (auto simp: handle_error_def retryable_def)
qed

lemma retry_sent:
  assumes "queue_mode (p_settings plat)" and "QUEUES (p_settings plat) = Inr queues"
    and "map_of queues (w_queue wr) = Some (SQSQueueConfig url)"
    and "message_to_json (p_to_json plat) (m\<lparr>msg_n_retries := msg_n_retries m + 1\<rparr>) = Inr body"
  shows "execute_task (Suc n) plat (retry_task wr m u) w =
    Some (case p_sqs_send plat (wd_trace w) url body (retry_delay_of wr u) of Some x \<Rightarrow> Inl x | None \<Rightarrow> Inr (),
      add_event (SQSSend url body (retry_delay_of wr u)) w)"
proof -
  have t: "tk_queue (retry_task wr m u) = w_queue wr" "tk_delay (retry_task wr m u) = retry_delay_of wr u"
    "tk_message (retry_task wr m u) = m\<lparr>msg_n_retries := msg_n_retries m + 1\<rparr>"
    by (simp_all add: retry_task_def)
  show ?thesis
    using execute_task_queue [of plat queues "retry_task wr m u" url body n w] assms unfolding t by simp
qed

lemma execute_immediately_retry:
  assumes "attempts plat m i w wr soft hard kw" and "idle w"
    and "failed_call n plat m i w wr soft hard kw = Some (e, w1)"
    and "retryable wr e"
    and "MAX_RETRIES (p_settings plat) = Inr max_retries" and "msg_n_retries m < max_retries"
    and "\<forall>r. p_save_error plat r = None"
  obtains w3 where "concluded plat m i kw w RETRIED e w3" and "wd_draws w3 = wd_draws w"
    and "execute_immediately (Suc n) plat m i w = map_option (\<lambda>(r, w'). (r, w'\<lparr>wd_log_id := None\<rparr>))
      (execute_task n plat (retry_task wr m (p_uniform plat (wd_draws w))) (w3\<lparr>wd_draws := Suc (wd_draws w)\<rparr>))"
proof -
  let ?r = "fresh_record m kw (wd_now w)"
  obtain w2 where w2: "finish_with_traceback plat i ?r RETRIED e w1 =
      Some (Inr (with_traceback plat RETRIED e (wd_now w1) ?r), w2)"
    and c: "concluded plat m i kw w RETRIED e w2" and l: "wd_log_id w2 = Some i"
    and d: "wd_draws w2 = wd_draws w"
    by (rule finish_concluded [OF assms(1-3) spec [OF assms(7)], where s = RETRIED and ?w2.0 = w1]) blast+
  let ?l = "LRetrying (cls_name (exn_cls e)) (duration (with_traceback plat RETRIED e (wd_now w1) ?r))"
  have fr: "wd_frames w2 = []" using c by (simp add: concluded_def idle_def)
  have "handle_error (execute_task n plat) plat m i wr ?r e w1 =
      execute_task n plat (retry_task wr m (p_uniform plat (wd_draws w)))
        ((add_event (log_event i ?l) w2)\<lparr>wd_draws := Suc (wd_draws w)\<rparr>)"
    using assms(5,6) w2 l d fr
    by (simp add: handle_error_retryable [OF assms(4)] handle_retry_def eff_simps task_log_at uniform_def
        on_commit_def del: execute_task.simps)
  then show thesis
    using that [OF concluded_log [OF c, of i ?l]] d unfolding execute_immediately_failed [OF assms(1-3)] by simp
qed

text \<open>C12. A retry: when the code of a task, or its commit, raises one of its \<open>retry_on\<close> exceptions and
  retries are left, the database is rolled back, the record is RETRIED with the traceback, and exactly one
  message is sent: the same task and arguments with \<open>n_retries\<close> one higher, on the task's own
  queue, delayed by the retry delay plus the jitter.\<close>

theorem retry_sends_next_attempt:
  assumes "attempts plat m i w wr soft hard kw" and "idle w"
    and "failed_call (Suc n) plat m i w wr soft hard kw = Some (e, w1)"
    and "retryable wr e"
    and "MAX_RETRIES (p_settings plat) = Inr max_retries" and "msg_n_retries m < max_retries"
    and "\<forall>r. p_save_error plat r = None"
    and "queue_mode (p_settings plat)" and "QUEUES (p_settings plat) = Inr queues"
    and "map_of queues (w_queue wr) = Some (SQSQueueConfig url)"
    and "message_to_json (p_to_json plat) (m\<lparr>msg_n_retries := msg_n_retries m + 1\<rparr>) = Inr body"
    and "\<forall>tr u b d. p_sqs_send plat tr u b d = None"
  shows "\<exists>w'. concluded plat m i kw w RETRIED e w' \<and>
    execute_immediately (Suc (Suc n)) plat m i w = Some (Inr (), w'\<lparr>wd_log_id := None, wd_draws := Suc (wd_draws w),
      wd_trace := wd_trace w' @ [SQSSend url body (retry_delay_of wr (p_uniform plat (wd_draws w)))]\<rparr>)"
proof -
  obtain w3 where c: "concluded plat m i kw w RETRIED e w3"
    and x: "execute_immediately (Suc (Suc n)) plat m i w = map_option (\<lambda>(r, w'). (r, w'\<lparr>wd_log_id := None\<rparr>))
      (execute_task (Suc n) plat (retry_task wr m (p_uniform plat (wd_draws w))) (w3\<lparr>wd_draws := Suc (wd_draws w)\<rparr>))"
    by (rule execute_immediately_retry [OF assms(1-7)])
  show ?thesis
    unfolding x using c retry_sent [OF assms(8-11)] assms(12)
    by (intro exI [of _ w3]) (simp add: add_event_def del: execute_task.simps)
qed

theorem retry_sends_next_attempt_witness:
  "\<exists>w'. concluded sample_platform (sample_msg ''app.tasks.flaky'' [] 0) ''id'' [] sample_world RETRIED timeout_connection w' \<and>
    execute_immediately (Suc (Suc 0)) sample_platform (sample_msg ''app.tasks.flaky'' [] 0) ''id'' sample_world
      = Some (Inr (), w'\<lparr>wd_log_id := None, wd_draws := 1,
      wd_trace := wd_trace w' @ [SQSSend ''https://sqs.localhost/default'' ''text of flaky, first retry'' 33]\<rparr>)"
proof -
  let ?m = "sample_msg ''app.tasks.flaky'' [] 0" and ?wr = "sample_wrapper ''app.tasks.flaky''"
  let ?f = "failed_call (Suc 0) sample_platform ?m ''id'' sample_world ?wr 270 300 []"
  let ?qs = "projr (QUEUES (p_settings sample_platform))"
  have a: "attempts sample_platform ?m ''id'' sample_world ?wr 270 300 []"
    by (rule sample_ready_attempts) code_simp
  have f: "idle sample_world" "?f = Some (timeout_connection, snd (the ?f))" "retryable ?wr timeout_connection"
    "MAX_RETRIES (p_settings sample_platform) = Inr 2" "msg_n_retries ?m < 2"
    by code_simp+
  have s: "\<forall>r. p_save_error sample_platform r = None" "\<forall>tr u b d. p_sqs_send sample_platform tr u b d = None"
    by (simp_all add: sample_platform_def)
  have q: "queue_mode (p_settings sample_platform)" "QUEUES (p_settings sample_platform) = Inr ?qs"
    "map_of ?qs (w_queue ?wr) = Some (SQSQueueConfig ''https://sqs.localhost/default'')"
    "message_to_json (p_to_json sample_platform) (?m\<lparr>msg_n_retries := msg_n_retries ?m + 1\<rparr>) = Inr ''text of flaky, first retry''"
    "retry_delay_of ?wr (p_uniform sample_platform (wd_draws sample_world)) = 33" "wd_draws sample_world = 0"
    by code_simp+
  show ?thesis
    using retry_sends_next_attempt [OF a f s(1) q(1-4) s(2)] unfolding q(5) unfolding q(6)
    by (simp del: execute_immediately.simps)
qed

text \<open>The delay of a retry is one SQS accepts: \<open>random.uniform(1, 5)\<close> lies between 1 and 5, so the
  jittered delay is at least one second, at least the task's retry delay unless that is at the
  limit, and never above 900.\<close>

lemma retry_delay_accepted_by_sqs:
  assumes "wrapper_ok wr" and "1 \<le> u" and "u \<le> 5"
  shows "1 \<le> retry_delay_of wr u \<and> retry_delay_of wr u \<le> 900 \<and> w_retry_delay wr \<le> retry_delay_of wr u
    \<and> retry_delay_of wr u \<le> w_retry_delay wr + 5"
proof -
  have "0 \<le> w_retry_delay wr" "w_retry_delay wr \<le> MAX_DELAY"
    using assms(1) by (auto simp: wrapper_ok_def retry_ok_def)
  moreover have "1 \<le> py_round u" "py_round u \<le> 5"
    using py_round_bounds [of 1 u 5] assms(2,3) by simp_all
  ultimately show ?thesis by (simp add: retry_delay_of_def MAX_DELAY_def)
qed

lemma retry_delay_accepted_by_sqs_witness:
  "1 \<le> retry_delay_of (sample_wrapper ''app.tasks.flaky'') 3 \<and> retry_delay_of (sample_wrapper ''app.tasks.flaky'') 3 \<le> 900"
proof -
  have "LambdaTaskWrapper flaky_fn flaky_options = Inr (sample_wrapper ''app.tasks.flaky'') \<longleftrightarrow>
      \<not> isl (LambdaTaskWrapper flaky_fn flaky_options)"
    by (auto simp: sample_wrapper_def resolve_wrapper_def sample_platform_def sample_import_def
        res_bind_def split: sum.split)
  moreover have "\<not> isl (LambdaTaskWrapper flaky_fn flaky_options)" by code_simp
  ultimately have "wrapper_ok (sample_wrapper ''app.tasks.flaky'')"
    using LambdaTaskWrapper_ok by blast
  then show ?thesis using retry_delay_accepted_by_sqs [of "sample_wrapper ''app.tasks.flaky''" 3] by simp
qed

lemma max_retries_chain_end:
  assumes "attempts plat m i w wr soft hard kw" and "idle w"
    and "failed_call n plat m i w wr soft hard kw = Some (e, w1)"
    and "retryable wr e"
    and "MAX_RETRIES (p_settings plat) = Inr max_retries" and "max_retries \<le> msg_n_retries m"
    and "\<forall>r. p_save_error plat r = None"
  shows "\<exists>w'. execute_immediately (Suc n) plat m i w =
      Some (Inl (MaxRetriesExceededError (msg_task_name m) (msg_n_retries m)), w') \<and>
    concluded plat m i kw w FAILED e w' \<and> wd_log_id w' = None"
proof -
  let ?r = "fresh_record m kw (wd_now w)"
  obtain w2 where w2: "finish_with_traceback plat i ?r FAILED e w1 =
      Some (Inr (with_traceback plat FAILED e (wd_now w1) ?r), w2)"
    and c: "concluded plat m i kw w FAILED e w2" and l: "wd_log_id w2 = Some i"
    by (rule finish_concluded [OF assms(1-3) spec [OF assms(7)], where s = FAILED and ?w2.0 = w1]) blast+
  let ?l = "LMaxRetries (duration (with_traceback plat FAILED e (wd_now w1) ?r))"
  show ?thesis
    unfolding execute_immediately_failed [OF assms(1-3)] handle_error_retryable [OF assms(4)] handle_retry_def
    using assms(5,6) w2 l concluded_log [OF c, of i ?l]
    by (intro exI [of _ "(add_event (log_event i ?l) w2)\<lparr>wd_log_id := None\<rparr>"]) (simp add: eff_simps task_log_at)
qed

text \<open>C30. No retry beyond the limit: with no retries left the database is rolled back, the record is
  FAILED with the task's own traceback, nothing is sent and the caller gets
  \<open>MaxRetriesExceededError\<close>.\<close>

theorem max_retries_fails_loudly:
  assumes "attempts plat m i w wr soft hard kw" and "idle w"
    and "failed_call n plat m i w wr soft hard kw = Some (e, w1)"
    and "retryable wr e"
    and "MAX_RETRIES (p_settings plat) = Inr max_retries" and "max_retries \<le> msg_n_retries m"
    and "\<forall>r. p_save_error plat r = None"
  shows "\<exists>w'. execute_immediately (Suc n) plat m i w =
      Some (Inl (MaxRetriesExceededError (msg_task_name m) (msg_n_retries m)), w') \<and>
    concluded plat m i kw w FAILED e w' \<and> wd_log_id w' = None"
  using max_retries_chain_end [OF assms] .

theorem max_retries_fails_loudly_witness:
  "\<exists>w'. execute_immediately (Suc 0) sample_platform (sample_msg ''app.tasks.flaky'' [] 2) ''id'' sample_world =
      Some (Inl (MaxRetriesExceededError ''app.tasks.flaky'' 2), w') \<and>
    concluded sample_platform (sample_msg ''app.tasks.flaky'' [] 2) ''id'' [] sample_world FAILED timeout_connection w'"
proof -
  let ?m = "sample_msg ''app.tasks.flaky'' [] 2" and ?wr = "sample_wrapper ''app.tasks.flaky''"
  let ?f = "failed_call 0 sample_platform ?m ''id'' sample_world ?wr 270 300 []"
  have a: "attempts sample_platform ?m ''id'' sample_world ?wr 270 300 []"
    by (rule sample_ready_attempts) code_simp
  have f: "idle sample_world" "?f = Some (timeout_connection, snd (the ?f))" "retryable ?wr timeout_connection"
    "MAX_RETRIES (p_settings sample_platform) = Inr 2" "2 \<le> msg_n_retries ?m"
    by code_simp+
  have s: "\<forall>r. p_save_error sample_platform r = None" by (simp add: sample_platform_def)
  show ?thesis
    using max_retries_fails_loudly [OF a f s] by (auto simp: sample_msg_def)
qed

section \<open>Success\<close>

text \<open>The message a pending hook becomes on an SQS queue.\<close>

definition sent_as :: "'d platform \<Rightarrow> (string \<times> queue_config) list \<Rightarrow> sqs_task \<Rightarrow> event option" where
  "sent_as plat queues t =
     (case (map_of queues (tk_queue t), message_to_json (p_to_json plat) (tk_message t)) of
        (Some (SQSQueueConfig url), Inr body) \<Rightarrow> Some (SQSSend url body (tk_delay t))
      | _ \<Rightarrow> None)"

lemma execute_task_sent_as:
  assumes "queue_mode (p_settings plat)" and "QUEUES (p_settings plat) = Inr queues"
    and "\<forall>tr u b d. p_sqs_send plat tr u b d = None" and "sent_as plat queues t = Some ev"
  shows "execute_task (Suc n) plat t w = Some (Inr (), add_event ev w)"
proof -
  from assms(4) obtain url body where "map_of queues (tk_queue t) = Some (SQSQueueConfig url)"
    "message_to_json (p_to_json plat) (tk_message t) = Inr body" "ev = SQSSend url body (tk_delay t)"
    by (auto simp: sent_as_def split: option.split_asm queue_config.split_asm sum.split_asm)
  then show ?thesis using execute_task_queue [OF assms(1,2)] assms(3) by simp
qed

lemma hooks_sent:
  assumes "queue_mode (p_settings plat)" and "QUEUES (p_settings plat) = Inr queues"
    and "\<forall>tr u b d. p_sqs_send plat tr u b d = None"
  shows "map (sent_as plat queues) ts = map Some evs \<Longrightarrow>
    eff_each (execute_task (Suc n) plat) ts w = Some (Inr (), w\<lparr>wd_trace := wd_trace w @ evs\<rparr>)"
proof (induction ts arbitrary: evs w)
  case Nil
  then show ?case by (simp add: eff_simps)
next
  case (Cons t ts)
  from Cons.prems obtain ev es where e: "evs = ev # es" "sent_as plat queues t = Some ev"
    "map (sent_as plat queues) ts = map Some es" by (cases evs) auto
  then show ?case
    using Cons.IH [of es] execute_task_sent_as [OF assms e(2)]
    by (simp add: eff_simps add_event_def del: execute_task.simps)
qed

lemma sent_as_send: "map (sent_as plat queues) ts = map Some evs \<Longrightarrow> filter is_send evs = evs"
proof (induction ts arbitrary: evs)
  case (Cons t ts)
  then show ?case
    by (cases evs) (auto simp: sent_as_def is_send_def split: option.split_asm queue_config.split_asm sum.split_asm)
qed simp

definition sends :: "'d world \<Rightarrow> event list" where
  "sends w = filter is_send (wd_trace w)"

lemma quiet_sends: "quiet w w' \<Longrightarrow> sends w' = sends w"
  by (auto simp: quiet_def sends_def filter_empty_conv)

lemma sends_simps [simp]:
  "sends (w\<lparr>wd_trace := wd_trace w2 @ evs\<rparr>) = sends w2 @ filter is_send evs"
  "sends (lock_released lock w) = sends w" "sends (add_event (log_event i l) w) = sends w"
  "sends (set_records tbl w) = sends w" "sends (w\<lparr>wd_log_id := x\<rparr>) = sends w"
  "sends (task_end plat w' w) = sends w"
  by (simp_all add: sends_def lock_released_def is_send_def log_event_def split: option.split)

lemma run_code_quiet:
  "run_code n plat m i w wr soft hard kw = Some (r, w2) \<Longrightarrow> quiet w w2"
proof -
  assume a: "run_code n plat m i w wr soft hard kw = Some (r, w2)"
  have "quiet w (task_start plat (lock_of plat wr m hard) soft hard (begun i m kw w))"
    unfolding quiet_cong [OF task_start_simps(7)] by (intro quiet_lock quiet_begun)
  then show ?thesis using in_task_quiet [OF run_code_in_task [OF a]] quiet_trans by blast
qed

text \<open>A task that returns, whose hooks run through and leave \<open>evs\<close> in the trace.\<close>

lemma committed_at:
  assumes a: "attempts plat m i w wr soft hard kw" and "idle w"
    and "lock_refused plat (lock_of plat wr m hard) (begun i m kw w) = None"
    and c: "run_code n plat m i w wr soft hard kw = Some (Inr v, w2)"
    and "p_commit_error plat (wd_trace w2) (wd_db w2) = None"
    and row: "record_lookup (wd_records w2) i = Some row"
    and hooks: "eff_each (execute_task n plat) (wd_hooks w2) (task_end plat (begun i m kw w) w2) =
      Some (Inr (), (task_end plat (begun i m kw w) w2)\<lparr>wd_trace := wd_trace w2 @ evs\<rparr>)"
    and "\<forall>tr k. p_lock_exit plat tr k = None" and s: "\<forall>r. p_save_error plat r = None"
  shows "\<exists>w'. execute_immediately (Suc n) plat m i w = Some (Inr (), w') \<and>
    wd_db w' = (wd_db w2)\<lparr>db_records := record_update i (with_result v (wd_now w2)) (wd_records w2)\<rparr> \<and>
    sends w' = sends w @ filter is_send evs"
proof -
  let ?lock = "lock_of plat wr m hard" and ?w0 = "begun i m kw w" and ?r = "fresh_record m kw (wd_now w)"
  let ?w4 = "lock_released ?lock ((task_end plat ?w0 w2)\<lparr>wd_trace := wd_trace w2 @ evs\<rparr>)"
  have g: "guarded_call (execute_task n plat) plat wr (msg_kwargs m) ?lock soft hard ?w0 = Some (Inr v, ?w4)"
    using guarded_call_at [OF iffD2 [OF idle_begun assms(2)] assms(3)] c hooks assms(5,8)
    by (simp add: run_code_def block_error_def lock_outcome_def lock_lost_def split: option.split del: execute_task.simps)
  have w4: "wd_db ?w4 = wd_db w2" "wd_now ?w4 = wd_now w2" "wd_log_id ?w4 = Some i"
    using run_code_in_task [OF c] by (simp_all add: in_task_def)
  let ?w5 = "set_records (record_update i (with_result v (wd_now w2)) (wd_records w2)) ?w4"
  have f: "finish_with_result plat i ?r v ?w4 = Some (Inr (with_result v (wd_now w2) ?r), ?w5)"
    using finish_with_result_at [of plat v ?w4 ?r i row] row s w4 by simp
  let ?w' = "(add_event (log_event i (LSucceeded (duration (with_result v (wd_now w2) ?r)))) ?w5)\<lparr>wd_log_id := None\<rparr>"
  have "execute_immediately (Suc n) plat m i w = Some (Inr (), ?w')"
    unfolding execute_immediately_attempts [OF a] g using f w4(3) by (simp add: eff_simps task_log_at)
  moreover have "wd_db ?w' = (wd_db w2)\<lparr>db_records := record_update i (with_result v (wd_now w2)) (wd_records w2)\<rparr>"
    using w4(1) by (simp add: set_records_def)
  moreover have "sends ?w' = sends w @ filter is_send evs"
    using quiet_sends [OF run_code_quiet [OF c]] by simp
  ultimately show ?thesis by blast
qed

text \<open>C11. A committed task: when the code of a task returns \<open>v\<close> and the database commits, its changes to the database stand, its
  record is SUCCEEDED with \<open>v\<close> as the result and the end time, no other record differs from what the
  task left, and the tasks it enqueued are sent after the commit, each once and in the order in
  which they were enqueued.\<close>

theorem committed_task_succeeds:
  assumes "attempts plat m i w wr soft hard kw" and "idle w"
    and "lock_refused plat (lock_of plat wr m hard) (begun i m kw w) = None"
    and "run_code (Suc n) plat m i w wr soft hard kw = Some (Inr v, w2)"
    and "p_commit_error plat (wd_trace w2) (wd_db w2) = None"
    and "record_lookup (wd_records w2) i = Some row"
    and "queue_mode (p_settings plat)" and "QUEUES (p_settings plat) = Inr queues"
    and "\<forall>tr u b d. p_sqs_send plat tr u b d = None"
    and "map (sent_as plat queues) (wd_hooks w2) = map Some evs"
    and "\<forall>tr k. p_lock_exit plat tr k = None" and "\<forall>r. p_save_error plat r = None"
  shows "\<exists>w'. execute_immediately (Suc (Suc n)) plat m i w = Some (Inr (), w') \<and>
    wd_db w' = (wd_db w2)\<lparr>db_records := record_update i (with_result v (wd_now w2)) (wd_records w2)\<rparr> \<and>
    (\<forall>k. record_lookup (wd_records w') k =
       (if k = i then Some (with_result v (wd_now w2) row) else record_lookup (wd_records w2) k)) \<and>
    sends w' = sends w @ evs"
proof -
  have h: "eff_each (execute_task (Suc n) plat) (wd_hooks w2) (task_end plat (begun i m kw w) w2) =
      Some (Inr (), (task_end plat (begun i m kw w) w2)\<lparr>wd_trace := wd_trace w2 @ evs\<rparr>)"
    using hooks_sent [OF assms(7-10)] by simp
  show ?thesis
    using committed_at [OF assms(1-6) h assms(11,12)] sent_as_send [OF assms(10)] assms(6)
    by (auto simp: record_lookup_update)
qed

theorem committed_task_succeeds_witness:
  "\<exists>w'. execute_immediately (Suc (Suc 0)) sample_platform (sample_msg ''app.tasks.order'' [] 0) ''id'' sample_world = Some (Inr (), w') \<and>
    record_lookup (wd_records w') ''id'' =
      Some (with_result (PInt 7) 1000 (fresh_record (sample_msg ''app.tasks.order'' [] 0) [] 1000)) \<and>
    sends w' = [SQSSend ''https://sqs.localhost/default'' ''text of greet'' 0]"
proof -
  let ?m = "sample_msg ''app.tasks.order'' [] 0" and ?wr = "sample_wrapper ''app.tasks.order''"
  let ?c = "run_code (Suc 0) sample_platform ?m ''id'' sample_world ?wr 270 300 []"
  let ?qs = "projr (QUEUES (p_settings sample_platform))"
  have a: "attempts sample_platform ?m ''id'' sample_world ?wr 270 300 []"
    by (rule sample_ready_attempts) code_simp
  have c: "idle sample_world"
    "lock_refused sample_platform (lock_of sample_platform ?wr ?m 300) (begun ''id'' ?m [] sample_world) = None"
    "?c = Some (Inr (PInt 7), snd (the ?c))"
    "p_commit_error sample_platform (wd_trace (snd (the ?c))) (wd_db (snd (the ?c))) = None"
    "record_lookup (wd_records (snd (the ?c))) ''id'' = Some (fresh_record ?m [] 1000)"
    "queue_mode (p_settings sample_platform)" "QUEUES (p_settings sample_platform) = Inr ?qs"
    by code_simp+
  have s: "\<forall>tr u b d. p_sqs_send sample_platform tr u b d = None" "\<forall>tr k. p_lock_exit sample_platform tr k = None"
    "\<forall>r. p_save_error sample_platform r = None"
    by (simp_all add: sample_platform_def)
  have h: "map (sent_as sample_platform ?qs) (wd_hooks (snd (the ?c))) =
      map Some [SQSSend ''https://sqs.localhost/default'' ''text of greet'' 0]"
    "wd_now (snd (the ?c)) = 1000" "sends sample_world = []"
    by code_simp+
  show ?thesis
    using committed_task_succeeds [OF a c s(1) h(1) s(2,3)] unfolding h(2,3) by auto
qed

end
