(* ===== verification/Delivery_Props.thy ===== *)
theory Delivery_Props
  imports Executor_Props
begin

text \<open>
  Properties of messages as SQS delivers them, more than once, and of the lock of singleton tasks.
\<close>

section \<open>Every normal return leaves a finished record\<close>

definition finished :: "string \<Rightarrow> 'd world \<Rightarrow> bool" where
  "finished i w \<longleftrightarrow> (case record_lookup (wd_records w) i of
       None \<Rightarrow> False | Some r \<Rightarrow> terminal (tr_status r) \<and> tr_end_time r \<noteq> None)"

lemma finished_db: "wd_db w' = wd_db w \<Longrightarrow> finished i w' = finished i w"
  by (simp add: finished_def)

lemma finish_with_traceback_finished:
  assumes "finish_with_traceback plat i r s e w = Some (Inr r', w')" and "terminal s"
  shows "finished i w' \<and> wd_frames w' = wd_frames w"
  using assms
  by (auto elim!: finish_with_traceback_cases simp: finished_def record_lookup_update with_traceback_def)

lemma finish_with_result_finished:
  assumes "finish_with_result plat i r v w = Some (Inr r', w')"
  shows "finished i w' \<and> wd_frames w' = wd_frames w"
  using assms
  by (auto elim!: finish_with_result_cases simp: finished_def record_lookup_update with_result_def terminal_def)

lemma task_log_Some: "task_log l w = Some (r, w') \<longleftrightarrow> r = Inr () \<and> w' = add_event (TaskLog (TaskLogger_prefix (wd_log_id w)) l) w"
  by (auto simp: task_log_def eff_simps)

lemma finished_log [simp]: "finished i (add_event ev w) = finished i w" "finished i (w\<lparr>wd_log_id := x\<rparr>) = finished i w"
  "finished i (w\<lparr>wd_draws := d\<rparr>) = finished i w"
  by (simp_all add: finished_def)

lemma on_commit_finished:
  assumes "\<not> EAGER (p_settings plat)" and "wd_frames w = []" and "finished i w"
    and "on_commit (execute_task n plat) t w = Some (r, w')"
  shows "finished i w'"
proof -
  have "execute_task n plat t w = Some (r, w')" using assms(2,4) by (simp add: on_commit_def)
  from finished_db [OF sends_only_simps(1) [OF execute_task_sends [OF assms(1,2) this]]] assms(3)
  show ?thesis by simp
qed

lemma handle_error_finished:
  assumes ne: "\<not> EAGER (p_settings plat)" and fr: "wd_frames w = []"
    and h: "handle_error (execute_task n plat) plat m i wr r e w = Some (Inr (), w')"
  shows "finished i w'"
proof -
  have t: "terminal SUCCEEDED" "terminal FAILED" "terminal RETRIED" by (simp_all add: terminal_def)
  note ff = finish_with_traceback_finished
  show ?thesis
  proof (cases "retryable wr e")
    case True
    then show ?thesis
      using h unfolding handle_error_retryable [OF True] handle_retry_def
      by (auto simp: eff_simps task_log_Some uniform_def fr
          split: option.split_asm sum.split_asm if_split_asm dest!: ff [OF _ t(3)]
          elim!: on_commit_finished [OF ne, rotated 2])
  next
    case False
    then show ?thesis
      using h
      by (auto simp: handle_error_def retryable_def eff_simps task_log_Some
          split: option.split_asm sum.split_asm if_split_asm
          dest!: ff [OF _ t(1)] ff [OF _ t(2)] dest: sym [of "[]"] simp: isinstance_any_def)
  qed
qed

lemma execute_immediately_cases:
  assumes "execute_immediately n plat m i w = Some (Inr (), w')"
  obtains (Duplicate) wr soft hard kw r where "resolves plat m wr soft hard kw"
      "record_lookup (wd_records w) i = Some r" "wd_db w' = wd_db w"
  | (Attempted) wr soft hard kw k where "n = Suc k" "attempts plat m i w wr soft hard kw"
proof -
  obtain k where n: "n = Suc k" using assms by (cases n) auto
  then obtain w1 where b: "execute_body (execute_task k plat) plat m i (w\<lparr>wd_log_id := Some i\<rparr>) = Some (Inr (), w1)"
    and w1: "w' = w1\<lparr>wd_log_id := None\<rparr>"
    using assms by (auto simp: execute_immediately_step_at)
  have "\<exists>wr soft hard kw. resolves plat m wr soft hard kw"
  proof (rule ccontr)
    assume a: "\<not> ?thesis"
    define e where "e = (case resolve_wrapper plat (msg_task_name m) of Inl e' \<Rightarrow> e'
      | Inr wr \<Rightarrow> (case resolved_timeouts (p_settings plat) wr of Inl e' \<Rightarrow> e'
         | Inr st \<Rightarrow> projl (p_to_jsonable plat (msg_kwargs m))))"
    have "execute_body (execute_task k plat) plat m i (w\<lparr>wd_log_id := Some i\<rparr>) = Some (Inl e, received i m w)"
      using a by (intro execute_body_rejected, cases "p_to_jsonable plat (msg_kwargs m)")
        (auto simp: e_def resolves_def split: sum.split)
    with b show False by simp
  qed
  then obtain wr soft hard kw where r: "resolves plat m wr soft hard kw" by blast
  show thesis
  proof (cases "record_lookup (wd_records w) i")
    case (Some q)
    with b w1 r show ?thesis
      by (intro Duplicate [OF r Some]) (auto simp: execute_body_resolves [OF r] received_def)
  next
    case None
    with b have c: "p_create_error plat i (fresh_record m kw (wd_now w)) = None"
      and rt: "run_task (execute_task k plat) plat m i wr soft hard (fresh_record m kw (wd_now w)) (begun i m kw w) = Some (Inr (), w1)"
      by (auto simp: execute_body_resolves [OF r] split: option.split_asm)
    have "w_singleton wr \<Longrightarrow> p_cache_lock plat (SINGLETON_CACHE (p_settings plat)) (singleton_key (msg_task_name m)) = None"
      using rt by (auto simp: run_task_def singleton_lock_def eff_simps Let_def split: option.split_asm)
    then have "attempts plat m i w wr soft hard kw" using r None c by (simp add: attempts_def)
    then show ?thesis by (rule Attempted [OF n])
  qed
qed

lemma recorded:
  assumes ne: "\<not> EAGER (p_settings plat)" and "idle w"
    and x: "execute_immediately n plat m i w = Some (Inr (), w')"
  shows "if record_lookup (wd_records w) i = None then finished i w'
    else record_lookup (wd_records w') i = record_lookup (wd_records w) i"
  using x
proof (cases rule: execute_immediately_cases)
  case (Duplicate wr soft hard kw r)
  then show ?thesis by simp
next
  case (Attempted wr soft hard kw k)
  let ?r = "fresh_record m kw (wd_now w)"
  have n: "record_lookup (wd_records w) i = None" using Attempted(2) by (simp add: attempts_def)
  obtain out w1 where g: "guarded_call (execute_task k plat) plat wr (msg_kwargs m) (lock_of plat wr m hard) soft hard
      (begun i m kw w) = Some (out, w1)"
    using x unfolding Attempted(1) execute_immediately_attempts [OF Attempted(2)] by (auto split: option.split_asm)
  have "undisturbed plat (begun i m kw w) w1"
    using guarded_call_undisturbed [of plat "execute_task k plat"] worker.keeps_execute [of plat k] g
    by (blast dest: eff_keepsD)
  then have fr: "wd_frames w1 = []" using assms(2) by (simp add: undisturbed_def idle_def)
  have "finished i w'"
  proof (cases out)
    case (Inl e)
    then show ?thesis
      using x g unfolding Attempted(1) execute_immediately_attempts [OF Attempted(2)]
      by (auto dest!: handle_error_finished [OF ne fr])
  next
    case (Inr v)
    then show ?thesis
      using x g unfolding Attempted(1) execute_immediately_attempts [OF Attempted(2)]
      by (auto simp: eff_simps task_log_Some split: option.split_asm sum.split_asm dest!: finish_with_result_finished)
  qed
  with n show ?thesis by simp
qed

text \<open>Outside eager mode a message whose execution returns normally has a record afterwards, and
  the execution that created it has finished it: SUCCEEDED, FAILED or RETRIED, with an end time.  A
  record that was there already is left as it was.\<close>

lemma returned_message_is_recorded:
  assumes ne: "\<not> EAGER (p_settings plat)" and "idle w"
    and x: "execute_immediately n plat m i w = Some (Inr (), w')"
  shows "if record_lookup (wd_records w) i = None then finished i w'
    else record_lookup (wd_records w') i = record_lookup (wd_records w) i"
  using recorded [OF assms] .

lemma returned_message_is_recorded_witness:
  "\<exists>w'. execute_immediately 3 sample_platform (sample_msg ''app.tasks.flaky'' [] 0) ''id'' sample_world = Some (Inr (), w')
     \<and> finished ''id'' w'"
proof -
  let ?x = "execute_immediately 3 sample_platform (sample_msg ''app.tasks.flaky'' [] 0) ''id'' sample_world"
  have h: "\<not> EAGER (p_settings sample_platform)" "idle sample_world" "?x = Some (Inr (), snd (the ?x))"
    "record_lookup (wd_records sample_world) ''id'' = None"
    by code_simp+
  show ?thesis using returned_message_is_recorded [OF h(1-3)] h(3,4) by auto
qed

text \<open>C1. At most once, end to end: after a message has been executed and the call has returned
  normally, a second delivery of it (SQS delivers at least once) returns normally too and changes
  nothing but the log, whatever the task did the first time.\<close>

theorem redelivery_changes_nothing:
  assumes "\<not> EAGER (p_settings plat)" and "idle w"
    and x: "execute_immediately n plat m i w = Some (Inr (), w')"
  shows "\<exists>r. record_lookup (wd_records w') i = Some r \<and>
    execute_immediately (Suc k) plat m i w' = Some (Inr (), w'\<lparr>wd_log_id := None,
      wd_trace := wd_trace w' @ [log_event i (LReceived (msg_task_name m)),
                                 log_event i (LSkipDuplicate (tr_status r))]\<rparr>)"
proof -
  have "\<exists>r. record_lookup (wd_records w') i = Some r"
    using recorded [OF assms] by (auto simp: finished_def split: if_splits option.split_asm)
  then obtain r where r: "record_lookup (wd_records w') i = Some r" by blast
  obtain wr soft hard kw where s: "resolves plat m wr soft hard kw"
    using x by (rule execute_immediately_cases) (auto simp: attempts_def)
  with r duplicate_delivery_skipped [OF s r] show ?thesis by blast
qed

theorem redelivery_changes_nothing_witness:
  "\<exists>w' (r :: task_record). execute_immediately 3 sample_platform (sample_msg ''app.tasks.order'' [] 0) ''id'' sample_world = Some (Inr (), w') \<and>
    execute_immediately (Suc 0) sample_platform (sample_msg ''app.tasks.order'' [] 0) ''id'' w' =
      Some (Inr (), w'\<lparr>wd_log_id := None,
      wd_trace := wd_trace w' @ [log_event ''id'' (LReceived ''app.tasks.order''), log_event ''id'' (LSkipDuplicate (tr_status r))]\<rparr>)"
proof -
  let ?x = "execute_immediately 3 sample_platform (sample_msg ''app.tasks.order'' [] 0) ''id'' sample_world"
  have h: "\<not> EAGER (p_settings sample_platform)" "idle sample_world" and "?x = Some (Inr (), snd (the ?x))"
    by code_simp+
  then obtain w' where x: "?x = Some (Inr (), w')" by blast
  have n: "msg_task_name (sample_msg ''app.tasks.order'' [] 0) = ''app.tasks.order''" by (simp add: sample_msg_def)
  from redelivery_changes_nothing [OF h x, of 0] x show ?thesis unfolding n by (elim exE conjE) (intro exI conjI)
qed

section \<open>Singleton tasks\<close>

lemma LockError_is_Exception: "isinstance e LockError_cls \<Longrightarrow> is_Exception e"
  unfolding isinstance_def
  by (erule issubclass_trans) (simp add: issubclass_step LockError_cls_def)

lemma lock_of_singleton:
  "w_singleton wr \<Longrightarrow> lock_of plat wr m hard =
     Some (SINGLETON_CACHE (p_settings plat), singleton_key (msg_task_name m), hard)"
  by (simp add: lock_of_def)

text \<open>C32. A singleton task that finds its lock held and is not to be retried does not run: no time passes,
  the database gains only its record, which is SUCCEEDED with the lock error as the traceback, and
  the trace shows the attempt to take the lock and nothing else.\<close>

theorem overlapping_singleton_ignored:
  assumes "attempts plat m i w wr soft hard kw" and "idle w"
    and "w_singleton wr" and "\<not> w_retry_singleton wr"
    and "lock_refused plat (lock_of plat wr m hard) (begun i m kw w) = Some e" and "isinstance e LockError_cls"
    and "\<forall>r. p_save_error plat r = None"
  shows "\<exists>w'. execute_immediately (Suc n) plat m i w = Some (Inr (), w') \<and>
    concluded plat m i kw w SUCCEEDED e w' \<and> wd_now w' = wd_now w \<and> wd_log_id w' = None \<and>
    wd_trace w' = wd_trace w @ [log_event i (LReceived (msg_task_name m)),
      LockAcquire (SINGLETON_CACHE (p_settings plat)) (singleton_key (msg_task_name m)) hard,
      log_event i (LSucceededIgnored (cls_name (exn_cls e)) (Some 0))]"
proof -
  let ?r = "fresh_record m kw (wd_now w)" and ?w1 = "lock_acquired (lock_of plat wr m hard) (begun i m kw w)"
  have f: "failed_call n plat m i w wr soft hard kw = Some (e, ?w1)"
    using assms(5) by (simp add: failed_call_def Let_def)
  obtain w2 where w2: "finish_with_traceback plat i ?r SUCCEEDED e ?w1 =
      Some (Inr (with_traceback plat SUCCEEDED e (wd_now ?w1) ?r), w2)"
    and c: "concluded plat m i kw w SUCCEEDED e w2" and l: "wd_log_id w2 = Some i" and t: "wd_now w2 = wd_now ?w1"
    by (rule finish_concluded [OF assms(1,2) f spec [OF assms(7)], where s = SUCCEEDED and ?w2.0 = ?w1]) blast+
  have tr: "wd_trace w2 = wd_trace ?w1"
    using w2 by (auto elim: finish_with_traceback_cases)
  let ?l = "LSucceededIgnored (cls_name (exn_cls e)) (Some 0)"
  have d: "duration (with_traceback plat SUCCEEDED e (wd_now w) ?r) = Some 0"
    by (simp add: duration_def with_traceback_def fresh_record_def)
  have "is_Exception e" using assms(6) by (rule LockError_is_Exception)
  then have "execute_immediately (Suc n) plat m i w =
      Some (Inr (), (add_event (log_event i ?l) w2)\<lparr>wd_log_id := None\<rparr>)"
    unfolding execute_immediately_failed [OF assms(1,2) f] handle_error_def
    using assms(3,4,6) w2 l d by (simp add: eff_simps task_log_at)
  then show ?thesis
    using concluded_log [OF c, of i ?l] t tr
    by (simp add: lock_acquired_def lock_of_singleton [OF assms(3)])
qed

definition held_platform :: "nat platform" where
  "held_platform = sample_platform\<lparr>p_lock_enter := (\<lambda>tr k. Some (Exn LockError_cls ''unable to acquire lock'' []))\<rparr>"

theorem overlapping_singleton_ignored_witness:
  "\<exists>w'. execute_immediately (Suc 0) held_platform (sample_msg ''app.tasks.report'' [] 0) ''id'' sample_world = Some (Inr (), w') \<and>
    db_rows (wd_db w') = 0 \<and> wd_now w' = 1000"
proof -
  let ?m = "sample_msg ''app.tasks.report'' [] 0" and ?wr = "sample_wrapper ''app.tasks.report''"
  have "attempts sample_platform ?m ''id'' sample_world ?wr 270 300 []"
    by (rule sample_ready_attempts) code_simp
  then have a: "attempts held_platform ?m ''id'' sample_world ?wr 270 300 []"
    by (simp add: attempts_def resolves_def resolve_wrapper_def held_platform_def)
  have h: "idle sample_world" "w_singleton ?wr" "\<not> w_retry_singleton ?wr"
    "lock_refused held_platform (lock_of held_platform ?wr ?m 300) (begun ''id'' ?m [] sample_world) =
       Some (Exn LockError_cls ''unable to acquire lock'' [])"
    "isinstance (Exn LockError_cls ''unable to acquire lock'' []) LockError_cls"
    by code_simp+
  have s: "\<forall>r. p_save_error held_platform r = None" by (simp add: held_platform_def sample_platform_def)
  have w: "db_rows (wd_db sample_world) = 0" "wd_now sample_world = 1000" by code_simp+
  show ?thesis
    using overlapping_singleton_ignored [OF a h s, of 0] w by (auto simp: concluded_def)
qed

text \<open>A guarded call that got its lock ends with its release; what comes before starts with the acquisition.\<close>

lemma guarded_call_brackets:
  assumes g: "guarded_call (execute_task n plat) plat wr (msg_kwargs m) lock soft hard w0 = Some (out, w1)" and "idle w0"
    and "lock_refused plat lock w0 = None"
  obtains w3 t where "wd_trace w3 = wd_trace (task_start plat lock soft hard w0) @ t" "w1 = lock_released lock w3"
proof -
  have ex: "eff_keeps (undisturbed plat) (execute_task n plat t)" for t
    using worker.keeps_execute [of plat n] by blast
  from assms(2) g have "\<exists>w3. prefix (wd_trace (task_start plat lock soft hard w0)) (wd_trace w3) \<and> w1 = lock_released lock w3"
  proof (cases rule: guarded_call_cases)
    case (Refused e)
    with assms(3) show ?thesis by simp
  next
    case (RolledBack r e w2 w3)
    then show ?thesis by (intro exI [of _ w3]) (auto simp: in_task_def)
  next
    case (Committed v w2 rh w3)
    have "undisturbed plat (task_end plat w0 w2) w3"
      using unit_of_work.keeps_each [of plat "execute_task n plat", OF ex] Committed(4) by (rule eff_keepsD)
    then have "prefix (wd_trace w2) (wd_trace w3)" by (simp add: undisturbed_def idle_def)
    moreover have "prefix (wd_trace (task_start plat lock soft hard w0)) (wd_trace w2)"
      using Committed(3) by (auto simp: in_task_def)
    ultimately show ?thesis using Committed(5) prefix_order.trans by blast
  qed
  then show thesis using that by (auto simp: prefix_def)
qed

text \<open>What follows the guarded call adds to the trace.\<close>

lemma after_call_prefix:
  assumes a: "attempts plat m i w wr soft hard kw" and "idle w"
    and x: "execute_immediately (Suc n) plat m i w = Some (r, w')"
    and g: "guarded_call (execute_task n plat) plat wr (msg_kwargs m) (lock_of plat wr m hard) soft hard (begun i m kw w) = Some (out, w1)"
  shows "prefix (wd_trace w1) (wd_trace w')"
proof -
  have ex: "eff_keeps (undisturbed plat) (execute_task n plat t)" for t
    using worker.keeps_execute [of plat n] by blast
  have i0: "idle (begun i m kw w)" using assms(2) by simp
  have i1: "idle w1"
    using eff_keepsD [OF guarded_call_undisturbed [of plat "execute_task n plat", OF ex] g] i0
    by (simp only: undisturbed_def)
  have h: "eff_keeps (undisturbed plat) (handle_error (execute_task n plat) plat m i wr q e)" for q e
    by (rule worker.keeps_handle_error) (rule ex)
  have f: "eff_keeps (undisturbed plat) (eff_bind (finish_with_result plat i q v) (\<lambda>r'. task_log (LSucceeded (duration r'))))" for q v
    by (intro worker.keeps_rules)
  have c: "undisturbed plat w1 x \<Longrightarrow> undisturbed plat w1 (x\<lparr>wd_log_id := None\<rparr>)" for x
    by (simp add: undisturbed_def idle_def)
  have "undisturbed plat w1 w'"
    using x unfolding execute_immediately_attempts [OF a] g
    by (auto split: sum.split_asm dest: eff_keepsD [OF h] eff_keepsD [OF f] intro!: c)
  then show ?thesis using i1 by (simp add: undisturbed_def)
qed

text \<open>C23. A singleton task that got its lock gives it back, whatever its code does and however the
  message ends: the trace has the acquisition, with the hard timeout as the lock's own timeout, and
  after it the release of the same key.\<close>

theorem singleton_lock_released:
  assumes "attempts plat m i w wr soft hard kw" and "idle w" and "w_singleton wr"
    and "lock_refused plat (lock_of plat wr m hard) (begun i m kw w) = None"
    and x: "execute_immediately (Suc n) plat m i w = Some (r, w')"
  shows "\<exists>t t'. wd_trace w' = wd_trace w @ log_event i (LReceived (msg_task_name m))
      # LockAcquire (SINGLETON_CACHE (p_settings plat)) (singleton_key (msg_task_name m)) hard
      # t @ LockRelease (singleton_key (msg_task_name m)) # t'"
proof -
  let ?lock = "lock_of plat wr m hard" and ?w0 = "begun i m kw w"
  let ?c = "SINGLETON_CACHE (p_settings plat)" and ?k = "singleton_key (msg_task_name m)"
  note lock = lock_of_singleton [OF assms(3), of plat m hard]
  obtain out w1 where g: "guarded_call (execute_task n plat) plat wr (msg_kwargs m) ?lock soft hard ?w0 = Some (out, w1)"
    using x unfolding execute_immediately_attempts [OF assms(1)] by (auto split: option.split_asm)
  have start: "wd_trace (task_start plat ?lock soft hard ?w0) =
      wd_trace w @ [log_event i (LReceived (msg_task_name m)), LockAcquire ?c ?k hard]"
    by (simp add: lock_acquired_def lock)
  obtain w3 t where w3: "wd_trace w3 = wd_trace (task_start plat ?lock soft hard ?w0) @ t" "w1 = lock_released ?lock w3"
    using guarded_call_brackets [OF g iffD2 [OF idle_begun assms(2)] assms(4)] .
  obtain t' where "wd_trace w' = wd_trace w1 @ t'"
    using after_call_prefix [OF assms(1,2) x g] by (auto simp: prefix_def)
  then have "wd_trace w' = wd_trace w @ log_event i (LReceived (msg_task_name m)) # LockAcquire ?c ?k hard # t @ LockRelease ?k # t'"
    unfolding w3 start by (simp add: lock_released_def lock_acquired_def lock w3(1))
  then show ?thesis by blast
qed

theorem singleton_lock_released_witness:
  "\<exists>w' t t'. execute_immediately (Suc 2) sample_platform (sample_msg ''app.tasks.report'' [] 0) ''id'' sample_world = Some (Inr (), w') \<and>
    wd_trace w' = log_event ''id'' (LReceived ''app.tasks.report'')
      # LockAcquire ''default'' ''lambda_tasks.singleton_lock.app.tasks.report'' 300
      # t @ LockRelease ''lambda_tasks.singleton_lock.app.tasks.report'' # t'"
proof -
  let ?m = "sample_msg ''app.tasks.report'' [] 0" and ?wr = "sample_wrapper ''app.tasks.report''"
  let ?x = "execute_immediately (Suc 2) sample_platform ?m ''id'' sample_world"
  have a: "attempts sample_platform ?m ''id'' sample_world ?wr 270 300 []"
    by (rule sample_ready_attempts) code_simp
  have h: "idle sample_world" "w_singleton ?wr"
    "lock_refused sample_platform (lock_of sample_platform ?wr ?m 300) (begun ''id'' ?m [] sample_world) = None"
    "?x = Some (Inr (), snd (the ?x))" by code_simp+
  have n: "SINGLETON_CACHE (p_settings sample_platform) = ''default''" "msg_task_name ?m = ''app.tasks.report''"
    "singleton_key ''app.tasks.report'' = ''lambda_tasks.singleton_lock.app.tasks.report''"
    "wd_trace sample_world = []" by code_simp+
  show ?thesis
    using singleton_lock_released [OF a h] h(4) unfolding n by auto
qed

section \<open>A retry that cannot be sent\<close>

text \<open>C31. A retry whose message SQS refuses is lost.  The record is written as RETRIED before the next
  attempt is sent; if the sending raises, the exception propagates, so that SQS delivers the message
  again, but that delivery finds the RETRIED record and is skipped: it returns normally, sends
  nothing and runs nothing, although no retry was ever queued.\<close>

theorem refused_retry_is_lost:
  assumes "attempts plat m i w wr soft hard kw" and "idle w"
    and "failed_call (Suc n) plat m i w wr soft hard kw = Some (e, w1)"
    and "retryable wr e"
    and "MAX_RETRIES (p_settings plat) = Inr max_retries" and "msg_n_retries m < max_retries"
    and "\<forall>r. p_save_error plat r = None"
    and "queue_mode (p_settings plat)" and "QUEUES (p_settings plat) = Inr queues"
    and "map_of queues (w_queue wr) = Some (SQSQueueConfig url)"
    and "message_to_json (p_to_json plat) (m\<lparr>msg_n_retries := msg_n_retries m + 1\<rparr>) = Inr body"
    and "\<forall>tr u b d. p_sqs_send plat tr u b d = Some x"
  shows "\<exists>w' r. execute_immediately (Suc (Suc n)) plat m i w = Some (Inl x, w') \<and>
    record_lookup (wd_records w') i = Some r \<and> tr_status r = RETRIED \<and>
    execute_immediately (Suc k) plat m i w' = Some (Inr (), w'\<lparr>wd_log_id := None,
      wd_trace := wd_trace w' @ [log_event i (LReceived (msg_task_name m)), log_event i (LSkipDuplicate RETRIED)]\<rparr>)"
proof -
  obtain w3 where c: "concluded plat m i kw w RETRIED e w3"
    and y: "execute_immediately (Suc (Suc n)) plat m i w = map_option (\<lambda>(r, w'). (r, w'\<lparr>wd_log_id := None\<rparr>))
      (execute_task (Suc n) plat (retry_task wr m (p_uniform plat (wd_draws w))) (w3\<lparr>wd_draws := Suc (wd_draws w)\<rparr>))"
    by (rule execute_immediately_retry [OF assms(1-7)])
  let ?w' = "(add_event (SQSSend url body (retry_delay_of wr (p_uniform plat (wd_draws w)))) (w3\<lparr>wd_draws := Suc (wd_draws w)\<rparr>))
      \<lparr>wd_log_id := None\<rparr>"
  let ?r = "with_traceback plat RETRIED e (wd_now w3) (fresh_record m kw (wd_now w))"
  have "execute_immediately (Suc (Suc n)) plat m i w = Some (Inl x, ?w')"
    unfolding y using retry_sent [OF assms(8-11)] assms(12) by (simp del: execute_task.simps)
  moreover have "record_lookup (wd_records ?w') i = Some ?r"
    using c assms(1) by (simp add: concluded_def record_lookup_insert attempts_def)
  moreover have "tr_status ?r = RETRIED" by (simp add: with_traceback_def)
  moreover have "resolves plat m wr soft hard kw" using assms(1) by (simp add: attempts_def)
  ultimately show ?thesis
    using duplicate_delivery_skipped [of plat m wr soft hard kw ?w' i ?r k] by (intro exI [of _ ?w'] exI [of _ ?r]) simp
qed

definition refusing_platform :: "nat platform" where
  "refusing_platform = sample_platform\<lparr>p_sqs_send := (\<lambda>tr u b d. Some (value_error ''throttled'' []))\<rparr>"

theorem refused_retry_is_lost_witness:
  "\<exists>w' (r :: task_record). execute_immediately 2 refusing_platform (sample_msg ''app.tasks.flaky'' [] 0) ''id'' sample_world =
      Some (Inl (value_error ''throttled'' []), w') \<and> record_lookup (wd_records w') ''id'' = Some r \<and> tr_status r = RETRIED"
proof -
  let ?m = "sample_msg ''app.tasks.flaky'' [] 0" and ?wr = "sample_wrapper ''app.tasks.flaky''"
  let ?f = "failed_call (Suc 0) refusing_platform ?m ''id'' sample_world ?wr 270 300 []"
  let ?qs = "projr (QUEUES (p_settings refusing_platform))"
  have "attempts sample_platform ?m ''id'' sample_world ?wr 270 300 []"
    by (rule sample_ready_attempts) code_simp
  then have a: "attempts refusing_platform ?m ''id'' sample_world ?wr 270 300 []"
    by (simp add: attempts_def resolves_def resolve_wrapper_def refusing_platform_def)
  have f: "idle sample_world" "?f = Some (timeout_connection, snd (the ?f))" "retryable ?wr timeout_connection"
    "MAX_RETRIES (p_settings refusing_platform) = Inr 2" "msg_n_retries ?m < 2"
    by code_simp+
  have s: "\<forall>r. p_save_error refusing_platform r = None"
    "\<forall>tr u b d. p_sqs_send refusing_platform tr u b d = Some (value_error ''throttled'' [])"
    by (simp_all add: sample_platform_def refusing_platform_def)
  have q: "queue_mode (p_settings refusing_platform)" "QUEUES (p_settings refusing_platform) = Inr ?qs"
    "map_of ?qs (w_queue ?wr) = Some (SQSQueueConfig ''https://sqs.localhost/default'')"
    "message_to_json (p_to_json refusing_platform) (?m\<lparr>msg_n_retries := msg_n_retries ?m + 1\<rparr>) = Inr ''text of flaky, first retry''"
    by code_simp+
  have n: "2 = Suc (Suc 0)" by simp
  show ?thesis
    unfolding n using refused_retry_is_lost [OF a f s(1) q s(2), of 0] by blast
qed

end
