(* ===== verification/Timeout_Props.thy ===== *)
theory Timeout_Props
  imports Delivery_Props
begin

text \<open>
  The time limits of a task, over everything its code may do: when the two exceptions are raised, what
  a task that does not catch them can use, and what one that catches them can.
\<close>

section \<open>When the limits are raised\<close>

text \<open>The alarms of a trace, and those due between the seconds \<open>a\<close> and \<open>b\<close> after a start.\<close>

definition is_alarm :: "event \<Rightarrow> bool" where
  "is_alarm ev = (case ev of AlarmRaised e t \<Rightarrow> True | _ \<Rightarrow> False)"

definition alarms_due :: "int \<Rightarrow> int \<Rightarrow> int \<Rightarrow> int \<Rightarrow> int \<Rightarrow> event list" where
  "alarms_due start soft hard a b =
     (if a < soft \<and> soft \<le> b then [AlarmRaised SoftTimeLimitExceeded (start + soft)] else []) @
     (if a < hard \<and> hard \<le> b then [AlarmRaised HardTimeLimitExceeded (start + hard)] else [])"

lemma alarms_due_append:
  assumes "soft < hard" and "a \<le> b" and "b \<le> c" and "b < hard \<or> soft \<le> a \<or> alarms_due start soft hard b c = []"
  shows "alarms_due start soft hard a b @ alarms_due start soft hard b c = alarms_due start soft hard a c"
  using assms by (auto simp: alarms_due_def split: if_splits)

text \<open>The invariant of running code: from \<open>w\<close>, with the context armed and \<open>t\<close> seconds gone, to \<open>w'\<close>, with
  \<open>t'\<close> seconds gone, the alarms are those due.\<close>

definition alarms_on_time :: "int \<Rightarrow> int \<Rightarrow> int \<Rightarrow> nat \<Rightarrow> nat \<Rightarrow> 'd world \<Rightarrow> 'd world \<Rightarrow> bool" where
  "alarms_on_time start soft hard t t' w w' \<longleftrightarrow>
     wd_now w' = start + int t' \<and> t \<le> t' \<and> armed soft hard t' (wd_signals w') \<and>
     (\<exists>evs. wd_trace w' = wd_trace w @ evs \<and> filter is_alarm evs = alarms_due start soft hard (int t) (int t'))"

lemma alarms_on_time_trans:
  assumes "soft < hard" and "alarms_on_time start soft hard t s w u" and "alarms_on_time start soft hard s t' u w'"
    and "int s < hard \<or> soft \<le> int t"
  shows "alarms_on_time start soft hard t t' w w'"
proof -
  have "alarms_due start soft hard (int t) (int s) @ alarms_due start soft hard (int s) (int t')
      = alarms_due start soft hard (int t) (int t')"
    using assms by (intro alarms_due_append) (auto simp: alarms_on_time_def)
  then show ?thesis
    using assms(2,3) unfolding alarms_on_time_def by (metis append.assoc filter_append le_trans)
qed

text \<open>A stretch of work, up to where the code goes on, with the exception of the alarm or without.\<close>

lemma work_on_time:
  fixes w :: "'d world"
  assumes sh: "soft < hard" and a: "armed soft hard t (wd_signals w)" and now: "wd_now w = start + int t"
    and wk: "work other n (wd_signals w) = (x, d, s)"
  defines "w1 \<equiv> w\<lparr>wd_now := wd_now w + int d, wd_signals := s\<rparr>"
  shows "alarms_on_time start soft hard t (t + d) w (case x of None \<Rightarrow> w1 | Some e \<Rightarrow> add_event (AlarmRaised e (wd_now w1)) w1)"
    and "int (t + d) < hard \<or> soft \<le> int t"
proof -
  have a': "armed soft hard (t + d) s" and v: "timeout_verdict soft hard t n x d"
    using work_armed [OF a sh wk] by blast+
  have "filter is_alarm (case x of None \<Rightarrow> [] | Some e \<Rightarrow> [AlarmRaised e (wd_now w1)]) =
      alarms_due start soft hard (int t) (int (t + d))"
    using v sh now by (auto simp: w1_def timeout_verdict_def alarms_due_def is_alarm_def split: if_splits)
  moreover have "wd_trace (case x of None \<Rightarrow> w1 | Some e \<Rightarrow> add_event (AlarmRaised e (wd_now w1)) w1) =
      wd_trace w @ (case x of None \<Rightarrow> [] | Some e \<Rightarrow> [AlarmRaised e (wd_now w1)])"
    by (simp add: w1_def split: option.split)
  ultimately show "alarms_on_time start soft hard t (t + d) w (case x of None \<Rightarrow> w1 | Some e \<Rightarrow> add_event (AlarmRaised e (wd_now w1)) w1)"
    using a' now unfolding alarms_on_time_def by (auto simp: w1_def split: option.splits)
  show "int (t + d) < hard \<or> soft \<le> int t"
    using v sh by (auto simp: timeout_verdict_def split: if_splits)
qed

lemma run_prog_alarms:
  assumes sh: "soft < hard"
  shows "run_prog plat execute p w = Some (r, w') \<Longrightarrow> wd_frames w \<noteq> [] \<Longrightarrow> armed soft hard t (wd_signals w) \<Longrightarrow>
    wd_now w = start + int t \<Longrightarrow> \<exists>t'. alarms_on_time start soft hard t t' w w'"
proof (induction p arbitrary: w t rule: prog_induct)
  case (Work n k h)
  obtain x d s where wk: "work (p_other_alarm plat) n (wd_signals w) = (x, d, s)"
    by (cases "work (p_other_alarm plat) n (wd_signals w)")
  let ?w1 = "w\<lparr>wd_now := wd_now w + int d, wd_signals := s\<rparr>"
  let ?w2 = "case x of None \<Rightarrow> ?w1 | Some e \<Rightarrow> add_event (AlarmRaised e (wd_now ?w1)) ?w1"
  note first = work_on_time [OF sh Work.prems(3,4) wk]
  have w2: "wd_frames ?w2 \<noteq> []" "armed soft hard (t + d) (wd_signals ?w2)" "wd_now ?w2 = start + int (t + d)"
    using first(1) Work.prems(2) by (auto simp: alarms_on_time_def split: option.split)
  have "\<exists>t'. alarms_on_time start soft hard (t + d) t' ?w2 w'"
  proof (cases x)
    case None
    with Work.prems(1) wk have "run_prog plat execute k ?w2 = Some (r, w')" by simp
    then show ?thesis using w2 by (rule Work.IH(1))
  next
    case (Some e)
    with Work.prems(1) wk have "run_prog plat execute (h e) ?w2 = Some (r, w')" by (simp add: Let_def)
    then show ?thesis using w2 by (rule Work.IH(2))
  qed
  then show ?case using alarms_on_time_trans [OF sh first(1) _ first(2)] by blast
next
  case (Query upd k)
  then show ?case
    using Query.IH [of "wd_now w" "wd_db w" "w\<lparr>wd_db := upd (wd_now w) (wd_db w)\<rparr>" t] by (simp add: alarms_on_time_def)
next
  case (Enqueue tk k)
  then show ?case by (fastforce simp: eff_simps on_commit_def alarms_on_time_def)
next
  case (Submit job k)
  have run: "run_prog plat execute (k (p_batch_submit plat (wd_trace w) job)) (add_event (BatchSubmit job) w) = Some (r, w')"
    using Submit.prems(1) by simp
  then obtain t' where "alarms_on_time start soft hard t t' (add_event (BatchSubmit job) w) w'"
    using Submit.IH [OF run, of t] Submit.prems(2-4) by auto
  moreover have "\<not> is_alarm (BatchSubmit job)" by (simp add: is_alarm_def)
  ultimately show ?case by (auto simp: alarms_on_time_def)
qed (auto simp: eff_simps alarms_on_time_def alarms_due_def)

text \<open>What the wrapper and the settings together guarantee of the limits.\<close>

lemma resolved_timeouts_Inr:
  assumes "wrapper_ok wr" and r: "resolved_timeouts dj wr = Inr (soft, hard)"
  obtains mx where "queue_max_timeout dj (w_queue wr) = Inr mx" "0 < soft" "soft < hard" "hard \<le> mx"
proof -
  have "timeouts_ok (w_soft_timeout wr) (w_hard_timeout wr)" using assms(1) by (simp add: wrapper_ok_def)
  with r that show thesis
    by (auto simp: resolved_timeouts_def timeouts_ok_def elim!: res_bind_InrE
        split: option.split_asm if_split_asm)
qed

lemma run_code_armed:
  assumes "\<not> EAGER (p_settings plat)" and "0 < soft"
  shows "armed soft hard 0 (wd_signals (task_start plat (lock_of plat wr m hard) soft hard (begun i m kw w)))"
  using armed_enter [OF assms(2)] assms(1) by (simp add: task_start_def)

lemma alarms_task_start [simp]:
  "filter is_alarm (wd_trace (lock_acquired lock (begun i m kw w))) = filter is_alarm (wd_trace w)"
  by (simp add: lock_acquired_def is_alarm_def log_event_def split: option.split)

text \<open>C18. The limits are raised on time, and only then: while the code of a task runs,
  \<open>SoftTimeLimitExceeded\<close> is raised once, at the second \<open>soft_timeout\<close> after the start, if the code is
  still running then, and \<open>HardTimeLimitExceeded\<close> once, at the second \<open>hard_timeout\<close>, if it still
  is; nothing else is raised by the alarm.\<close>

theorem limits_raised_on_time:
  assumes "\<not> EAGER (p_settings plat)" and "wrapper_ok wr"
    and "resolved_timeouts (p_settings plat) wr = Inr (soft, hard)"
    and "run_code n plat m i w wr soft hard kw = Some (r, w2)"
  shows "filter is_alarm (wd_trace w2) =
      filter is_alarm (wd_trace w) @ alarms_due (wd_now w) soft hard 0 (wd_now w2 - wd_now w)"
proof -
  let ?w1 = "task_start plat (lock_of plat wr m hard) soft hard (begun i m kw w)"
  obtain mx where "queue_max_timeout (p_settings plat) (w_queue wr) = Inr mx" and b: "0 < soft" "soft < hard"
    using resolved_timeouts_Inr [OF assms(2,3)] by blast
  have s: "wd_frames ?w1 \<noteq> []" "wd_now ?w1 = wd_now w + int 0" by (simp_all add: task_start_def)
  obtain t' evs where "wd_now w2 = wd_now w + int t'" "wd_trace w2 = wd_trace ?w1 @ evs"
    "filter is_alarm evs = alarms_due (wd_now w) soft hard (int 0) (int t')"
    using run_prog_alarms [OF b(2) assms(4) [unfolded run_code_def] s(1) run_code_armed [OF assms(1) b(1)] s(2)]
    unfolding alarms_on_time_def by blast
  then show ?thesis by simp
qed

definition stubborn_fn :: "nat pyfun" where
  "stubborn_fn = sample_fn ''stubborn''
     (Work 1000 (Return PNone) (\<lambda>_. Work 1000 (Return PNone) (\<lambda>_. Work 100 (Return (PStr ''late'')) Raise)))"

definition sleeper_fn :: "nat pyfun" where
  "sleeper_fn = sample_fn ''sleeper'' (Work 1000 (Return PNone) Raise)"

definition decorated :: "nat pyfun \<Rightarrow> nat wrapper" where
  "decorated f = projr (LambdaTaskWrapper f default_options)"

lemma decorated_ok:
  assumes "\<not> isl (LambdaTaskWrapper f default_options)"
  shows "wrapper_ok (decorated f)" and "w_func (decorated f) = f"
proof -
  have "LambdaTaskWrapper f default_options = Inr (decorated f)"
    using assms by (simp add: decorated_def)
  from LambdaTaskWrapper_ok [OF this] show "wrapper_ok (decorated f)" "w_func (decorated f) = f" by blast+
qed

theorem limits_raised_on_time_witness:
  "\<exists>w2. run_code 0 sample_platform (sample_msg ''stubborn'' [] 0) ''id'' sample_world (decorated stubborn_fn) 270 300 [] =
      Some (Inr (PStr ''late''), w2) \<and>
    filter is_alarm (wd_trace w2) =
      [AlarmRaised SoftTimeLimitExceeded 1270, AlarmRaised HardTimeLimitExceeded 1300]"
proof -
  let ?c = "run_code 0 sample_platform (sample_msg ''stubborn'' [] 0) ''id'' sample_world (decorated stubborn_fn) 270 300 []"
  have h: "\<not> EAGER (p_settings sample_platform)" "?c = Some (Inr (PStr ''late''), snd (the ?c))"
    "alarms_due (wd_now sample_world) 270 300 0 (wd_now (snd (the ?c)) - wd_now sample_world) =
      [AlarmRaised SoftTimeLimitExceeded 1270, AlarmRaised HardTimeLimitExceeded 1300]"
    "wd_trace sample_world = []"
    "resolved_timeouts (p_settings sample_platform) (decorated stubborn_fn) = Inr (270, 300)"
    "\<not> isl (LambdaTaskWrapper stubborn_fn default_options)"
    by code_simp+
  show ?thesis
    using limits_raised_on_time [OF h(1) decorated_ok(1) [OF h(6)] h(5) h(2)] h(2) unfolding h(3,4) by auto
qed

section \<open>Code that does not catch the limits\<close>

text \<open>Every \<open>except\<close> clause around a stretch of work lets the alarm's exception through.\<close>

inductive catches_nothing :: "'d prog \<Rightarrow> bool" where
  "catches_nothing (Return v)"
| "catches_nothing (Raise e)"
| "catches_nothing k \<Longrightarrow> catches_nothing (Work n k Raise)"
| "(\<And>now db. catches_nothing (k now db)) \<Longrightarrow> catches_nothing (Query upd k)"
| "catches_nothing k \<Longrightarrow> catches_nothing (Enqueue t k)"
| "(\<And>r. catches_nothing (k r)) \<Longrightarrow> catches_nothing (Submit job k)"

lemma run_prog_soft_limit:
  assumes "catches_nothing p" and sh: "soft < hard"
  shows "run_prog plat execute p w = Some (r, w') \<Longrightarrow> wd_frames w \<noteq> [] \<Longrightarrow> armed soft hard t (wd_signals w) \<Longrightarrow>
    int t < soft \<Longrightarrow> wd_now w = start + int t \<Longrightarrow>
    wd_now w' < start + soft \<or> wd_now w' = start + soft \<and> r = Inl SoftTimeLimitExceeded"
  using assms(1)
proof (induction arbitrary: w t rule: catches_nothing.induct)
  case (3 k n)
  obtain x d s where wk: "work (p_other_alarm plat) n (wd_signals w) = (x, d, s)"
    by (cases "work (p_other_alarm plat) n (wd_signals w)")
  have a: "armed soft hard (t + d) s" and v: "timeout_verdict soft hard t n x d"
    using work_armed [OF 3(5) sh wk] by blast+
  show ?case
  proof (cases x)
    case None
    with v 3(6) have "int (t + d) < soft" by (auto simp: timeout_verdict_def split: if_splits)
    moreover from None wk 3(3) have
      "run_prog plat execute k (w\<lparr>wd_now := wd_now w + int d, wd_signals := s\<rparr>) = Some (r, w')" by simp
    ultimately show ?thesis using 3(2) [of "w\<lparr>wd_now := wd_now w + int d, wd_signals := s\<rparr>" "t + d"] a 3(4,7) by simp
  next
    case (Some e)
    with v 3(6) have "e = SoftTimeLimitExceeded" "int (t + d) = soft"
      by (auto simp: timeout_verdict_def split: if_splits)
    with Some wk 3(3,7) show ?thesis by (auto simp: eff_simps)
  qed
next
  case (4 k upd)
  then show ?case by (fastforce simp: eff_simps)
next
  case (5 k t')
  then show ?case by (fastforce simp: eff_simps on_commit_def)
next
  case (6 k job)
  then show ?case by (fastforce simp: eff_simps)
qed (auto simp: eff_simps)

lemma run_code_soft_limit:
  assumes "\<not> EAGER (p_settings plat)" and "wrapper_ok wr"
    and "resolved_timeouts (p_settings plat) wr = Inr (soft, hard)"
    and "catches_nothing (fn_code (w_func wr) (msg_kwargs m))"
    and "run_code n plat m i w wr soft hard kw = Some (r, w2)"
  shows "wd_now w2 < wd_now w + soft \<or> wd_now w2 = wd_now w + soft \<and> r = Inl SoftTimeLimitExceeded"
    and "0 < soft" and "soft < hard" and "soft < MAX_BATCH_TIMEOUT"
proof -
  let ?w1 = "task_start plat (lock_of plat wr m hard) soft hard (begun i m kw w)"
  obtain mx where m: "queue_max_timeout (p_settings plat) (w_queue wr) = Inr mx" and b: "0 < soft" "soft < hard" "hard \<le> mx"
    using resolved_timeouts_Inr [OF assms(2,3)] by blast
  have c: "catches_nothing (wrapper_call (p_type_ok plat) wr (msg_kwargs m))"
    using assms(4) by (intro wrapper_call_code [of catches_nothing] catches_nothing.intros)
  have s: "wd_frames ?w1 \<noteq> []" "wd_now ?w1 = wd_now w + int 0" by (simp_all add: task_start_def)
  show "soft < MAX_BATCH_TIMEOUT"
    using queue_max_timeout_cases [OF m] b by (auto simp: MAX_TIMEOUT_def MAX_BATCH_TIMEOUT_def)
  show "wd_now w2 < wd_now w + soft \<or> wd_now w2 = wd_now w + soft \<and> r = Inl SoftTimeLimitExceeded"
    using run_prog_soft_limit [OF c b(2) assms(5) [unfolded run_code_def] s(1) run_code_armed [OF assms(1) b(1)] _ s(2)] b(1)
    by simp
  show "0 < soft" "soft < hard" by (fact b)+
qed

text \<open>C24. A task that lets the exceptions of the alarm through holds its transaction, its lock and the
  worker for at most \<open>soft_timeout\<close> seconds: it ends before them, or exactly then with
  \<open>SoftTimeLimitExceeded\<close>.  The limit itself is below the maximum of its queue.\<close>

theorem task_ends_by_soft_limit:
  assumes "\<not> EAGER (p_settings plat)" and "wrapper_ok wr"
    and "resolved_timeouts (p_settings plat) wr = Inr (soft, hard)"
    and "catches_nothing (fn_code (w_func wr) (msg_kwargs m))"
    and "run_code n plat m i w wr soft hard kw = Some (r, w2)"
  shows "(wd_now w2 < wd_now w + soft \<or> wd_now w2 = wd_now w + soft \<and> r = Inl SoftTimeLimitExceeded)
    \<and> soft < MAX_BATCH_TIMEOUT"
  using run_code_soft_limit [OF assms] by blast

theorem task_ends_by_soft_limit_witness:
  "\<exists>w2. run_code 0 sample_platform (sample_msg ''sleeper'' [] 0) ''id'' sample_world (decorated sleeper_fn) 270 300 [] =
      Some (Inl SoftTimeLimitExceeded, w2) \<and> wd_now w2 \<le> 1270"
proof -
  let ?c = "run_code 0 sample_platform (sample_msg ''sleeper'' [] 0) ''id'' sample_world (decorated sleeper_fn) 270 300 []"
  have h: "\<not> EAGER (p_settings sample_platform)"
    "resolved_timeouts (p_settings sample_platform) (decorated sleeper_fn) = Inr (270, 300)"
    "?c = Some (Inl SoftTimeLimitExceeded, snd (the ?c))" "wd_now sample_world = 1000"
    "\<not> isl (LambdaTaskWrapper sleeper_fn default_options)"
    by code_simp+
  note k = decorated_ok [OF h(5)]
  have c: "catches_nothing (fn_code (w_func (decorated sleeper_fn)) (msg_kwargs (sample_msg ''sleeper'' [] 0)))"
    unfolding k(2) by (simp add: sleeper_fn_def sample_fn_def catches_nothing.intros)
  show ?thesis using task_ends_by_soft_limit [OF h(1) k(1) h(2) c h(3)] h(3,4) by auto
qed

text \<open>The hard limit does not end a task: \<open>HardTimeLimitExceeded\<close> is an ordinary exception, so code
  that catches \<open>Exception\<close> around its work goes on past \<open>hard_timeout\<close>, with no alarm left, and may
  return normally, in which case its changes are committed and the record is SUCCEEDED.\<close>

lemma hard_limit_can_be_outlived:
  "\<exists>w2 w'. run_code 0 sample_platform (sample_msg ''stubborn'' [] 0) ''id'' sample_world (decorated stubborn_fn) 270 300 [] =
      Some (Inr (PStr ''late''), w2) \<and> wd_now sample_world + 300 < wd_now w2 \<and> alarm_left (wd_signals w2) = 0 \<and>
    guarded_call (execute_task 0 sample_platform) sample_platform (decorated stubborn_fn) [] None 270 300 sample_world =
      Some (Inr (PStr ''late''), w')"
proof -
  let ?c = "run_code 0 sample_platform (sample_msg ''stubborn'' [] 0) ''id'' sample_world (decorated stubborn_fn) 270 300 []"
  let ?g = "guarded_call (execute_task 0 sample_platform) sample_platform (decorated stubborn_fn) [] None 270 300 sample_world"
  have "?c = Some (Inr (PStr ''late''), snd (the ?c))" "wd_now sample_world + 300 < wd_now (snd (the ?c))"
    "alarm_left (wd_signals (snd (the ?c))) = 0" "?g = Some (Inr (PStr ''late''), snd (the ?g))"
    by code_simp+
  then show ?thesis by blast
qed

end
