(* ===== verification/Bounds_Props.thy ===== *)
theory Bounds_Props
  imports Timeout_Props
begin

text \<open>
  Termination: the bound on nesting that is always enough outside eager mode, its independence, and the
  chain of attempts of a failing task in eager mode.
\<close>

section \<open>Outside eager mode\<close>

text \<open>Outside eager mode executing a message always ends, with a result or an exception: three levels of
  nesting are enough for every message, every task and every state (the message, the send of a
  pending task, and the second send of a task that goes to Batch).\<close>

lemma execution_always_ends:
  assumes "\<not> EAGER (p_settings plat)"
  shows "\<exists>r w'. execute_immediately (Suc (Suc (Suc n))) plat m i w = Some (r, w')"
  using execute_immediately_total [OF assms] by (rule eff_totalE) blast

lemma execution_always_ends_witness:
  "\<exists>r w'. execute_immediately (Suc (Suc (Suc 0))) sample_platform (sample_msg ''app.tasks.order'' [] 0) ''id'' sample_world = Some (r, w')"
proof -
  have "\<not> EAGER (p_settings sample_platform)" by code_simp
  then show ?thesis by (rule execution_always_ends)
qed

text \<open>The bound on nesting does not change what happens: an execution that ends within a bound ends with
  the same result in the same state within every larger one, in every mode.\<close>

lemma nesting_bound_is_immaterial:
  assumes "execute_immediately n plat m i w = Some (r, w')" and "n \<le> k"
  shows "execute_immediately k plat m i w = Some (r, w')"
  using eff_leD [OF execute_mono_le(1) [OF assms(2)] assms(1)] .

lemma nesting_bound_is_immaterial_witness:
  "\<exists>w'. execute_immediately 100 sample_platform (sample_msg ''app.tasks.order'' [] 0) ''id'' sample_world = Some (Inr (), w')"
proof -
  let ?x = "execute_immediately 3 sample_platform (sample_msg ''app.tasks.order'' [] 0) ''id'' sample_world"
  have x: "?x = Some (Inr (), snd (the ?x))" by code_simp
  show ?thesis using nesting_bound_is_immaterial [OF x, of 100] by auto
qed

section \<open>Retries in eager mode\<close>

text \<open>Whatever the state, the code of the task raises \<open>e\<close>.\<close>

definition always_raises :: "'d platform \<Rightarrow> exn \<Rightarrow> 'd prog \<Rightarrow> bool" where
  "always_raises plat e p \<longleftrightarrow>
     (\<forall>ex w. wd_frames w \<noteq> [] \<longrightarrow> (\<exists>w2. run_prog plat ex p w = Some (Inl e, w2)))"

text \<open>The settings and the platform of the chain: eager, no refusals of the database, and identifiers not
  used before.\<close>

definition eager_setting :: "'d platform \<Rightarrow> int \<Rightarrow> bool" where
  "eager_setting plat max_retries \<longleftrightarrow> EAGER (p_settings plat) \<and> NOOP_EXECUTION (p_settings plat) = Inr False
     \<and> MAX_RETRIES (p_settings plat) = Inr max_retries
     \<and> (\<forall>i r. p_create_error plat i r = None) \<and> (\<forall>r. p_save_error plat r = None) \<and> inj (p_uuid4 plat)"

definition fresh_ids :: "'d platform \<Rightarrow> string \<Rightarrow> 'd world \<Rightarrow> bool" where
  "fresh_ids plat i w \<longleftrightarrow> (\<forall>j \<in> insert i (p_uuid4 plat ` {wd_uuids w..}). record_lookup (wd_records w) j = None)
     \<and> i \<notin> p_uuid4 plat ` {wd_uuids w..}"

lemma attempt_fails:
  assumes "attempts plat m i w wr soft hard kw" and "\<not> w_singleton wr"
    and "always_raises plat e (wrapper_call (p_type_ok plat) wr (msg_kwargs m))"
  obtains w1 where "failed_call n plat m i w wr soft hard kw = Some (e, w1)"
proof -
  have "wd_frames (task_start plat (lock_of plat wr m hard) soft hard (begun i m kw w)) \<noteq> []"
    by (simp add: task_start_def)
  with assms(3) obtain w2 where "run_code n plat m i w wr soft hard kw = Some (Inl e, w2)"
    unfolding run_code_def always_raises_def by blast
  with assms(2) that show thesis
    by (simp add: failed_call_def block_error_def Let_def lock_refused_def lock_lost_def lock_of_def)
qed

text \<open>One failed attempt of the chain.\<close>

lemma attempt_retried:
  assumes "attempts plat m i w wr soft hard kw" and "idle w" and "eager_setting plat max_retries"
    and "\<not> w_singleton wr" and "always_raises plat e (wrapper_call (p_type_ok plat) wr (msg_kwargs m))"
    and "retryable wr e" and "msg_n_retries m < max_retries"
  obtains w4 where "wd_records w4 = wd_records w @
        [(i, with_traceback plat RETRIED e (wd_now w4) (fresh_record m kw (wd_now w)))]"
    and "db_rows (wd_db w4) = db_rows (wd_db w)" and "idle w4" and "wd_uuids w4 = Suc (wd_uuids w)"
    and "execute_immediately (Suc (Suc n)) plat m i w =
      map_option (\<lambda>(r, w'). (r, w'\<lparr>wd_log_id := None\<rparr>))
        (execute_immediately n plat (m\<lparr>msg_n_retries := msg_n_retries m + 1\<rparr>) (p_uuid4 plat (wd_uuids w)) w4)"
proof -
  let ?r = "fresh_record m kw (wd_now w)" and ?u = "p_uniform plat (wd_draws w)"
  have se: "\<forall>r. p_save_error plat r = None" "EAGER (p_settings plat)" "NOOP_EXECUTION (p_settings plat) = Inr False"
    "MAX_RETRIES (p_settings plat) = Inr max_retries"
    using assms(3) by (simp_all add: eager_setting_def)
  obtain w1 where f: "failed_call (Suc n) plat m i w wr soft hard kw = Some (e, w1)"
    using attempt_fails [OF assms(1,4,5)] by blast
  obtain w2 where w2: "finish_with_traceback plat i ?r RETRIED e w1 =
      Some (Inr (with_traceback plat RETRIED e (wd_now w1) ?r), w2)"
    and c: "concluded plat m i kw w RETRIED e w2" and l: "wd_log_id w2 = Some i"
    and d: "wd_draws w2 = wd_draws w" and u: "wd_uuids w2 = wd_uuids w"
    by (rule finish_concluded [OF assms(1,2) f spec [OF se(1)], where s = RETRIED and ?w2.0 = w1]) blast+
  let ?l = "LRetrying (cls_name (exn_cls e)) (duration (with_traceback plat RETRIED e (wd_now w1) ?r))"
  let ?w4 = "(add_event (log_event i ?l) w2)\<lparr>wd_draws := Suc (wd_draws w), wd_uuids := Suc (wd_uuids w)\<rparr>"
  have t: "tk_message (retry_task wr m ?u) = m\<lparr>msg_n_retries := msg_n_retries m + 1\<rparr>"
    by (simp add: retry_task_def)
  have "execute_task (Suc n) plat (retry_task wr m ?u) x =
      execute_immediately n plat (m\<lparr>msg_n_retries := msg_n_retries m + 1\<rparr>) (p_uuid4 plat (wd_uuids x))
        (x\<lparr>wd_uuids := Suc (wd_uuids x)\<rparr>)" for x
    by (simp add: execute_task_step_def se(2,3) eff_simps uuid4_def t Let_def del: execute_immediately.simps)
  then have "execute_immediately (Suc (Suc n)) plat m i w =
      map_option (\<lambda>(r, w'). (r, w'\<lparr>wd_log_id := None\<rparr>))
        (execute_immediately n plat (m\<lparr>msg_n_retries := msg_n_retries m + 1\<rparr>) (p_uuid4 plat (wd_uuids w)) ?w4)"
    unfolding execute_immediately_failed [OF assms(1,2) f] handle_error_retryable [OF assms(6)] handle_retry_def
    using c w2 l d u assms(7)
    by (simp add: se(4) eff_simps task_log_at uniform_def on_commit_def concluded_def idle_def add_event_def
        del: execute_immediately.simps execute_task.simps)
  moreover have "wd_records ?w4 = wd_records w @ [(i, with_traceback plat RETRIED e (wd_now ?w4) ?r)]"
    "db_rows (wd_db ?w4) = db_rows (wd_db w)" "idle ?w4" "wd_uuids ?w4 = Suc (wd_uuids w)"
    using c by (simp_all add: concluded_def idle_def record_insert_def)
  ultimately show thesis by (intro that [of ?w4])
qed

lemma resolves_retry: "resolves plat (m\<lparr>msg_n_retries := k\<rparr>) wr soft hard kw = resolves plat m wr soft hard kw"
  by (simp add: resolves_def)

text \<open>The chain that \<open>d\<close> retries make, from its start to its end.\<close>

definition chain_ends :: "'d platform \<Rightarrow> int \<Rightarrow> nat \<Rightarrow> sqs_message \<Rightarrow> string \<Rightarrow> 'd world \<Rightarrow> bool" where
  "chain_ends plat max_retries d m i w \<longleftrightarrow> (\<exists>w' new. execute_immediately (Suc (2 * d)) plat m i w =
      Some (Inl (MaxRetriesExceededError (msg_task_name m) max_retries), w') \<and>
    wd_records w' = wd_records w @ new \<and> map (\<lambda>(k, r). tr_status r) new = replicate d RETRIED @ [FAILED] \<and>
    map fst new = i # map (p_uuid4 plat) [wd_uuids w ..< wd_uuids w + d] \<and>
    db_rows (wd_db w') = db_rows (wd_db w))"

text \<open>The message that ends the chain, or the one before \<open>d\<close> more.\<close>

definition in_chain :: "'d platform \<Rightarrow> int \<Rightarrow> 'd wrapper \<Rightarrow> exn \<Rightarrow> nat \<Rightarrow> sqs_message \<Rightarrow> string \<Rightarrow> 'd world \<Rightarrow> bool" where
  "in_chain plat max_retries wr e d m i w \<longleftrightarrow>
     (\<exists>soft hard kw. resolves plat m wr soft hard kw) \<and>
     always_raises plat e (wrapper_call (p_type_ok plat) wr (msg_kwargs m)) \<and>
     msg_n_retries m = max_retries - int d \<and> idle w \<and> fresh_ids plat i w"

lemma in_chain_attempts:
  assumes "eager_setting plat max_retries" and "\<not> w_singleton wr" and "in_chain plat max_retries wr e d m i w"
  obtains soft hard kw where "attempts plat m i w wr soft hard kw"
  using assms by (auto simp: in_chain_def attempts_def eager_setting_def fresh_ids_def)

lemma chain_base:
  assumes es: "eager_setting plat max_retries" and ns: "\<not> w_singleton wr" and rt: "retryable wr e"
    and c: "in_chain plat max_retries wr e 0 m i w"
  shows "chain_ends plat max_retries 0 m i w"
proof -
  obtain soft hard kw where a: "attempts plat m i w wr soft hard kw" using es ns c by (rule in_chain_attempts)
  have s: "\<forall>r. p_save_error plat r = None" "MAX_RETRIES (p_settings plat) = Inr max_retries"
    using es by (simp_all add: eager_setting_def)
  have r: "always_raises plat e (wrapper_call (p_type_ok plat) wr (msg_kwargs m))" "msg_n_retries m = max_retries" "idle w"
    using c by (simp_all add: in_chain_def)
  obtain w1 where f: "failed_call 0 plat m i w wr soft hard kw = Some (e, w1)"
    using attempt_fails [OF a ns r(1)] by blast
  obtain w' where "execute_immediately (Suc 0) plat m i w =
      Some (Inl (MaxRetriesExceededError (msg_task_name m) (msg_n_retries m)), w')"
    "concluded plat m i kw w FAILED e w'"
    using max_retries_chain_end [OF a r(3) f rt s(2) _ s(1)] r(2) by auto
  then show ?thesis
    unfolding chain_ends_def using r(2)
    by (intro exI [of _ w'] exI [of _ "[(i, with_traceback plat FAILED e (wd_now w') (fresh_record m kw (wd_now w)))]"])
      (simp add: concluded_def record_insert_def with_traceback_def del: execute_immediately.simps)
qed

lemma chain_step:
  assumes es: "eager_setting plat max_retries" and ns: "\<not> w_singleton wr" and rt: "retryable wr e"
    and c: "in_chain plat max_retries wr e (Suc d) m i w"
    and rest: "\<And>m i w. in_chain plat max_retries wr e d m i w \<Longrightarrow> chain_ends plat max_retries d m i w"
  shows "chain_ends plat max_retries (Suc d) m i w"
proof -
  obtain soft hard kw where a: "attempts plat m i w wr soft hard kw" using es ns c by (rule in_chain_attempts)
  have r: "always_raises plat e (wrapper_call (p_type_ok plat) wr (msg_kwargs m))" "msg_n_retries m < max_retries" "idle w"
    using c by (simp_all add: in_chain_def)
  let ?m = "m\<lparr>msg_n_retries := msg_n_retries m + 1\<rparr>" and ?i = "p_uuid4 plat (wd_uuids w)"
  obtain w4 where w4: "wd_records w4 = wd_records w @
        [(i, with_traceback plat RETRIED e (wd_now w4) (fresh_record m kw (wd_now w)))]"
    "db_rows (wd_db w4) = db_rows (wd_db w)" "idle w4" "wd_uuids w4 = Suc (wd_uuids w)"
    and x: "execute_immediately (Suc (Suc (Suc (2 * d)))) plat m i w =
      map_option (\<lambda>(r, w'). (r, w'\<lparr>wd_log_id := None\<rparr>)) (execute_immediately (Suc (2 * d)) plat ?m ?i w4)"
    using attempt_retried [OF a r(3) es ns r(1) rt r(2), of "Suc (2 * d)"] by blast
  have "fresh_ids plat ?i w4"
    using c es w4(1,4)
    by (auto simp: in_chain_def eager_setting_def fresh_ids_def record_lookup_def map_add_def inj_eq split: option.splits)
  then have "in_chain plat max_retries wr e d ?m ?i w4" using c w4(3) by (auto simp: in_chain_def resolves_retry)
  then obtain w' new where IH: "execute_immediately (Suc (2 * d)) plat ?m ?i w4 =
      Some (Inl (MaxRetriesExceededError (msg_task_name m) max_retries), w')"
    "wd_records w' = wd_records w4 @ new" "map (\<lambda>(k, r). tr_status r) new = replicate d RETRIED @ [FAILED]"
    "map fst new = ?i # map (p_uuid4 plat) [wd_uuids w4 ..< wd_uuids w4 + d]"
    "db_rows (wd_db w') = db_rows (wd_db w4)"
    using rest [of ?m ?i w4] by (auto simp: chain_ends_def simp del: execute_immediately.simps)
  let ?new = "(i, with_traceback plat RETRIED e (wd_now w4) (fresh_record m kw (wd_now w))) # new"
  have "[wd_uuids w ..< wd_uuids w + Suc d] = wd_uuids w # [wd_uuids w4 ..< wd_uuids w4 + d]"
    using w4(4) by (simp add: upt_conv_Cons del: upt_Suc)
  then have "map fst ?new = i # map (p_uuid4 plat) [wd_uuids w ..< wd_uuids w + Suc d]" using IH(4) by simp
  moreover have "map (\<lambda>(k, r). tr_status r) ?new = replicate (Suc d) RETRIED @ [FAILED]"
    using IH(3) by (simp add: with_traceback_def)
  ultimately show ?thesis
    unfolding chain_ends_def using x IH(1,2,5) w4(1,2)
    by (intro exI [of _ "w'\<lparr>wd_log_id := None\<rparr>"] exI [of _ ?new]) (simp del: execute_immediately.simps upt_Suc)
qed

text \<open>C19. In eager mode the retries run in the same process, one inside the other, and the chain ends.  A
  task that always raises a retryable exception, started with \<open>d\<close> retries left, is attempted
  \<open>d + 1\<close> times: each attempt leaves its own record, under its own id, the first \<open>d\<close> of them RETRIED
  and the last FAILED, the application's rows are untouched, and the caller gets
  \<open>MaxRetriesExceededError\<close>.  A nesting of \<open>2 d + 1\<close> is enough.\<close>

theorem eager_retry_chain_ends:
  assumes "eager_setting plat max_retries" and "resolves plat m wr soft hard kw" and "\<not> w_singleton wr"
    and "always_raises plat e (wrapper_call (p_type_ok plat) wr (msg_kwargs m))" and "retryable wr e"
    and "msg_n_retries m = max_retries - int d" and "idle w" and "fresh_ids plat i w"
  shows "\<exists>w' new. execute_immediately (Suc (2 * d)) plat m i w =
      Some (Inl (MaxRetriesExceededError (msg_task_name m) max_retries), w') \<and>
    wd_records w' = wd_records w @ new \<and> map (\<lambda>(k, r). tr_status r) new = replicate d RETRIED @ [FAILED] \<and>
    map fst new = i # map (p_uuid4 plat) [wd_uuids w ..< wd_uuids w + d] \<and>
    db_rows (wd_db w') = db_rows (wd_db w)"
proof -
  have "in_chain plat max_retries wr e d m i w \<Longrightarrow> chain_ends plat max_retries d m i w"
  proof (induction d arbitrary: m i w)
    case 0
    then show ?case by (rule chain_base [OF assms(1,3,5)])
  next
    case (Suc d)
    show ?case by (rule chain_step [OF assms(1,3,5) Suc.prems Suc.IH])
  qed
  then show ?thesis using assms(2,4,6-8) by (auto simp: in_chain_def chain_ends_def)
qed

definition eager_platform :: "nat platform" where
  "eager_platform = sample_platform\<lparr>p_settings := sample_settings\<lparr>dj_eager := Some (PBool True)\<rparr>\<rparr>"

theorem eager_retry_chain_ends_witness:
  "\<exists>w' new. execute_immediately 5 eager_platform (sample_msg ''app.tasks.flaky'' [] 0) ''id'' sample_world =
      Some (Inl (MaxRetriesExceededError ''app.tasks.flaky'' 2), w') \<and>
    wd_records w' = new \<and> map (\<lambda>(k, r). tr_status r) new = [RETRIED, RETRIED, FAILED] \<and>
    map fst new = [''id'', ''u'', ''uu''] \<and> db_rows (wd_db w') = 0"
proof -
  let ?m = "sample_msg ''app.tasks.flaky'' [] 0" and ?wr = "sample_wrapper ''app.tasks.flaky''"
  have u: "p_uuid4 eager_platform n = replicate (Suc n) CHR ''u''" for n
    by (simp add: eager_platform_def sample_platform_def)
  have "inj (p_uuid4 eager_platform)"
  proof (rule injI)
    fix x y assume "p_uuid4 eager_platform x = p_uuid4 eager_platform y"
    then have "length (p_uuid4 eager_platform x) = length (p_uuid4 eager_platform y)" by simp
    then show "x = y" by (simp add: u)
  qed
  moreover have "EAGER (p_settings eager_platform)" "NOOP_EXECUTION (p_settings eager_platform) = Inr False"
    "MAX_RETRIES (p_settings eager_platform) = Inr 2" by code_simp+
  ultimately have s: "eager_setting eager_platform 2"
    by (simp add: eager_setting_def) (simp add: eager_platform_def sample_platform_def)
  have "resolved_timeouts (p_settings eager_platform) ?wr = Inr (270, 300)" by code_simp
  then have r: "resolves eager_platform ?m ?wr 270 300 []"
    using flaky_ready [of 0] by (simp add: resolves_def resolve_wrapper_def eager_platform_def)
  have a: "always_raises eager_platform timeout_connection (wrapper_call (p_type_ok eager_platform) ?wr (msg_kwargs ?m))"
    by (simp add: always_raises_def wrapper_call_def call_function_def flaky_wrapper kwargs_model_validate_def sample_msg_def flaky_fn_def
        sample_fn_def add_row_def eff_simps res_check_def)
  have f: "fresh_ids eager_platform ''id'' sample_world"
    by (auto simp: fresh_ids_def u sample_world_def record_lookup_def)
  have o: "\<not> w_singleton ?wr" "retryable ?wr timeout_connection" "idle sample_world"
    "wd_uuids sample_world = 0" "wd_records sample_world = []" "db_rows (wd_db sample_world) = 0" by code_simp+
  have m: "msg_n_retries ?m = 2 - int 2" "msg_task_name ?m = ''app.tasks.flaky''" by (simp_all add: sample_msg_def)
  show ?thesis
    using eager_retry_chain_ends [OF s r o(1) a o(2) m(1) o(3) f] unfolding o(4-6) m(2)
    by (simp add: u numeral_2_eq_2 del: execute_immediately.simps) (simp add: eval_nat_numeral del: execute_immediately.simps)
qed

end
