(* ===== verification/Config_Props.thy ===== *)
theory Config_Props
  imports Bounds_Props
begin

text \<open>
  Properties of decoration, of the settings and of the messages a call builds.
\<close>

section \<open>Decoration\<close>


text \<open>The limits a task runs with are sane: positive, the soft one below the hard one, the hard one
  at most 900 seconds on an SQS queue and 3600 on a Batch queue, whether they come from the decorator
  or from the settings.  Settings that break this are refused before any record is written.\<close>

lemma resolved_limits_are_sane:
  assumes "wrapper_ok wr" and "resolved_timeouts dj wr = Inr (soft, hard)"
  shows "\<exists>queues config. QUEUES dj = Inr queues \<and> map_of queues (w_queue wr) = Some config \<and>
    0 < soft \<and> soft < hard \<and> hard \<le> (case config of SQSQueueConfig u \<Rightarrow> 900 | BatchQueueConfig q d \<Rightarrow> 3600)"
proof -
  obtain mx where m: "queue_max_timeout dj (w_queue wr) = Inr mx" and b: "0 < soft" "soft < hard" "hard \<le> mx"
    using resolved_timeouts_Inr [OF assms] by blast
  from m b show ?thesis
    by (auto simp: queue_max_timeout_def get_queue_def MAX_TIMEOUT_def MAX_BATCH_TIMEOUT_def elim!: res_bind_InrE
        split: option.split_asm queue_config.split_asm)
qed

lemma resolved_limits_are_sane_witness:
  "\<exists>queues config. QUEUES sample_settings = Inr queues \<and> map_of queues ''default'' = Some config \<and>
    (270::int) < 300 \<and> 300 \<le> (case config of SQSQueueConfig u \<Rightarrow> (900::int) | BatchQueueConfig q d \<Rightarrow> 3600)"
proof -
  have h: "\<not> isl (LambdaTaskWrapper stubborn_fn default_options)"
    "resolved_timeouts sample_settings (decorated stubborn_fn) = Inr (270, 300)"
    "w_queue (decorated stubborn_fn) = ''default''"
    by code_simp+
  show ?thesis using resolved_limits_are_sane [OF decorated_ok(1) [OF h(1)] h(2)] unfolding h(3) by simp
qed

section \<open>One call\<close>

text \<open>C35. A call of \<open>execute_on_commit\<close> that is accepted yields a task SQS can carry: the delay is between
  0 and 900 seconds, the retry count is not negative, the name is the one the worker imports, the
  queue is the task's own, and the arguments, without \<open>_delay\<close> and \<open>_n_retries\<close>, fit the signature.\<close>

theorem built_task_is_valid:
  assumes "lax_int_spec li" and "build_task type_ok li wr kw = Inr t"
  shows "0 \<le> tk_delay t \<and> tk_delay t \<le> 900 \<and> 0 \<le> msg_n_retries (tk_message t) \<and> tk_queue t = w_queue wr \<and>
    msg_task_name (tk_message t) = fn_module (w_func wr) @ ''.'' @ fn_qualname (w_func wr) \<and>
    kwargs_model_validate type_ok (w_kwargs_model wr) (msg_kwargs (tk_message t)) = Inr () \<and>
    (\<forall>k v. (k, v) \<in> set (msg_kwargs (tk_message t)) \<longrightarrow> (k, v) \<in> set kw)"
proof -
  let ?d = "fst (kwargs_pop (snd (kwargs_pop kw ''_n_retries'' (PInt 0))) ''_delay'' (PInt 0))"
  from assms(2) show ?thesis
  proof (rule build_task_Inr)
    assume d: "validate_delay ?d = Inr ()" "li ?d = Inr (tk_delay t)"
      and k: "msg_kwargs (tk_message t) = snd (kwargs_pop (snd (kwargs_pop kw ''_n_retries'' (PInt 0))) ''_delay'' (PInt 0))"
      and r: "tk_queue t = w_queue wr" "0 \<le> msg_n_retries (tk_message t)"
        "msg_task_name (tk_message t) = fn_module (w_func wr) @ ''.'' @ fn_qualname (w_func wr)"
        "kwargs_model_validate type_ok (w_kwargs_model wr) (msg_kwargs (tk_message t)) = Inr ()"
    have o: "delay_outside ?d = Inr False"
      using d(1) by (auto simp: validate_delay_def res_check_def elim!: res_bind_InrE split: if_splits)
    have pop: "set (snd (kwargs_pop kw' x dv)) \<subseteq> set kw'" for kw' :: kwargs and x dv
      by (auto simp: kwargs_pop_def AList.delete_eq split: option.split)
    then have "set (msg_kwargs (tk_message t)) \<subseteq> set kw" unfolding k by blast
    moreover have "0 \<le> tk_delay t" "tk_delay t \<le> 900"
      using delay_in_range [OF assms(1) o d(2)] by (simp_all add: MAX_DELAY_def)
    ultimately show ?thesis using r by auto
  qed
qed

theorem built_task_is_valid_witness:
  "\<exists>t. build_task sample_type_ok lax_int_instance (sample_wrapper ''example_app.tasks.greet'')
      [(''name'', PStr ''Ada''), (''_delay'', PInt 900)] = Inr t \<and> tk_delay t \<le> 900"
proof -
  let ?b = "build_task sample_type_ok lax_int_instance (sample_wrapper ''example_app.tasks.greet'')
      [(''name'', PStr ''Ada''), (''_delay'', PInt 900)]"
  have b: "?b = Inr (projr ?b)" by code_simp
  show ?thesis using built_task_is_valid [OF lax_int_instance_spec b] b by blast
qed

text \<open>\<open>serialize\<close> loses nothing: what it returns validates back, through \<open>SQSLambdaTask\<close>, to the same
  task with the arguments in their JSON form, delay, queue and retry count included.\<close>

lemma serialized_task_round_trips:
  assumes "lax_int_spec li" and "serialize type_ok li to_jsonable wr kw = Inr raw"
  shows "\<exists>t kwj. build_task type_ok li wr kw = Inr t \<and> to_jsonable (msg_kwargs (tk_message t)) = Inr kwj \<and>
    SQSLambdaTask_validate li raw = Inr (t\<lparr>tk_message := (tk_message t)\<lparr>msg_kwargs := kwj\<rparr>\<rparr>)"
proof -
  from assms(2) obtain t kwj where t: "build_task type_ok li wr kw = Inr t"
    and k: "to_jsonable (msg_kwargs (tk_message t)) = Inr kwj"
    and raw: "raw = SQSLambdaTask_dump (t\<lparr>tk_message := (tk_message t)\<lparr>msg_kwargs := kwj\<rparr>\<rparr>)"
    by (auto simp: serialize_def elim!: res_bind_InrE)
  have "0 \<le> msg_n_retries (tk_message t)" using t by (rule build_task_Inr)
  then have "SQSLambdaTask_validate li raw = Inr (t\<lparr>tk_message := (tk_message t)\<lparr>msg_kwargs := kwj\<rparr>\<rparr>)"
    unfolding raw using assms(1) by (intro SQSLambdaTask_validate_dump) (simp_all add: lax_int_spec_def)
  with t k show ?thesis by blast
qed

lemma serialized_task_round_trips_witness:
  "\<exists>raw. serialize sample_type_ok lax_int_instance Inr (sample_wrapper ''example_app.tasks.greet'') [(''name'', PStr ''Ada'')] = Inr raw \<and>
    SQSLambdaTask_validate lax_int_instance raw = Inr greet_task"
proof -
  let ?s = "serialize sample_type_ok lax_int_instance Inr (sample_wrapper ''example_app.tasks.greet'') [(''name'', PStr ''Ada'')]"
  have s: "?s = Inr (projr ?s)" and b: "build_task sample_type_ok lax_int_instance
      (sample_wrapper ''example_app.tasks.greet'') [(''name'', PStr ''Ada'')] = Inr greet_task"
    by code_simp+
  from serialized_task_round_trips [OF lax_int_instance_spec s] b s show ?thesis by auto
qed

text \<open>A message survives its journey as text: if the JSON text that was sent parses back to the
  document it was printed from, the worker validates it to the very message that was sent.\<close>

lemma message_text_round_trips:
  assumes "message_to_json to_json m = Inr s" and "from_json s = Inr (PDict (SQSLambdaTaskMessage_dump m))"
    and "lax_int_spec li" and "0 \<le> msg_n_retries m"
  shows "message_from_json from_json li s = Inr m"
  using assms SQSLambdaTaskMessage_validate_dump [of li m]
  by (simp add: message_from_json_def lax_int_spec_def)

lemma message_text_round_trips_witness:
  "message_from_json sample_from_json lax_int_instance ''text of greet'' = Inr (tk_message greet_task)"
proof -
  have h: "message_to_json sample_to_json (tk_message greet_task) = Inr ''text of greet''"
    "sample_from_json ''text of greet'' = Inr (PDict (SQSLambdaTaskMessage_dump (tk_message greet_task)))"
    "0 \<le> msg_n_retries (tk_message greet_task)"
    by code_simp+
  show ?thesis
    using message_text_round_trips [where to_json = sample_to_json and from_json = sample_from_json and
        m = "tk_message greet_task" and s = "''text of greet''" and li = lax_int_instance]
      h lax_int_instance_spec by simp
qed

section \<open>Settings\<close>

text \<open>The execution modes exclude one another: settings that can be read select at most one of noop,
  eager and local workers.\<close>

lemma modes_exclude_one_another:
  assumes "NOOP_EXECUTION dj = Inr noop" and "LOCAL_WORKERS dj = Inr workers"
  shows "\<not> (noop \<and> EAGER dj) \<and> \<not> (0 < workers \<and> EAGER dj) \<and> \<not> (noop \<and> 0 < workers) \<and> 0 \<le> workers"
proof -
  have "noop \<Longrightarrow> \<not> EAGER dj \<and> workers \<le> 0"
    using NOOP_EXECUTION_True [of dj] assms by (auto simp: LOCAL_WORKERS_def res_bind_Inr_iff split: if_splits)
  moreover have "0 < workers \<Longrightarrow> \<not> EAGER dj" "0 \<le> workers" using LOCAL_WORKERS_Inr assms(2) by blast+
  ultimately show ?thesis by auto
qed

lemma modes_exclude_one_another_witness:
  "\<not> (0 < (2::int) \<and> EAGER example_settings)"
proof -
  have "NOOP_EXECUTION example_settings = Inr False" "LOCAL_WORKERS example_settings = Inr 2" by code_simp+
  then show ?thesis using modes_exclude_one_another by blast
qed

text \<open>The queues that can be used: \<open>LAMBDA_TASKS_QUEUES\<close> is accepted exactly when it is defined, not
  empty, every entry is an SQS or a Batch configuration, and \<open>default\<close> is an SQS queue.  The result
  has the same queues in the same order.\<close>

lemma queues_accepted_exactly:
  "(QUEUES dj = Inr queues) =
   (\<exists>raw url. dj_queues dj = Some raw \<and> map fst queues = map fst raw \<and>
      list_all2 (\<lambda>(name, v) (name', c). parse_queue_config name v = Inr c) raw queues \<and>
      map_of queues ''default'' = Some (SQSQueueConfig url))"
proof -
  have m: "(res_map (\<lambda>(name, v). res_bind (parse_queue_config name v) (\<lambda>c. Inr (name, c))) raw = Inr queues) =
      (map fst queues = map fst raw \<and> list_all2 (\<lambda>(name, v) (name', c). parse_queue_config name v = Inr c) raw queues)"
    for raw
  proof (induction raw arbitrary: queues)
    case (Cons p raw)
    then show ?case by (cases p; cases queues) (auto simp: res_bind_Inr_iff)
  qed auto
  show ?thesis
  proof
    assume q: "QUEUES dj = Inr queues"
    then obtain raw u where "dj_queues dj = Some raw" "map_of queues ''default'' = Some (SQSQueueConfig u)"
      by (rule QUEUES_Inr)
    with q show "\<exists>raw url. dj_queues dj = Some raw \<and> map fst queues = map fst raw \<and>
      list_all2 (\<lambda>(name, v) (name', c). parse_queue_config name v = Inr c) raw queues \<and>
      map_of queues ''default'' = Some (SQSQueueConfig url)"
      by (auto simp: QUEUES_def m elim!: res_bind_InrE split: option.split_asm queue_config.split_asm)
  next
    assume "\<exists>raw url. dj_queues dj = Some raw \<and> map fst queues = map fst raw \<and>
      list_all2 (\<lambda>(name, v) (name', c). parse_queue_config name v = Inr c) raw queues \<and>
      map_of queues ''default'' = Some (SQSQueueConfig url)"
    then obtain raw url where r: "dj_queues dj = Some raw" "map fst queues = map fst raw"
      "list_all2 (\<lambda>(name, v) (name', c). parse_queue_config name v = Inr c) raw queues"
      "map_of queues ''default'' = Some (SQSQueueConfig url)" by blast
    have "''default'' \<in> set (map fst raw)"
      using r(4) unfolding r(2) [symmetric] by (auto dest!: map_of_SomeD intro: rev_image_eqI)
    moreover from this have "raw \<noteq> []" by auto
    ultimately show "QUEUES dj = Inr queues"
      using r m [of raw] by (simp add: QUEUES_def res_check_def)
  qed
qed

text \<open>A project that does not define \<open>LAMBDA_TASKS_QUEUES\<close> at all does not get the
  \<open>ImproperlyConfigured\<close> of the other mistakes but an \<open>AttributeError\<close>: the setting is read without a
  default.\<close>

lemma undefined_queues_raise_attribute_error:
  "QUEUES (dj\<lparr>dj_queues := None\<rparr>) = Inl (Exn AttributeError_cls ''LAMBDA_TASKS_QUEUES'' []) \<and>
   \<not> isinstance (Exn AttributeError_cls ''LAMBDA_TASKS_QUEUES'' []) ImproperlyConfigured_cls"
  by (simp add: QUEUES_def class_simps)

end
