(* ===== verification/Cleanup_Props.thy ===== *)
theory Cleanup_Props
  imports Config_Props
begin

text \<open>
  The life of a \<open>cleanup_task_records\<close> message, from its delivery to the table it leaves.
\<close>

text \<open>The argument, or the default of the parameter.\<close>

definition requested_retention :: "kwargs \<Rightarrow> int res" where
  "requested_retention kwargs =
     (case map_of kwargs ''retention_days'' of None \<Rightarrow> Inr 7 | Some v \<Rightarrow> timedelta_days v)"

text \<open>The records that did not start before the cut-off; one without a start time is kept.\<close>

definition kept_records :: "int \<Rightarrow> record_table \<Rightarrow> record_table" where
  "kept_records cutoff tbl = filter (\<lambda>(k, r). case tr_start_time r of None \<Rightarrow> True | Some s \<Rightarrow> cutoff \<le> s) tbl"

lemma kept_records_started: "kept_records cutoff tbl = filter (\<lambda>(k, r). \<not> started_before cutoff r) tbl"
proof -
  have "(case tr_start_time r of None \<Rightarrow> True | Some s \<Rightarrow> cutoff \<le> s) = (\<not> started_before cutoff r)" for r
    by (simp add: started_before_def not_less split: option.split)
  then show ?thesis by (simp add: kept_records_def)
qed

lemma cleanup_wrapper_facts:
  assumes "cleanup_task_records = Inr wr"
  shows "wrapper_ok wr" and "w_func wr = cleanup_task_records_fn" and "w_retry_on wr = []" and "\<not> w_singleton wr"
proof -
  note wr = assms [unfolded cleanup_task_records_def]
  show "wrapper_ok wr" "w_func wr = cleanup_task_records_fn"
    using LambdaTaskWrapper_ok [OF wr] by simp_all
  show "w_retry_on wr = []" "\<not> w_singleton wr"
    using wr by (auto simp: LambdaTaskWrapper_def default_options_def elim!: res_bind_InrE)
qed

lemma cleanup_code:
  assumes "cleanup_task_records = Inr wr"
    and "kwargs_model_validate type_ok (w_kwargs_model wr) kwargs = Inr ()" and "requested_retention kwargs = Inr days"
    and "cleanup_cutoff (wd_now w) days = Inr cutoff"
  shows "run_prog plat ex (wrapper_call type_ok wr kwargs) w =
    Some (Inr (PInt (int (length (wd_records w) - length (kept_records cutoff (wd_records w))))),
          set_records (kept_records cutoff (wd_records w)) w)"
proof -
  note wr = cleanup_wrapper_facts [OF assms(1)]
  have c: "wrapper_call type_ok wr kwargs = cleanup_task_records_code kwargs"
    using wrapper_call_valid [OF wr(1) assms(2)] by (simp add: wr(2)) (simp add: cleanup_task_records_fn_def)
  have l: "length (filter (\<lambda>(k, r). started_before cutoff r) tbl) = length tbl - length (kept_records cutoff tbl)" for tbl
    using sum_length_filter_compl [of "\<lambda>(k, r). \<not> started_before cutoff r" tbl]
    by (simp add: kept_records_started case_prod_unfold)
  show ?thesis
    using assms(3,4) unfolding c cleanup_task_records_code_def requested_retention_def
    by (simp add: eff_simps l) (simp add: kept_records_started set_records_def)
qed

text \<open>The same, inside the transaction of the message.\<close>

lemma cleanup_run:
  assumes "cleanup_task_records = Inr wr" and a: "attempts plat m i w wr soft hard kw"
    and "kwargs_model_validate (p_type_ok plat) (w_kwargs_model wr) (msg_kwargs m) = Inr ()"
    and "requested_retention (msg_kwargs m) = Inr days" and "cleanup_cutoff (wd_now w) days = Inr cutoff"
  defines "own \<equiv> (i, fresh_record m kw (wd_now w))"
  shows "\<exists>w2. run_code n plat m i w wr soft hard kw =
      Some (Inr (PInt (int (Suc (length (wd_records w)) - length (kept_records cutoff (wd_records w @ [own]))))), w2) \<and>
    wd_db w2 = (wd_db w)\<lparr>db_records := kept_records cutoff (wd_records w @ [own])\<rparr> \<and>
    wd_hooks w2 = wd_hooks w \<and> wd_now w2 = wd_now w"
proof -
  let ?w1 = "task_start plat (lock_of plat wr m hard) soft hard (begun i m kw w)"
  have w1: "wd_now ?w1 = wd_now w" "wd_records ?w1 = wd_records w @ [own]" "wd_hooks ?w1 = wd_hooks w"
    "(wd_db ?w1)\<lparr>db_records := t\<rparr> = (wd_db w)\<lparr>db_records := t\<rparr>" for t
    by (simp_all add: task_start_def record_insert_def own_def)
  have "cleanup_cutoff (wd_now ?w1) days = Inr cutoff" using assms(5) by (simp add: task_start_def)
  from cleanup_code [OF assms(1,3,4) this, of plat "execute_task n plat"]
  show ?thesis unfolding run_code_def w1(2) using w1 by (simp add: set_records_def)
qed

lemma kept_records_lookup: "record_lookup tbl i = None \<Longrightarrow> record_lookup (kept_records c tbl) i = None"
  by (auto simp: record_lookup_def kept_records_started map_of_eq_None_iff)

text \<open>C39. A clean-up keeps what it says.  A delivered message of \<open>cleanup_task_records\<close> for at least one day
  deletes the records that started more than that many days ago, whatever their status, and no other
  row of any table; its own record, which it might have taken for one of them, says SUCCEEDED with the
  number of records deleted, and nothing is sent.\<close>

theorem cleanup_message_deletes_the_old:
  assumes "cleanup_task_records = Inr wr" and "attempts plat m i w wr soft hard kw" and "idle w"
    and "kwargs_model_validate (p_type_ok plat) (w_kwargs_model wr) (msg_kwargs m) = Inr ()"
    and "requested_retention (msg_kwargs m) = Inr days" and "0 < days"
    and "cleanup_cutoff (wd_now w) days = Inr cutoff"
    and "\<forall>tr db. p_commit_error plat tr db = None" and "\<forall>tr k. p_lock_exit plat tr k = None"
    and "\<forall>r. p_save_error plat r = None"
  shows "\<exists>w'. execute_immediately (Suc n) plat m i w = Some (Inr (), w') \<and> cutoff = wd_now w - days * 86400 \<and>
    wd_db w' = (wd_db w)\<lparr>db_records := record_insert i
      (with_result (PInt (int (length (wd_records w) - length (kept_records cutoff (wd_records w))))) (wd_now w)
         (fresh_record m kw (wd_now w)))
      (kept_records cutoff (wd_records w))\<rparr> \<and>
    sends w' = sends w"
proof -
  let ?own = "fresh_record m kw (wd_now w)" and ?kept = "kept_records cutoff (wd_records w)"
  have cutoff: "cutoff = wd_now w - days * 86400"
    using assms(7) by (auto simp: cleanup_cutoff_def Let_def split: if_splits)
  then have "\<not> started_before cutoff ?own" using assms(6) by (simp add: started_before_def fresh_record_def)
  then have k: "kept_records cutoff (wd_records w @ [(i, ?own)]) = record_insert i ?own ?kept"
    by (simp add: kept_records_started record_insert_def)
  have "record_lookup (wd_records w) i = None" using assms(2) by (simp add: attempts_def)
  note row = kept_records_lookup [OF this, of cutoff]
  obtain w2 where w2: "run_code n plat m i w wr soft hard kw =
      Some (Inr (PInt (int (length (wd_records w) - length ?kept))), w2)"
    "wd_db w2 = (wd_db w)\<lparr>db_records := record_insert i ?own ?kept\<rparr>" "wd_hooks w2 = []" "wd_now w2 = wd_now w"
    using cleanup_run [OF assms(1,2,4,5,7), of n] assms(3) unfolding k by (auto simp: idle_def record_insert_def)
  have l: "lock_refused plat (lock_of plat wr m hard) (begun i m kw w) = None"
    using cleanup_wrapper_facts(4) [OF assms(1)] by (simp add: lock_of_def lock_refused_def)
  have r: "record_lookup (wd_records w2) i = Some ?own" using row by (simp add: w2(2) record_lookup_insert)
  have h: "eff_each (execute_task n plat) (wd_hooks w2) (task_end plat (begun i m kw w) w2) =
      Some (Inr (), (task_end plat (begun i m kw w) w2)\<lparr>wd_trace := wd_trace w2 @ []\<rparr>)"
    by (simp add: w2(3) task_end_def eff_simps)
  from committed_at [OF assms(2,3) l w2(1) spec [OF spec [OF assms(8)]] r h assms(9,10)]
  obtain w' where w': "execute_immediately (Suc n) plat m i w = Some (Inr (), w')" "sends w' = sends w"
    "wd_db w' = (wd_db w2)\<lparr>db_records := record_update i
       (with_result (PInt (int (length (wd_records w) - length ?kept))) (wd_now w2)) (wd_records w2)\<rparr>"
    by auto
  have "wd_db w' = (wd_db w)\<lparr>db_records := record_insert i
      (with_result (PInt (int (length (wd_records w) - length ?kept))) (wd_now w) ?own) ?kept\<rparr>"
    unfolding w'(3) w2(2,4) by (simp add: record_update_inserted [OF row])
  with w'(1,2) cutoff show ?thesis by blast
qed

text \<open>The sample table eight days later, when a clean-up for the last seven is delivered.\<close>

definition seen_world :: "nat world" where
  "seen_world = snd (the (execute_immediately 3 sample_platform (sample_msg ''app.tasks.order'' [] 0) ''id'' sample_world))"

definition old_world :: "nat world" where
  "old_world = seen_world\<lparr>wd_now := 1000 + 8 * 86400\<rparr>"

definition cleanup_platform :: "nat platform" where
  "cleanup_platform = sample_platform\<lparr>p_import_string := \<lambda>name. res_bind cleanup_task_records (\<lambda>wr. Inr (ImpWrapper wr))\<rparr>"

abbreviation cleanup_msg :: "int \<Rightarrow> sqs_message" where
  "cleanup_msg days \<equiv> sample_msg ''lambda_tasks.tasks.cleanup_task_records'' [(''retention_days'', PInt days)] 0"

lemma cleanup_platform_facts:
  "\<forall>tr db. p_commit_error cleanup_platform tr db = None" "\<forall>tr k. p_lock_exit cleanup_platform tr k = None"
  "\<forall>r. p_save_error cleanup_platform r = None"
  by (simp_all add: cleanup_platform_def sample_platform_def)

lemma cleanup_platform_attempts:
  assumes "resolved_timeouts sample_settings (projr cleanup_task_records :: nat wrapper) = Inr (270, 300)"
    and "\<not> isl (cleanup_task_records :: nat wrapper res)" and "record_lookup (wd_records w) i = None"
  shows "attempts cleanup_platform (cleanup_msg days) i w (projr cleanup_task_records) 270 300 [(''retention_days'', PInt days)]"
  using assms sum.collapse(2) [OF assms(2)]
  by (auto simp: attempts_def resolves_def resolve_wrapper_def cleanup_platform_def sample_platform_def sample_msg_def
      res_bind_def split: sum.split)

theorem cleanup_message_deletes_the_old_witness:
  "\<exists>w'. execute_immediately (Suc 3) cleanup_platform (cleanup_msg 7) ''clean'' old_world = Some (Inr (), w') \<and>
    wd_records w' = [(''clean'', with_result (PInt 1) 692200
      (fresh_record (cleanup_msg 7) [(''retention_days'', PInt 7)] 692200))]"
proof -
  let ?wr = "projr cleanup_task_records :: nat wrapper"
  have h: "resolved_timeouts sample_settings ?wr = Inr (270, 300)" "\<not> isl (cleanup_task_records :: nat wrapper res)"
    "record_lookup (wd_records old_world) ''clean'' = None" "idle old_world"
    "kwargs_model_validate (p_type_ok cleanup_platform) (w_kwargs_model ?wr) (msg_kwargs (cleanup_msg 7)) = Inr ()"
    "requested_retention (msg_kwargs (cleanup_msg 7)) = Inr 7" "0 < (7::int)"
    "cleanup_cutoff (wd_now old_world) 7 = Inr 87400" "wd_now old_world = 692200"
    "kept_records 87400 (wd_records old_world) = []" "length (wd_records old_world) = 1"
    by code_simp+
  note a = cleanup_platform_attempts [OF h(1-3)]
  show ?thesis
    using cleanup_message_deletes_the_old [OF sum.collapse(2) [OF h(2), symmetric] a h(4-8) cleanup_platform_facts, of 3]
    unfolding h(9-11) by (auto simp: record_insert_def)
qed

text \<open>A retention that is not positive is not refused, but the task then deletes the record of its own
  message (with a clock of seconds, if the retention is negative): the outcome cannot be saved,
  the message is reported as failed, and, since its record is gone, each delivery repeats it.\<close>

lemma finish_with_result_gone:
  "p_save_error plat (with_result v (wd_now w) r) = None \<Longrightarrow> record_lookup (wd_records w) pk = None \<Longrightarrow>
   finish_with_result plat pk r v w =
     Some (Inl (Exn DatabaseError_cls ''Save with update_fields did not affect any rows.'' []), w)"
  by (simp add: finish_with_result_def eff_simps save_record_def with_result_def Let_def)

lemma cleanup_deletes_its_own_record:
  assumes "cleanup_task_records = Inr wr" and "attempts plat m i w wr soft hard kw" and "idle w"
    and "kwargs_model_validate (p_type_ok plat) (w_kwargs_model wr) (msg_kwargs m) = Inr ()"
    and "requested_retention (msg_kwargs m) = Inr days" and "days < 0"
    and "cleanup_cutoff (wd_now w) days = Inr cutoff"
    and "\<forall>tr db. p_commit_error plat tr db = None" and "\<forall>tr k. p_lock_exit plat tr k = None"
    and "\<forall>r. p_save_error plat r = None"
  shows "\<exists>w'. execute_immediately (Suc n) plat m i w =
      Some (Inl (Exn DatabaseError_cls ''Save with update_fields did not affect any rows.'' []), w') \<and>
    wd_db w' = (wd_db w)\<lparr>db_records := kept_records cutoff (wd_records w)\<rparr> \<and>
    record_lookup (wd_records w') i = None \<and> idle w'"
proof -
  let ?own = "fresh_record m kw (wd_now w)" and ?kept = "kept_records cutoff (wd_records w)"
  let ?lock = "lock_of plat wr m hard"
  have "cutoff = wd_now w - days * 86400"
    using assms(7) by (auto simp: cleanup_cutoff_def Let_def split: if_splits)
  then have "started_before cutoff ?own" using assms(6) by (simp add: started_before_def fresh_record_def)
  then have k: "kept_records cutoff (wd_records w @ [(i, ?own)]) = ?kept"
    by (simp add: kept_records_started)
  have "record_lookup (wd_records w) i = None" using assms(2) by (simp add: attempts_def)
  note row = kept_records_lookup [OF this, of cutoff]
  obtain v w2 where w2: "run_code n plat m i w wr soft hard kw = Some (Inr v, w2)"
    "wd_db w2 = (wd_db w)\<lparr>db_records := ?kept\<rparr>" "wd_hooks w2 = []"
    using cleanup_run [OF assms(1,2,4,5,7), of n] assms(3) unfolding k by (auto simp: idle_def)
  have l: "lock_refused plat ?lock (begun i m kw w) = None"
    using cleanup_wrapper_facts(4) [OF assms(1)] by (simp add: lock_of_def lock_refused_def)
  let ?w4 = "lock_released ?lock (task_end plat (begun i m kw w) w2)"
  have g: "guarded_call (execute_task n plat) plat wr (msg_kwargs m) ?lock soft hard (begun i m kw w) = Some (Inr v, ?w4)"
    using guarded_call_at [OF iffD2 [OF idle_begun assms(3)] l] w2 assms(8,9)
    by (simp add: run_code_def block_error_def lock_outcome_def lock_lost_def eff_simps split: option.split)
  have w4: "wd_db ?w4 = (wd_db w)\<lparr>db_records := ?kept\<rparr>" "idle ?w4"
    using w2(2) by (simp_all add: task_end_def idle_def)
  show ?thesis
    unfolding execute_immediately_attempts [OF assms(2)] g
    using finish_with_result_gone [of plat v ?w4 ?own i] row w4 assms(10) by (auto simp: eff_simps idle_def)
qed

end
