(* ===== verification/Environment.thy ===== *)
theory Environment
  imports Py_Strings Py_Effects "HOL-Library.Char_ord" "HOL-Library.List_Lexorder"
begin

text \<open>
  \<open>lambda_tasks/environment_loader.py\<close> and \<open>lambda_tasks/secret_loader.py\<close>: the loaders that run at the
  cold start, over \<open>os.environ\<close> and the module-level state of the two modules.  Secrets Manager is a
  parameter whose answers may change from call to call; so is \<open>json.loads\<close>.
\<close>

section \<open>os.environ\<close>

text \<open>A dict: names are distinct, a new name goes last.\<close>

type_synonym environ = "(string \<times> string) list"

definition env_get :: "environ \<Rightarrow> string \<Rightarrow> string option" where
  "env_get env k = map_of env k"

definition env_put :: "string \<Rightarrow> string \<Rightarrow> environ \<Rightarrow> environ" where
  "env_put k v env = AList.update k v env"

lemma env_get_put [simp]: "env_get (env_put k v env) k' = (if k' = k then Some v else env_get env k')"
  by (simp add: env_get_def env_put_def update_conv')

text \<open>\<open>os.environ[key] = value\<close>: the value must be a string, and the system accepts no empty name, no
  \<open>=\<close> in a name and no NUL.\<close>

definition environ_setitem_error :: "string \<Rightarrow> pyval \<Rightarrow> exn option" where
  "environ_setitem_error key v = (case v of
       PStr s \<Rightarrow>
         if CHR 0x00 \<in> set key \<or> CHR 0x00 \<in> set s
         then Some (Exn ValueError_cls ''embedded null byte'' [])
         else if CHR ''='' \<in> set key
         then Some (Exn ValueError_cls ''illegal environment variable name'' [])
         else if key = [] then Some (Exn OSError_cls ''Invalid argument'' [])
         else None
     | _ \<Rightarrow> Some (Exn TypeError_cls ''str expected'' [v]))"

section \<open>The state of the process before Django\<close>

datatype boot_event =
    GetSecretValue string string
  | ReadMetadata string
  | SetRlimit int
  | DjangoSetup environ
  | RecordFailed exn
  | NoMessage
  | NewUUID
  | OtelCall string "string list"
  | TraceLog string

text \<open>\<open>bt_django\<close> holds the environment under which Django was set up, \<open>None\<close> while \<open>apps.ready\<close> is
  false; \<open>bt_tracer_provider\<close> says whether an SDK \<open>TracerProvider\<close> is installed.\<close>

record boot =
  bt_env :: environ
  bt_environment_loaded :: bool
  bt_secrets_loaded :: bool
  bt_secret_cache :: "((string \<times> string) \<times> pyval) list"
  bt_boot_handlers :: nat
  bt_log_level :: int
  bt_rlimit :: "int option"
  bt_django :: "environ option"
  bt_cold_start_done :: bool
  bt_tracer_provider :: bool
  bt_trace :: "boot_event list"

record services =
  sv_get_secret_value :: "boot_event list \<Rightarrow> string \<Rightarrow> string \<Rightarrow> string res"
  sv_json_loads :: "string \<Rightarrow> pyval option"
  sv_metadata :: "boot_event list \<Rightarrow> string \<Rightarrow> string res"
  sv_setrlimit :: "boot_event list \<Rightarrow> int \<Rightarrow> exn option"
  sv_django_setup :: "boot_event list \<Rightarrow> environ \<Rightarrow> exn option"
  sv_models_import :: exn
  sv_uuid4 :: "boot_event list \<Rightarrow> string"
  sv_otel :: "boot_event list \<Rightarrow> string \<Rightarrow> exn option"

definition boot_emit :: "boot_event \<Rightarrow> boot \<Rightarrow> boot" where
  "boot_emit ev b = b\<lparr>bt_trace := bt_trace b @ [ev]\<rparr>"

definition environ_setitem :: "string \<Rightarrow> pyval \<Rightarrow> (boot, unit) eff" where
  "environ_setitem key v = (\<lambda>b. case environ_setitem_error key v of
       Some e \<Rightarrow> Some (Inl e, b)
     | None \<Rightarrow> Some (Inr (), b\<lparr>bt_env := env_put key (case v of PStr s \<Rightarrow> s | _ \<Rightarrow> []) (bt_env b)\<rparr>))"

definition secrets_get :: "services \<Rightarrow> string \<Rightarrow> string \<Rightarrow> (boot, string) eff" where
  "secrets_get sv arn version_id = (\<lambda>b.
     Some (sv_get_secret_value sv (bt_trace b) arn version_id, boot_emit (GetSecretValue arn version_id) b))"

section \<open>environment_loader\<close>

definition environment_var :: string where
  "environment_var = ''LAMBDA_TASKS_ENVIRONMENT_SECRETS_MANAGER_ARN''"

definition loader_error :: "string \<Rightarrow> pyval list \<Rightarrow> exn" where
  "loader_error msg args = Exn ValueError_cls msg args"

definition environment_parse_reference :: "string \<Rightarrow> (string \<times> string) res" where
  "environment_parse_reference value =
     (let parts = py_split CHR '':'' value in
      if length parts \<noteq> 8 then Inl (loader_error ''invalid format'' [PInt (int (length parts)), PStr value])
      else (let arn = py_join '':'' (take 7 parts); version_id = parts ! 7 in
            if version_id = [] then Inl (loader_error ''missing the version-id segment'' [PStr value])
            else Inr (arn, version_id)))"

definition environment_validate_and_parse ::
  "(string \<Rightarrow> pyval option) \<Rightarrow> string \<Rightarrow> string \<Rightarrow> (string \<times> pyval) list res" where
  "environment_validate_and_parse json_loads raw_value secret_arn = (case json_loads raw_value of
       None \<Rightarrow> Inl (loader_error ''does not contain valid JSON'' [PStr secret_arn])
     | Some (PDict parsed) \<Rightarrow>
         (let non_string_keys = map fst (filter (\<lambda>(k, v). case v of PStr s \<Rightarrow> False | _ \<Rightarrow> True) parsed) in
          if non_string_keys \<noteq> [] then Inl (loader_error ''contains non-string values for keys''
                                          (PStr secret_arn # map PStr non_string_keys))
          else if [] \<in> set (map fst parsed) then Inl (loader_error ''contains an empty string key'' [PStr secret_arn])
          else Inr parsed)
     | Some _ \<Rightarrow> Inl (loader_error ''must be a JSON object'' [PStr secret_arn]))"

definition resolve_environment :: "services \<Rightarrow> (boot, unit) eff" where
  "resolve_environment sv =
     eff_bind (eff_get (\<lambda>b. env_get (bt_env b) environment_var)) (\<lambda>raw_reference.
     if raw_reference = None \<or> raw_reference = Some [] then eff_ret ()
     else eff_bind (eff_get bt_environment_loaded) (\<lambda>loaded.
     if loaded then eff_ret ()
     else eff_bind (eff_res (environment_parse_reference (the raw_reference))) (\<lambda>(arn, version_id).
          eff_bind (secrets_get sv arn version_id) (\<lambda>raw_value.
          eff_bind (eff_res (environment_validate_and_parse (sv_json_loads sv) raw_value arn)) (\<lambda>parsed.
          eff_seq (eff_each (\<lambda>(key, v). environ_setitem key v) parsed)
            (eff_upd (\<lambda>b. b\<lparr>bt_environment_loaded := True\<rparr>)))))))"

section \<open>secret_loader\<close>

definition secret_prefix :: string where
  "secret_prefix = ''LAMBDA_TASKS_SECRET_''"

record secret_reference =
  sr_arn :: string
  sr_json_key :: string
  sr_version_id :: string

definition secret_parse_reference :: "string \<Rightarrow> string \<Rightarrow> secret_reference res" where
  "secret_parse_reference env_var value =
     (let parts = py_split CHR '':'' value in
      if length parts \<noteq> 10
      then Inl (loader_error ''invalid Secrets Manager reference format'' [PStr env_var, PInt (int (length parts)), PStr value])
      else (let arn = py_join '':'' (take 7 parts); json_key = parts ! 7;
                version_stage = parts ! 8; version_id = parts ! 9 in
            if json_key = [] then Inl (loader_error ''missing the json-key segment'' [PStr env_var, PStr value])
            else if version_stage \<noteq> [] then Inl (loader_error ''non-empty version-stage segment'' [PStr env_var, PStr value])
            else if version_id = [] then Inl (loader_error ''missing the version-id segment'' [PStr env_var, PStr value])
            else Inr \<lparr>sr_arn = arn, sr_json_key = json_key, sr_version_id = version_id\<rparr>))"

definition cache_key :: "secret_reference \<Rightarrow> string \<times> string" where
  "cache_key ref = (sr_arn ref, sr_version_id ref)"

text \<open>\<open>client\<close> says whether a client was made; a call on \<open>None\<close> raises \<open>AttributeError\<close>.\<close>

definition secret_fetch :: "services \<Rightarrow> bool \<Rightarrow> secret_reference \<Rightarrow> (boot, pyval) eff" where
  "secret_fetch sv client ref =
     eff_bind (eff_get (\<lambda>b. map_of (bt_secret_cache b) (cache_key ref))) (\<lambda>cached. case cached of
       Some secret \<Rightarrow> eff_ret secret
     | None \<Rightarrow>
         if \<not> client then eff_raise (Exn AttributeError_cls ''get_secret_value'' [])
         else eff_bind (secrets_get sv (sr_arn ref) (sr_version_id ref)) (\<lambda>raw.
              case sv_json_loads sv raw of
                None \<Rightarrow> eff_raise (loader_error ''Could not decode secret as json'' [PStr (sr_arn ref)])
              | Some secret \<Rightarrow>
                  eff_seq (eff_upd (\<lambda>b. b\<lparr>bt_secret_cache := (cache_key ref, secret) # bt_secret_cache b\<rparr>))
                    (eff_ret secret)))"

text \<open>\<open>secret[json_key]\<close>.\<close>

definition py_getitem :: "pyval \<Rightarrow> string \<Rightarrow> pyval res" where
  "py_getitem secret k = (case secret of
       PDict kvs \<Rightarrow> (case map_of kvs k of Some v \<Rightarrow> Inr v | None \<Rightarrow> Inl (Exn KeyError_cls k []))
     | _ \<Rightarrow> Inl (Exn TypeError_cls ''not subscriptable by str'' [secret]))"

definition secret_references :: "environ \<Rightarrow> (string \<times> secret_reference) list res" where
  "secret_references env =
     res_map (\<lambda>(key, v). res_bind (secret_parse_reference key v) (\<lambda>ref.
         Inr (drop (length secret_prefix) key, ref)))
       (filter (\<lambda>(key, v). py_startswith key secret_prefix) env)"

definition resolve_one :: "services \<Rightarrow> bool \<Rightarrow> string \<times> secret_reference \<Rightarrow> (boot, unit) eff" where
  "resolve_one sv client = (\<lambda>(target, ref).
     eff_bind (secret_fetch sv client ref) (\<lambda>secret.
     eff_bind (eff_res (py_getitem secret (sr_json_key ref))) (\<lambda>secret_value.
     environ_setitem target secret_value)))"

definition resolve_secrets_into_env :: "services \<Rightarrow> (boot, unit) eff" where
  "resolve_secrets_into_env sv =
     eff_bind (eff_get bt_secrets_loaded) (\<lambda>loaded.
     if loaded then eff_ret ()
     else eff_bind (eff_get bt_env) (\<lambda>env.
     eff_bind (eff_res (secret_references env)) (\<lambda>references.
     if references = [] then eff_ret ()
     else (let conflicts = filter (\<lambda>t. env_get env t \<noteq> None) (map fst references) in
       if conflicts \<noteq> []
       then eff_raise (loader_error ''set both directly and via LAMBDA_TASKS_SECRET_*'' (map PStr (sort conflicts)))
       else eff_bind (eff_get (\<lambda>b. list_ex (\<lambda>(t, ref). map_of (bt_secret_cache b) (cache_key ref) = None) references))
         (\<lambda>uncached.
          eff_seq (eff_each (resolve_one sv uncached) references)
            (eff_upd (\<lambda>b. b\<lparr>bt_secrets_loaded := True\<rparr>)))))))"

end
