(* ===== verification/Tracing.thy ===== *)
theory Tracing
  imports Environment
begin

text \<open>
  \<open>lambda_tasks/tracing.py\<close>: when tracing is on, in which order the OpenTelemetry packages are called,
  and which of their failures are caught.  The packages themselves are a parameter: \<open>sv_otel\<close> says for
  each call, import statements included, whether it raises.
\<close>

definition env_default :: "environ \<Rightarrow> string \<Rightarrow> string \<Rightarrow> string" where
  "env_default env k d = (case env_get env k of None \<Rightarrow> d | Some v \<Rightarrow> v)"

definition tracing_is_enabled :: "environ \<Rightarrow> bool" where
  "tracing_is_enabled env \<longleftrightarrow>
     py_strip (env_default env ''OTEL_EXPORTER_OTLP_ENDPOINT'' []) \<noteq> [] \<or>
     py_strip (env_default env ''OTEL_EXPORTER_OTLP_TRACES_ENDPOINT'' []) \<noteq> []"

definition running_on_lambda :: "environ \<Rightarrow> bool" where
  "running_on_lambda env \<longleftrightarrow> env_default env ''AWS_LAMBDA_FUNCTION_NAME'' [] \<noteq> []"

definition trace_log :: "string \<Rightarrow> (boot, unit) eff" where
  "trace_log line = eff_upd (boot_emit (TraceLog line))"

definition otel :: "services \<Rightarrow> string \<Rightarrow> string list \<Rightarrow> (boot, unit) eff" where
  "otel sv name args = (\<lambda>b.
     Some (case sv_otel sv (bt_trace b) name of Some e \<Rightarrow> Inl e | None \<Rightarrow> Inr (),
       boot_emit (OtelCall name args) b))"

definition ImportError_cls :: pyclass where
  "ImportError_cls = Cls ''ImportError'' [Exception_cls]"

text \<open>\<open>_SigV4Auth.__call__\<close> on a prepared request.  \<open>get_credentials\<close> is the botocore session's, and \<open>add_auth\<close>
  the headers of the \<open>AWSRequest\<close> after \<open>SigV4Auth(...).add_auth\<close>; both may raise.  The headers of \<open>requests\<close>
  are a case-insensitive dict.\<close>

record request =
  rq_method :: string
  rq_url :: string
  rq_body :: string
  rq_headers :: "(string \<times> string) list"

definition lower_char :: "char \<Rightarrow> char" where
  "lower_char c = (let n = of_char c :: nat in if 65 \<le> n \<and> n \<le> 90 then char_of (n + 32) else c)"

fun header_set :: "string \<Rightarrow> string \<Rightarrow> (string \<times> string) list \<Rightarrow> (string \<times> string) list" where
  "header_set k v [] = [(k, v)]"
| "header_set k v ((k', v') # hs) =
     (if map lower_char k' = map lower_char k then (k, v) # hs else (k', v') # header_set k v hs)"

definition sigv4_auth ::
  "(boot_event list \<Rightarrow> 'c option res) \<Rightarrow> ('c \<Rightarrow> string \<Rightarrow> string \<Rightarrow> request \<Rightarrow> (string \<times> string) list res)
   \<Rightarrow> string \<Rightarrow> string \<Rightarrow> request \<Rightarrow> (boot, request) eff" where
  "sigv4_auth get_credentials add_auth service_name region r =
     eff_bind (\<lambda>b. Some (get_credentials (bt_trace b), b)) (\<lambda>credentials. case credentials of
       None \<Rightarrow> eff_seq (trace_log ''No AWS credentials resolvable'') (eff_ret r)
     | Some c \<Rightarrow>
         eff_bind (eff_res (add_auth c service_name region
             \<lparr>rq_method = rq_method r, rq_url = rq_url r, rq_body = rq_body r,
              rq_headers = [(''Content-Type'', ''application/x-protobuf'')]\<rparr>))
           (\<lambda>signed. eff_ret (r\<lparr>rq_headers := fold (\<lambda>(k, v). header_set k v) signed (rq_headers r)\<rparr>)))"

definition build_signing_session :: "services \<Rightarrow> (boot, unit) eff" where
  "build_signing_session sv =
     eff_seq (otel sv ''import requests, botocore'' [])
     (eff_bind (eff_get (\<lambda>b. env_default (bt_env b) ''AWS_REGION'' (env_default (bt_env b) ''AWS_DEFAULT_REGION'' [])))
       (\<lambda>region.
        eff_seq (if region = [] then trace_log ''No AWS region resolvable'' else eff_ret ())
          (otel sv ''requests.Session'' [''xray'', region])))"

definition build_tracer_provider :: "services \<Rightarrow> (boot, unit) eff" where
  "build_tracer_provider sv =
     eff_seq (otel sv ''import opentelemetry.exporter, opentelemetry.sdk'' [])
     (eff_bind (eff_get (\<lambda>b. env_default (bt_env b) ''OTEL_SERVICE_NAME''
          (env_default (bt_env b) ''AWS_LAMBDA_FUNCTION_NAME'' ''lambda-tasks'')))
       (\<lambda>service_name.
        eff_seq (otel sv ''TracerProvider'' [service_name])
        (eff_seq (build_signing_session sv) (otel sv ''add_span_processor'' []))))"

definition set_xray_propagator :: "services \<Rightarrow> (boot, unit) eff" where
  "set_xray_propagator sv =
     eff_seq (otel sv ''import opentelemetry.propagators.aws'' [])
     (eff_bind (eff_get (\<lambda>b. running_on_lambda (bt_env b))) (\<lambda>on_lambda.
        otel sv ''set_global_textmap''
          [if on_lambda then ''AwsXRayLambdaPropagator'' else ''AwsXRayPropagator'']))"

text \<open>\<open>_try(name, instrument)\<close>, where \<open>instrument\<close> imports an instrumentor and calls it.\<close>

definition try_instrument :: "services \<Rightarrow> string \<Rightarrow> (boot, unit) eff" where
  "try_instrument sv name =
     eff_bind (eff_attempt (eff_seq (otel sv (''import '' @ name) []) (otel sv ''instrument'' [name]))) (\<lambda>r.
       case r of
         Inl e \<Rightarrow> if is_Exception e then trace_log (''Failed to instrument '' @ name) else eff_raise e
       | Inr _ \<Rightarrow> trace_log (name @ '' instrumentation installed.''))"

definition instrument_libraries :: "services \<Rightarrow> (boot, unit) eff" where
  "instrument_libraries sv =
     eff_each (try_instrument sv) [''psycopg'', ''botocore'', ''requests'', ''httpx'', ''redis'']"

text \<open>The result says whether a provider is returned.\<close>

definition configure_tracing :: "services \<Rightarrow> (boot, bool) eff" where
  "configure_tracing sv =
     eff_bind (eff_get (\<lambda>b. tracing_is_enabled (bt_env b))) (\<lambda>enabled.
     if \<not> enabled then eff_seq (trace_log ''OTEL tracing disabled'') (eff_ret False)
     else eff_try
       (eff_seq (otel sv ''import opentelemetry'' [])
        (eff_seq (otel sv ''get_tracer_provider'' [])
        (eff_bind (eff_get bt_tracer_provider) (\<lambda>installed.
         if installed then eff_seq (trace_log ''already installed'') (eff_ret False)
         else eff_seq (build_tracer_provider sv)
             (eff_seq (otel sv ''set_tracer_provider'' [])
             (eff_seq (eff_upd (\<lambda>b. b\<lparr>bt_tracer_provider := True\<rparr>))
             (eff_seq (set_xray_propagator sv)
             (eff_seq (instrument_libraries sv)
             (eff_seq (trace_log ''OTEL tracing configured'') (eff_ret True)))))))))
       )
       (\<lambda>e. if isinstance e ImportError_cls
            then eff_seq (trace_log ''OpenTelemetry packages are not installed'') (eff_ret False)
            else if is_Exception e
            then eff_seq (trace_log ''Failed to configure OTEL tracing'') (eff_ret False)
            else eff_raise e))"

definition instrument_lambda_handler :: "services \<Rightarrow> (boot, unit) eff" where
  "instrument_lambda_handler sv =
     eff_bind (eff_get bt_env) (\<lambda>env.
     if \<not> tracing_is_enabled env then eff_ret ()
     else if \<not> running_on_lambda env then trace_log ''Not running on Lambda''
     else eff_seq (eff_upd (\<lambda>b. b\<lparr>bt_env := env_put ''ORIG_HANDLER''
                     (env_default (bt_env b) ''ORIG_HANDLER'' ''lambda_tasks.handler.handler'') (bt_env b)\<rparr>))
         (eff_bind (eff_attempt (eff_seq (otel sv ''import opentelemetry.instrumentation.aws_lambda'' [])
             (otel sv ''AwsLambdaInstrumentor.instrument'' []))) (\<lambda>r. case r of
            Inl e \<Rightarrow> if is_Exception e then trace_log ''Failed to instrument the Lambda handler'' else eff_raise e
          | Inr _ \<Rightarrow> trace_log ''AwsLambdaInstrumentor installed'')))"

definition flush_tracing :: "services \<Rightarrow> (boot, unit) eff" where
  "flush_tracing sv =
     eff_bind (eff_get (\<lambda>b. tracing_is_enabled (bt_env b))) (\<lambda>enabled.
     if \<not> enabled then eff_ret ()
     else eff_seq (otel sv ''import opentelemetry'' [])
         (eff_seq (otel sv ''get_tracer_provider'' [])
         (eff_bind (eff_get bt_tracer_provider) (\<lambda>installed.
          if installed
          then eff_seq (trace_log ''Flushing and shutting down the TracerProvider before exit.'')
               (eff_seq (otel sv ''force_flush'' []) (otel sv ''shutdown'' []))
          else trace_log ''no TracerProvider is installed''))))"

end
