(* ===== verification/Handler.thy ===== *)
theory Handler
  imports Executor Tracing
begin

text \<open>
  \<open>lambda_tasks/handler.py\<close>: the cold start, the Lambda entry point with its partial batch failures,
  and the Batch entry point.  \<open>worker\<close> joins the state before Django and the state of the tasks; the
  platform of the tasks is a function of the environment under which Django was set up, since the
  settings module may read it.
\<close>

record 'd worker =
  wk_boot :: boot
  wk_world :: "'d world"

definition on_boot :: "(boot, 'a) eff \<Rightarrow> ('d worker, 'a) eff" where
  "on_boot m = (\<lambda>k. case m (wk_boot k) of None \<Rightarrow> None | Some (r, b) \<Rightarrow> Some (r, k\<lparr>wk_boot := b\<rparr>))"

definition on_world :: "('d world, 'a) eff \<Rightarrow> ('d worker, 'a) eff" where
  "on_world m = (\<lambda>k. case m (wk_world k) of None \<Rightarrow> None | Some (r, w) \<Rightarrow> Some (r, k\<lparr>wk_world := w\<rparr>))"

definition boot_call :: "boot_event \<Rightarrow> (boot_event list \<Rightarrow> 'a res) \<Rightarrow> (boot, 'a) eff" where
  "boot_call ev answer = (\<lambda>b. Some (answer (bt_trace b), boot_emit ev b))"

definition answer_of :: "exn option \<Rightarrow> unit res" where
  "answer_of x = (case x of Some e \<Rightarrow> Inl e | None \<Rightarrow> Inr ())"

section \<open>The memory limit\<close>

definition MEMORY_RESERVED_MB :: int where "MEMORY_RESERVED_MB = 128"

definition MEMORY_MINIMUM_LIMIT_MB :: int where "MEMORY_MINIMUM_LIMIT_MB = 64"

text \<open>\<open>int(json.loads(...)["Limits"]["Memory"])\<close>.\<close>

definition metadata_memory :: "services \<Rightarrow> string \<Rightarrow> int res" where
  "metadata_memory sv raw = (case sv_json_loads sv raw of
       None \<Rightarrow> Inl (Exn ValueError_cls ''invalid JSON'' [])
     | Some data \<Rightarrow> res_bind (py_getitem data ''Limits'') (\<lambda>limits.
                    res_bind (py_getitem limits ''Memory'') py_int))"

definition get_memory_mb :: "services \<Rightarrow> (boot, int option) eff" where
  "get_memory_mb sv =
     eff_bind (eff_get bt_env) (\<lambda>env. case env_get env ''AWS_LAMBDA_FUNCTION_MEMORY_SIZE'' of
       Some memory_mb_str \<Rightarrow> eff_bind (eff_res (py_int (PStr memory_mb_str))) (\<lambda>n. eff_ret (Some n))
     | None \<Rightarrow> (case env_get env ''ECS_CONTAINER_METADATA_URI_V4'' of
         Some metadata_uri \<Rightarrow>
           eff_try (eff_bind (boot_call (ReadMetadata (metadata_uri @ ''/task''))
                      (\<lambda>tr. sv_metadata sv tr (metadata_uri @ ''/task''))) (\<lambda>raw.
                    eff_bind (eff_res (metadata_memory sv raw)) (\<lambda>n. eff_ret (Some n))))
             (\<lambda>e. if is_Exception e then eff_ret None else eff_raise e)
       | None \<Rightarrow> eff_ret None))"

definition set_memory_limit :: "services \<Rightarrow> (boot, unit) eff" where
  "set_memory_limit sv =
     eff_bind (get_memory_mb sv) (\<lambda>memory_mb. case memory_mb of
       None \<Rightarrow> eff_ret ()
     | Some mb \<Rightarrow>
         (let limit_bytes = max (mb - MEMORY_RESERVED_MB) MEMORY_MINIMUM_LIMIT_MB * 1024 * 1024 in
          eff_seq (boot_call (SetRlimit limit_bytes) (\<lambda>tr. answer_of (sv_setrlimit sv tr limit_bytes)))
            (eff_upd (\<lambda>b. b\<lparr>bt_rlimit := Some limit_bytes\<rparr>))))"

section \<open>The cold start\<close>

definition DEBUG :: int where "DEBUG = 10"

definition NOTSET :: int where "NOTSET = 0"

definition django_setup :: "services \<Rightarrow> (boot, unit) eff" where
  "django_setup sv =
     eff_bind (eff_get bt_env) (\<lambda>env.
     eff_seq (boot_call (DjangoSetup env) (\<lambda>tr. answer_of (sv_django_setup sv tr env)))
       (eff_upd (\<lambda>b. b\<lparr>bt_django := Some env\<rparr>)))"

definition perform_cold_start :: "services \<Rightarrow> (boot, unit) eff" where
  "perform_cold_start sv =
     eff_bind (eff_get bt_cold_start_done) (\<lambda>cold_start_done.
     if cold_start_done then eff_ret ()
     else eff_seq (eff_upd (\<lambda>b. b\<lparr>bt_boot_handlers := Suc (bt_boot_handlers b), bt_log_level := DEBUG\<rparr>))
         (eff_seq (set_memory_limit sv)
         (eff_seq (eff_finally (eff_seq (resolve_environment sv) (resolve_secrets_into_env sv))
              (eff_upd (\<lambda>b. b\<lparr>bt_boot_handlers := bt_boot_handlers b - 1, bt_log_level := NOTSET\<rparr>)))
         (eff_bind (eff_get (\<lambda>b. env_default (bt_env b) ''DJANGO_SETTINGS_MODULE'' [] \<noteq> [] \<and> bt_django b = None))
            (\<lambda>must_set_up.
             eff_seq (if must_set_up then django_setup sv else eff_ret ())
               (eff_upd (\<lambda>b. b\<lparr>bt_cold_start_done := True\<rparr>)))))))"

section \<open>The handler\<close>

text \<open>A record of an SQS event: the two fields the handler reads.\<close>

record sqs_record =
  messageId :: string
  body :: string

definition close_old_connections :: "'d platform \<Rightarrow> ('d world, unit) eff" where
  "close_old_connections plat = ext_call CloseConnections (p_close_connections plat)"

text \<open>The body of the \<open>try\<close>.\<close>

definition process_record :: "nat \<Rightarrow> 'd platform \<Rightarrow> sqs_record \<Rightarrow> ('d world, unit) eff" where
  "process_record n plat rec =
     eff_seq (close_old_connections plat)
     (eff_bind (eff_res (message_from_json (p_from_json plat) (p_lax_int plat) (body rec))) (\<lambda>m.
        execute_immediately n plat m (messageId rec)))"

fun handle_records ::
  "nat \<Rightarrow> 'd platform \<Rightarrow> string list \<Rightarrow> sqs_record list \<Rightarrow> ('d worker, string list) eff" where
  "handle_records n plat batch_item_failures [] = eff_ret batch_item_failures"
| "handle_records n plat batch_item_failures (rec # recs) =
     eff_bind (eff_attempt (on_world (process_record n plat rec))) (\<lambda>r. case r of
       Inr _ \<Rightarrow> handle_records n plat batch_item_failures recs
     | Inl e \<Rightarrow>
         if is_Exception e
         then eff_seq (on_boot (eff_upd (boot_emit (RecordFailed e))))
              (handle_records n plat (batch_item_failures @ [messageId rec]) recs)
         else eff_raise e)"

definition handler ::
  "nat \<Rightarrow> services \<Rightarrow> (environ \<Rightarrow> 'd platform) \<Rightarrow> sqs_record list \<Rightarrow> ('d worker, string list) eff" where
  "handler n sv plat recs =
     eff_seq (on_boot (perform_cold_start sv))
     (eff_bind (eff_get (\<lambda>k. bt_django (wk_boot k))) (\<lambda>django. case django of
        None \<Rightarrow> eff_raise (sv_models_import sv)
      | Some env \<Rightarrow> handle_records n (plat env) [] recs))"

section \<open>The Batch entry point\<close>

definition main :: "nat \<Rightarrow> services \<Rightarrow> (environ \<Rightarrow> 'd platform) \<Rightarrow> ('d worker, int) eff" where
  "main n sv plat =
     eff_bind (eff_get (\<lambda>k. bt_env (wk_boot k))) (\<lambda>env.
     let message_json = env_default env ''LAMBDA_TASKS_MESSAGE'' [] in
     if message_json = [] then eff_seq (on_boot (eff_upd (boot_emit NoMessage))) (eff_ret 1)
     else eff_bind (on_boot (boot_call NewUUID (\<lambda>tr. Inr (sv_uuid4 sv tr)))) (\<lambda>uuid.
     let message_id = env_default env ''AWS_BATCH_JOB_ID'' uuid in
     eff_bind (handler n sv plat [\<lparr>messageId = message_id, body = message_json\<rparr>]) (\<lambda>failures.
     eff_seq (on_boot (flush_tracing sv)) (eff_ret (if failures \<noteq> [] then 1 else 0)))))"

text \<open>What importing the module runs.\<close>

definition import_handler_module :: "services \<Rightarrow> (boot, unit) eff" where
  "import_handler_module sv =
     eff_bind (configure_tracing sv) (\<lambda>provider. instrument_lambda_handler sv)"

end
