(* ===== verification/Environment_Props.thy ===== *)
theory Environment_Props
  imports Environment
begin

text \<open>
  What the two loaders guarantee: the syntax of references, what a successful run has set and fetched,
  and what a failed run leaves behind.
\<close>

section \<open>References\<close>

lemma py_join_app:
  "ps \<noteq> [] \<Longrightarrow> qs \<noteq> [] \<Longrightarrow> py_join [c] (ps @ qs) = py_join [c] ps @ c # py_join [c] qs"
  by (induction ps) (auto simp: py_join_Cons)

lemma py_split_app:
  "py_split c (s @ c # t) = py_split c s @ py_split c t"
proof (induction s)
  case (Cons a s)
  obtain p ps where "py_split c s = p # ps" by (cases "py_split c s") auto
  with Cons show ?case by simp
qed simp

lemma split_at:
  assumes "length (py_split c v) = Suc n" and "0 < n"
  shows "v = py_join [c] (take n (py_split c v)) @ c # (py_split c v ! n)"
    and "count_list (py_join [c] (take n (py_split c v))) c = n - 1" and "c \<notin> set (py_split c v ! n)"
proof -
  let ?ps = "py_split c v"
  have p: "?ps = take n ?ps @ [?ps ! n]" using assms(1) by (metis lessI take_Suc_conv_app_nth take_all_iff order_refl)
  have t: "take n ?ps \<noteq> []" using assms by auto
  have "v = py_join [c] ?ps" by simp
  also have "\<dots> = py_join [c] (take n ?ps) @ c # (?ps ! n)"
    using arg_cong [OF p, of "py_join [c]"] t by (simp add: py_join_app)
  finally show "v = py_join [c] (take n ?ps) @ c # (?ps ! n)" .
  have "\<forall>q \<in> set (take n ?ps). c \<notin> set q" using py_split_parts [of c v] by (meson in_set_takeD)
  then have "py_split c (py_join [c] (take n ?ps)) = take n ?ps" using py_split_join [OF t] by blast
  then have "Suc (count_list (py_join [c] (take n ?ps)) c) = length (take n ?ps)"
    using length_py_split [of c "py_join [c] (take n ?ps)"] by simp
  then show "count_list (py_join [c] (take n ?ps)) c = n - 1" using assms(1) by simp
  show "c \<notin> set (?ps ! n)" using py_split_parts [of c v] assms(1) nth_mem [of n ?ps] by simp
qed

text \<open>A reference to the environment secret is accepted exactly when it is an ARN of seven segments, a
  colon and a version id that is neither empty nor contains a colon; the two are returned as they
  stand in the text.\<close>

lemma environment_reference_syntax:
  "(environment_parse_reference v = Inr (arn, version_id)) =
   (v = arn @ '':'' @ version_id \<and> count_list arn CHR '':'' = 6 \<and> version_id \<noteq> [] \<and> CHR '':'' \<notin> set version_id)"
proof
  assume p: "environment_parse_reference v = Inr (arn, version_id)"
  then have l: "length (py_split CHR '':'' v) = Suc 7"
    and "arn = py_join '':'' (take 7 (py_split CHR '':'' v))" "version_id = py_split CHR '':'' v ! 7" "version_id \<noteq> []"
    by (auto simp: environment_parse_reference_def Let_def split: if_split_asm)
  with split_at [OF l] show "v = arn @ '':'' @ version_id \<and> count_list arn CHR '':'' = 6 \<and> version_id \<noteq> [] \<and> CHR '':'' \<notin> set version_id"
    by simp
next
  assume a: "v = arn @ '':'' @ version_id \<and> count_list arn CHR '':'' = 6 \<and> version_id \<noteq> [] \<and> CHR '':'' \<notin> set version_id"
  then have s: "py_split CHR '':'' v = py_split CHR '':'' arn @ [version_id]" and l: "length (py_split CHR '':'' arn) = 7"
    by (simp_all add: py_split_app py_split_free length_py_split)
  then show "environment_parse_reference v = Inr (arn, version_id)"
    using a by (simp add: environment_parse_reference_def Let_def nth_append)
qed

section \<open>Resolving the secrets\<close>

definition fetched :: "(string \<times> string) list \<Rightarrow> boot_event list" where
  "fetched ks = map (\<lambda>(a, v). GetSecretValue a v) ks"

lemma fetched_simps [simp]: "fetched [] = []" "fetched (ks @ ls) = fetched ks @ fetched ls"
  "fetched ((a, v) # ks) = GetSecretValue a v # fetched ks"
  by (simp_all add: fetched_def)

text \<open>Between two states of the loader: the cache grows by the keys fetched in between, each fetched once
  and only when it was not cached.\<close>

definition fetches :: "boot \<Rightarrow> boot \<Rightarrow> bool" where
  "fetches b b' \<longleftrightarrow> (\<exists>ks. bt_trace b' = bt_trace b @ fetched ks \<and> distinct ks \<and>
     set ks \<inter> dom (map_of (bt_secret_cache b)) = {} \<and>
     dom (map_of (bt_secret_cache b')) = dom (map_of (bt_secret_cache b)) \<union> set ks) \<and>
   map_of (bt_secret_cache b) \<subseteq>\<^sub>m map_of (bt_secret_cache b')"

lemma fetches_refl: "fetches b b"
  by (auto simp: fetches_def intro: exI [of _ "[]"])

lemma fetches_trans:
  assumes "fetches b1 b2" and "fetches b2 b3"
  shows "fetches b1 b3"
proof -
  obtain ks where k: "bt_trace b2 = bt_trace b1 @ fetched ks" "distinct ks"
     "set ks \<inter> dom (map_of (bt_secret_cache b1)) = {}"
     "dom (map_of (bt_secret_cache b2)) = dom (map_of (bt_secret_cache b1)) \<union> set ks"
    using assms(1) by (auto simp: fetches_def)
  obtain ls where l: "bt_trace b3 = bt_trace b2 @ fetched ls" "distinct ls"
     "set ls \<inter> dom (map_of (bt_secret_cache b2)) = {}"
     "dom (map_of (bt_secret_cache b3)) = dom (map_of (bt_secret_cache b2)) \<union> set ls"
    using assms(2) by (auto simp: fetches_def)
  have "distinct (ks @ ls)" using k l by auto
  moreover have "map_of (bt_secret_cache b1) \<subseteq>\<^sub>m map_of (bt_secret_cache b3)"
    using assms map_le_trans by (auto simp: fetches_def)
  ultimately show ?thesis
    unfolding fetches_def using k l by (intro conjI exI [of _ "ks @ ls"]) auto
qed

lemma fetches_env: "fetches b b' \<Longrightarrow> fetches b (b'\<lparr>bt_env := env\<rparr>)"
  by (simp add: fetches_def)

lemma secret_fetch_Inr:
  assumes "secret_fetch sv client ref b = Some (r, b')"
  shows "bt_env b' = bt_env b" and "bt_secrets_loaded b' = bt_secrets_loaded b"
    and "r = Inr s \<Longrightarrow> fetches b b' \<and> map_of (bt_secret_cache b') (cache_key ref) = Some s"
proof -
  have "bt_env b' = bt_env b \<and> bt_secrets_loaded b' = bt_secrets_loaded b \<and>
      (r = Inr s \<longrightarrow> fetches b b' \<and> map_of (bt_secret_cache b') (cache_key ref) = Some s)"
  proof (cases "map_of (bt_secret_cache b) (cache_key ref)")
    case None
    then show ?thesis
      using assms
      by (auto simp: secret_fetch_def eff_simps secrets_get_def boot_emit_def fetches_def cache_key_def map_le_def
          split: if_split_asm sum.split_asm option.split_asm intro!: exI [of _ "[cache_key ref]"])
  next
    case (Some s')
    then show ?thesis using assms fetches_refl by (auto simp: secret_fetch_def eff_simps)
  qed
  then show "bt_env b' = bt_env b" "bt_secrets_loaded b' = bt_secrets_loaded b"
    "r = Inr s \<Longrightarrow> fetches b b' \<and> map_of (bt_secret_cache b') (cache_key ref) = Some s"
    by blast+
qed

text \<open>What one reference stands for, given the cache.\<close>

definition secret_value :: "boot \<Rightarrow> secret_reference \<Rightarrow> string \<Rightarrow> bool" where
  "secret_value b ref s \<longleftrightarrow> (\<exists>doc. map_of (bt_secret_cache b) (cache_key ref) = Some doc \<and>
     py_getitem doc (sr_json_key ref) = Inr (PStr s))"

lemma secret_value_mono: "secret_value b ref s \<Longrightarrow> fetches b b' \<Longrightarrow> secret_value b' ref s"
  unfolding secret_value_def fetches_def by (metis domI map_le_def)

lemma resolve_one_Some:
  assumes "resolve_one sv client (target, ref) b = Some (r, b')"
  shows "r = Inr () \<Longrightarrow> fetches b b' \<and> (\<exists>s. bt_env b' = env_put target s (bt_env b) \<and> secret_value b' ref s)"
    and "r = Inl e \<Longrightarrow> bt_env b' = bt_env b" and "bt_secrets_loaded b' = bt_secrets_loaded b"
proof -
  obtain rf b1 where f: "secret_fetch sv client ref b = Some (rf, b1)"
    using assms by (auto simp: resolve_one_def eff_simps split: option.split_asm)
  note e = secret_fetch_Inr(1,2) [OF f]
  have "(r = Inr () \<longrightarrow> fetches b b' \<and> (\<exists>s. bt_env b' = env_put target s (bt_env b) \<and> secret_value b' ref s)) \<and>
      (r = Inl e \<longrightarrow> bt_env b' = bt_env b) \<and> bt_secrets_loaded b' = bt_secrets_loaded b"
  proof (cases rf)
    case (Inl x)
    with assms f e show ?thesis by (auto simp: resolve_one_def eff_simps)
  next
    case (Inr doc)
    note c = secret_fetch_Inr(3) [OF f Inr]
    show ?thesis
    proof (cases "py_getitem doc (sr_json_key ref)")
      case (Inl x)
      with assms f e Inr show ?thesis by (auto simp: resolve_one_def eff_simps)
    next
      case (Inr v)
      with assms f e \<open>rf = Inr doc\<close> c show ?thesis
        by (auto simp: resolve_one_def eff_simps environ_setitem_def environ_setitem_error_def secret_value_def
            split: option.split_asm pyval.split_asm if_split_asm intro: fetches_env)
    qed
  qed
  then show "r = Inr () \<Longrightarrow> fetches b b' \<and> (\<exists>s. bt_env b' = env_put target s (bt_env b) \<and> secret_value b' ref s)"
    "r = Inl e \<Longrightarrow> bt_env b' = bt_env b" "bt_secrets_loaded b' = bt_secrets_loaded b"
    by blast+
qed

lemma resolve_all_Inr:
  "eff_each (resolve_one sv client) refs b = Some (Inr (), b') \<Longrightarrow> distinct (map fst refs) \<Longrightarrow>
   fetches b b' \<and> (\<forall>(t, ref) \<in> set refs. \<exists>s. env_get (bt_env b') t = Some s \<and> secret_value b' ref s) \<and>
   (\<forall>k. k \<notin> set (map fst refs) \<longrightarrow> env_get (bt_env b') k = env_get (bt_env b) k)"
proof (induction refs arbitrary: b)
  case Nil
  then show ?case by (simp add: eff_simps fetches_refl)
next
  case (Cons tr refs)
  obtain t ref where tr: "tr = (t, ref)" by force
  obtain b1 where o: "resolve_one sv client (t, ref) b = Some (Inr (), b1)"
    and rest: "eff_each (resolve_one sv client) refs b1 = Some (Inr (), b')"
    using Cons.prems(1) unfolding tr by (auto simp: eff_simps split: option.split_asm sum.split_asm)
  obtain s where s: "fetches b b1" "bt_env b1 = env_put t s (bt_env b)" "secret_value b1 ref s"
    using resolve_one_Some(1) [OF o] by blast
  have IH: "fetches b1 b'" "\<forall>(t, ref) \<in> set refs. \<exists>s. env_get (bt_env b') t = Some s \<and> secret_value b' ref s"
    "\<forall>k. k \<notin> set (map fst refs) \<longrightarrow> env_get (bt_env b') k = env_get (bt_env b1) k"
    using Cons.IH [OF rest] Cons.prems(2) by auto
  have t: "t \<notin> set (map fst refs)" using Cons.prems(2) tr by simp
  show ?case
    unfolding tr using IH s t fetches_trans [OF s(1) IH(1)] secret_value_mono [OF s(3) IH(1)] by auto
qed

lemma secret_references_targets:
  assumes "secret_references env = Inr refs"
  shows "map fst refs = map (\<lambda>(k, v). drop (length secret_prefix) k) (filter (\<lambda>(k, v). py_startswith k secret_prefix) env)"
proof -
  have "res_map (\<lambda>(key, v). res_bind (secret_parse_reference key v) (\<lambda>ref. Inr (drop (length secret_prefix) key, ref))) kvs = Inr refs
      \<Longrightarrow> map fst refs = map (\<lambda>(k, v). drop (length secret_prefix) k) kvs" for kvs refs
    by (induction kvs arbitrary: refs) (auto simp: res_bind_Inr_iff)
  then show ?thesis using assms by (simp add: secret_references_def)
qed

lemma secret_targets_distinct:
  assumes "distinct (map fst env)" and "secret_references env = Inr refs"
  shows "distinct (map fst refs)"
proof -
  let ?kvs = "filter (\<lambda>(k, v). py_startswith k secret_prefix) env"
  have "inj_on (drop (length secret_prefix)) {k. py_startswith k secret_prefix}"
    by (auto simp: inj_on_def py_startswith_iff)
  moreover have "set (map fst ?kvs) \<subseteq> {k. py_startswith k secret_prefix}" by auto
  moreover have "distinct (map fst ?kvs)" using assms(1) by (induction env) auto
  ultimately have "distinct (map (drop (length secret_prefix)) (map fst ?kvs))"
    by (simp only: distinct_map) (meson inj_on_subset)
  then show ?thesis using secret_references_targets [OF assms(2)] by (simp add: comp_def case_prod_unfold)
qed


lemma secret_references_error:
  assumes "secret_references env = Inl e"
  shows "isinstance e ValueError_cls"
proof -
  have "secret_parse_reference k v = Inl e \<Longrightarrow> isinstance e ValueError_cls" for k v e
    by (auto simp: secret_parse_reference_def Let_def loader_error_def isinstance_def split: if_split_asm)
  then have "res_map (\<lambda>(key, v). res_bind (secret_parse_reference key v) (\<lambda>ref. Inr (drop (length secret_prefix) key, ref))) kvs = Inl e
      \<Longrightarrow> isinstance e ValueError_cls" for kvs
    by (induction kvs) (auto simp: res_bind_def split: sum.split_asm)
  then show ?thesis using assms by (simp add: secret_references_def)
qed

lemma resolve_all_partial:
  "eff_each (resolve_one sv client) refs b = Some (Inl e, b') \<Longrightarrow>
   bt_secrets_loaded b' = bt_secrets_loaded b \<and>
   (\<forall>k v. env_get (bt_env b) k = Some v \<longrightarrow> k \<notin> set (map fst refs) \<longrightarrow> env_get (bt_env b') k = Some v) \<and>
   (bt_env b' = bt_env b \<or> (\<exists>t \<in> set (map fst refs). env_get (bt_env b') t \<noteq> None)) \<and>
   set (map fst (bt_env b)) \<subseteq> set (map fst (bt_env b'))"
proof (induction refs arbitrary: b)
  case Nil
  then show ?case by (simp add: eff_simps)
next
  case (Cons tr refs)
  obtain t ref where tr: "tr = (t, ref)" by force
  obtain r1 b1 where o: "resolve_one sv client (t, ref) b = Some (r1, b1)"
    using Cons.prems unfolding tr by (auto simp: eff_simps split: option.split_asm)
  note l = resolve_one_Some(3) [OF o]
  show ?case
  proof (cases r1)
    case (Inl x)
    then have "b' = b1" using Cons.prems o unfolding tr by (simp add: eff_simps)
    with resolve_one_Some(2) [OF o Inl] l show ?thesis by simp
  next
    case (Inr u)
    then have o: "resolve_one sv client (t, ref) b = Some (Inr (), b1)" using o by simp
    then have rest: "eff_each (resolve_one sv client) refs b1 = Some (Inl e, b')"
      using Cons.prems unfolding tr by (simp add: eff_simps)
    obtain s where s: "bt_env b1 = env_put t s (bt_env b)" using resolve_one_Some(1) [OF o] by blast
    have keys: "set (map fst (env_put t s env)) = insert t (set (map fst env))" for env
      by (simp add: env_put_def dom_update)
    have sub: "set (map fst (bt_env b1)) \<subseteq> set (map fst (bt_env b'))" using Cons.IH [OF rest] by blast
    then have "env_get (bt_env b') t \<noteq> None"
      using keys [of "bt_env b"] s by (auto simp: env_get_def map_of_eq_None_iff)
    then show ?thesis
      unfolding tr using Cons.IH [OF rest] s l keys [of "bt_env b"] by auto
  qed
qed

text \<open>C37. A run of the secret loader that fails after it has set a variable cannot be repeated: it leaves
  that variable set, so every later run in the same process, whatever Secrets Manager answers then,
  raises \<open>ValueError\<close> and changes nothing.\<close>

theorem failed_secrets_never_recover:
  assumes "resolve_secrets_into_env sv b = Some (Inl e, b')" and "bt_env b' \<noteq> bt_env b"
  shows "\<exists>e'. resolve_secrets_into_env sv' b' = Some (Inl e', b') \<and> isinstance e' ValueError_cls"
proof -
  have nl: "\<not> bt_secrets_loaded b" using assms(1) by (auto simp: resolve_secrets_into_env_def eff_simps)
  obtain refs where r: "secret_references (bt_env b) = Inr refs"
    using assms nl by (cases "secret_references (bt_env b)") (auto simp: resolve_secrets_into_env_def eff_simps)
  obtain client where x: "eff_each (resolve_one sv client) refs b = Some (Inl e, b')"
    using assms nl r
    by (auto simp: resolve_secrets_into_env_def eff_simps Let_def split: if_split_asm option.split_asm sum.split_asm)
  note p = resolve_all_partial [OF x]
  obtain t where t: "t \<in> set (map fst refs)" "env_get (bt_env b') t \<noteq> None" using p assms(2) by blast
  then obtain k where k: "k \<in> set (map fst (bt_env b))" "py_startswith k secret_prefix" "t = drop (length secret_prefix) k"
    unfolding secret_references_targets [OF r] by force
  show ?thesis
  proof (cases "secret_references (bt_env b')")
    case (Inl e')
    then show ?thesis
      using p nl secret_references_error [OF Inl] by (simp add: resolve_secrets_into_env_def eff_simps)
  next
    case (Inr refs')
    have "k \<in> set (map fst (bt_env b'))" using k(1) p by blast
    then have "t \<in> set (map fst refs')"
      unfolding secret_references_targets [OF Inr] using k(2,3) by force
    then have "filter (\<lambda>t. env_get (bt_env b') t \<noteq> None) (map fst refs') \<noteq> []" "refs' \<noteq> []"
      using t(2) by (auto simp: filter_empty_conv)
    then show ?thesis
      using p nl Inr by (simp add: resolve_secrets_into_env_def eff_simps Let_def loader_error_def isinstance_def)
  qed
qed

definition sample_services :: services where
  "sample_services =
     \<lparr>sv_get_secret_value = (\<lambda>tr arn v. Inr ''document''),
      sv_json_loads = (\<lambda>s. if s = ''document'' then Some (PDict [(''URL'', PStr ''admin/''), (''PORT'', PInt 3)]) else None),
      sv_metadata = (\<lambda>tr u. Inr ''metadata''),
      sv_setrlimit = (\<lambda>tr n. None),
      sv_django_setup = (\<lambda>tr env. None),
      sv_models_import = Exn (Cls ''AppRegistryNotReady'' [Exception_cls]) [] [],
      sv_uuid4 = (\<lambda>tr. ''uuid''),
      sv_otel = (\<lambda>tr c. None)\<rparr>"

definition sample_boot :: "environ \<Rightarrow> boot" where
  "sample_boot env =
     \<lparr>bt_env = env, bt_environment_loaded = False, bt_secrets_loaded = False, bt_secret_cache = [],
      bt_boot_handlers = 0, bt_log_level = 0, bt_rlimit = None, bt_django = None,
      bt_cold_start_done = False, bt_tracer_provider = False, bt_trace = []\<rparr>"

definition url_reference :: "string \<times> string" where
  "url_reference = (''LAMBDA_TASKS_SECRET_ADMIN_URL'', ''arn:aws:secretsmanager:eu-west-1:123:secret:app:URL::v1'')"

definition port_reference :: "string \<times> string" where
  "port_reference = (''LAMBDA_TASKS_SECRET_PORT'', ''arn:aws:secretsmanager:eu-west-1:123:secret:app:PORT::v1'')"


theorem failed_secrets_never_recover_witness:
  "\<exists>e b' e'. resolve_secrets_into_env sample_services (sample_boot [url_reference, port_reference]) = Some (Inl e, b') \<and>
    isinstance e TypeError_cls \<and>
    resolve_secrets_into_env (sample_services\<lparr>sv_json_loads :=
       (\<lambda>s. Some (PDict [(''URL'', PStr ''admin/''), (''PORT'', PStr ''3'')]))\<rparr>) b' = Some (Inl e', b') \<and>
    isinstance e' ValueError_cls"
proof -
  let ?b = "sample_boot [url_reference, port_reference]"
  let ?r = "resolve_secrets_into_env sample_services ?b"
  let ?e = "projl (fst (the ?r))"
  have h: "?r = Some (Inl ?e, snd (the ?r))" "bt_env (snd (the ?r)) \<noteq> bt_env ?b" "isinstance ?e TypeError_cls" by code_simp+
  show ?thesis using failed_secrets_never_recover [OF h(1,2)] h(1,3) by blast
qed

section \<open>Loading the environment secret\<close>

lemma set_all_Inr:
  "eff_each (\<lambda>(key, v). environ_setitem key v) kvs b = Some (Inr (), b') \<Longrightarrow> distinct (map fst kvs) \<Longrightarrow>
   bt_trace b' = bt_trace b \<and> (\<forall>(k, v) \<in> set kvs. \<exists>s. v = PStr s \<and> env_get (bt_env b') k = Some s) \<and>
   (\<forall>k. k \<notin> set (map fst kvs) \<longrightarrow> env_get (bt_env b') k = env_get (bt_env b) k)"
proof (induction kvs arbitrary: b)
  case Nil
  then show ?case by (simp add: eff_simps)
next
  case (Cons kv kvs)
  obtain k v where kv: "kv = (k, v)" by force
  from Cons.prems obtain s b1 where s: "v = PStr s" "b1 = b\<lparr>bt_env := env_put k s (bt_env b)\<rparr>"
    and rest: "eff_each (\<lambda>(key, v). environ_setitem key v) kvs b1 = Some (Inr (), b')"
    unfolding kv
    by (auto simp: eff_simps environ_setitem_def environ_setitem_error_def split: option.split_asm pyval.split_asm if_split_asm)
  have k: "k \<notin> set (map fst kvs)" "distinct (map fst kvs)" using Cons.prems(2) kv by simp_all
  show ?case using Cons.IH [OF rest k(2)] s k(1) unfolding kv by auto
qed

text \<open>A successful run of the environment loader has set every variable of the secret's document, all
  of them strings, and no other; it fetched the referenced version once; and every later run returns
  at once, also when the document itself replaced the reference.\<close>

lemma environment_secret_loaded:
  assumes "resolve_environment sv b = Some (Inr (), b')" and "\<not> bt_environment_loaded b"
    and "env_get (bt_env b) environment_var = Some ref" and "ref \<noteq> []"
    and "\<forall>s kvs. sv_json_loads sv s = Some (PDict kvs) \<longrightarrow> distinct (map fst kvs)"
  shows "\<exists>arn version_id kvs. environment_parse_reference ref = Inr (arn, version_id) \<and>
    bt_trace b' = bt_trace b @ [GetSecretValue arn version_id] \<and>
    (\<forall>(k, v) \<in> set kvs. \<exists>s. v = PStr s \<and> env_get (bt_env b') k = Some s) \<and>
    (\<forall>k. k \<notin> set (map fst kvs) \<longrightarrow> env_get (bt_env b') k = env_get (bt_env b) k) \<and>
    resolve_environment sv' b' = Some (Inr (), b')"
proof -
  from assms(1-4) obtain arn vid where p: "environment_parse_reference ref = Inr (arn, vid)"
    by (cases "environment_parse_reference ref") (auto simp: resolve_environment_def eff_simps)
  let ?b1 = "boot_emit (GetSecretValue arn vid) b"
  from assms(1-4) p obtain raw where raw: "sv_get_secret_value sv (bt_trace b) arn vid = Inr raw"
    by (cases "sv_get_secret_value sv (bt_trace b) arn vid")
       (auto simp: resolve_environment_def eff_simps secrets_get_def)
  from assms(1-4) p raw obtain kvs where k: "environment_validate_and_parse (sv_json_loads sv) raw arn = Inr kvs"
    by (cases "environment_validate_and_parse (sv_json_loads sv) raw arn")
       (auto simp: resolve_environment_def eff_simps secrets_get_def)
  from assms(1-4) p raw k obtain b2 where e: "eff_each (\<lambda>(key, v). environ_setitem key v) kvs ?b1 = Some (Inr (), b2)"
    and b': "b' = b2\<lparr>bt_environment_loaded := True\<rparr>"
    by (auto simp: resolve_environment_def eff_simps secrets_get_def split: option.split_asm sum.split_asm)
  have d: "distinct (map fst kvs)"
    using k assms(5) by (auto simp: environment_validate_and_parse_def Let_def split: option.split_asm pyval.split_asm if_split_asm)
  have "resolve_environment sv' b' = Some (Inr (), b')"
    by (simp add: resolve_environment_def eff_simps b')
  then show ?thesis
    using p set_all_Inr [OF e d] b' by (intro exI [of _ arn] exI [of _ vid] exI [of _ kvs]) (simp add: boot_emit_def)
qed

definition environment_boot :: boot where
  "environment_boot = sample_boot [(environment_var, ''arn:aws:secretsmanager:eu-west-1:123:secret:env:v2'')]"

definition environment_services :: services where
  "environment_services = sample_services\<lparr>sv_json_loads := (\<lambda>s. Some (PDict [(''DJANGO_SETTINGS_MODULE'', PStr ''app.settings'')]))\<rparr>"

lemma environment_secret_loaded_witness:
  "\<exists>b'. resolve_environment environment_services environment_boot = Some (Inr (), b') \<and>
    bt_trace b' = [GetSecretValue ''arn:aws:secretsmanager:eu-west-1:123:secret:env'' ''v2''] \<and>
    resolve_environment environment_services b' = Some (Inr (), b')"
proof -
  let ?ref = "''arn:aws:secretsmanager:eu-west-1:123:secret:env:v2''"
  let ?r = "resolve_environment environment_services environment_boot"
  have h: "?r = Some (Inr (), snd (the ?r))" "\<not> bt_environment_loaded environment_boot"
    "env_get (bt_env environment_boot) environment_var = Some ?ref" "?ref \<noteq> []"
    "environment_parse_reference ?ref = Inr (''arn:aws:secretsmanager:eu-west-1:123:secret:env'', ''v2'')"
    "bt_trace environment_boot = []"
    by code_simp+
  have d: "\<forall>s kvs. sv_json_loads environment_services s = Some (PDict kvs) \<longrightarrow> distinct (map fst kvs)"
    by (simp add: environment_services_def)
  show ?thesis
    using environment_secret_loaded [OF h(1-4) d, of environment_services] h(1,5,6) by auto
qed

end
