(* ===== verification/Handler_Props.thy ===== *)
theory Handler_Props
  imports Handler Delivery_Props Environment_Props
begin

text \<open>
  What the entry points guarantee: which records of a batch are reported as failed, what an
  acknowledged record has left behind, what a Batch container runs, and the cold start.
\<close>

section \<open>Evaluation\<close>

lemma on_boot_at [eff_simps]:
  "on_boot m k = (case m (wk_boot k) of None \<Rightarrow> None | Some (r, b) \<Rightarrow> Some (r, k\<lparr>wk_boot := b\<rparr>))"
  by (simp add: on_boot_def)

lemma on_world_at [eff_simps]:
  "on_world m k = (case m (wk_world k) of None \<Rightarrow> None | Some (r, w) \<Rightarrow> Some (r, k\<lparr>wk_world := w\<rparr>))"
  by (simp add: on_world_def)

lemma boot_call_at [eff_simps]: "boot_call ev answer b = Some (answer (bt_trace b), boot_emit ev b)"
  by (simp add: boot_call_def)

lemma boot_emit_simps [simp]:
  "bt_env (boot_emit ev b) = bt_env b" "bt_secrets_loaded (boot_emit ev b) = bt_secrets_loaded b"
  "bt_environment_loaded (boot_emit ev b) = bt_environment_loaded b"
  "bt_secret_cache (boot_emit ev b) = bt_secret_cache b" "bt_boot_handlers (boot_emit ev b) = bt_boot_handlers b"
  "bt_log_level (boot_emit ev b) = bt_log_level b" "bt_django (boot_emit ev b) = bt_django b"
  "bt_cold_start_done (boot_emit ev b) = bt_cold_start_done b" "bt_rlimit (boot_emit ev b) = bt_rlimit b"
  "bt_tracer_provider (boot_emit ev b) = bt_tracer_provider b"
  "bt_trace (boot_emit ev b) = bt_trace b @ [ev]"
  by (simp_all add: boot_emit_def)

lemma cold_start_done: "bt_cold_start_done b \<Longrightarrow> perform_cold_start sv b = Some (Inr (), b)"
  by (simp add: perform_cold_start_def eff_simps)

section \<open>A batch of records\<close>

text \<open>The records of a batch one after the other, each from the state the one before left, whatever
  became of that one: the state before, the outcome and the state after.\<close>

type_synonym 'd step = "'d world \<times> unit res \<times> 'd world"

fun batch_steps :: "nat \<Rightarrow> 'd platform \<Rightarrow> sqs_record list \<Rightarrow> 'd world \<Rightarrow> 'd step list option" where
  "batch_steps n plat [] w = Some []"
| "batch_steps n plat (rec # recs) w = (case process_record n plat rec w of
     None \<Rightarrow> None
   | Some (out, w') \<Rightarrow> map_option (\<lambda>steps. (w, out, w') # steps) (batch_steps n plat recs w'))"

definition step_error :: "'d step \<Rightarrow> exn option" where
  "step_error st = (case fst (snd st) of Inl e \<Rightarrow> Some e | Inr _ \<Rightarrow> None)"

definition batch_end :: "'d world \<Rightarrow> 'd step list \<Rightarrow> 'd world" where
  "batch_end w steps = (if steps = [] then w else snd (snd (last steps)))"

definition failed_ids :: "sqs_record list \<Rightarrow> 'd step list \<Rightarrow> string list" where
  "failed_ids recs steps = map (\<lambda>(r, st). messageId r) (filter (\<lambda>(r, st). step_error st \<noteq> None) (zip recs steps))"

definition failures_logged :: "'d step list \<Rightarrow> boot \<Rightarrow> boot" where
  "failures_logged steps b =
     b\<lparr>bt_trace := bt_trace b @ map (\<lambda>st. RecordFailed (the (step_error st))) (filter (\<lambda>st. step_error st \<noteq> None) steps)\<rparr>"

definition caught :: "'d step list \<Rightarrow> bool" where
  "caught steps \<longleftrightarrow> (\<forall>st \<in> set steps. case step_error st of None \<Rightarrow> True | Some e \<Rightarrow> is_Exception e)"

lemma batch_steps_length: "batch_steps n plat recs w = Some steps \<Longrightarrow> length steps = length recs"
  by (induction recs arbitrary: w steps) (auto split: option.split_asm)

lemma handle_records_Cons:
  assumes "process_record n plat rec (wk_world k) = Some (out, w')"
  shows "handle_records n plat acc (rec # recs) k = (case out of
      Inr _ \<Rightarrow> handle_records n plat acc recs (k\<lparr>wk_world := w'\<rparr>)
    | Inl x \<Rightarrow> if is_Exception x
        then handle_records n plat (acc @ [messageId rec]) recs
               (k\<lparr>wk_world := w', wk_boot := boot_emit (RecordFailed x) (wk_boot k)\<rparr>)
        else Some (Inl x, k\<lparr>wk_world := w'\<rparr>))"
  using assms by (simp add: eff_simps split: sum.split)

lemma handle_records_batch:
  assumes "batch_steps n plat recs (wk_world k) = Some steps" and "caught steps"
  shows "handle_records n plat acc recs k =
    Some (Inr (acc @ failed_ids recs steps),
      k\<lparr>wk_boot := failures_logged steps (wk_boot k), wk_world := batch_end (wk_world k) steps\<rparr>)"
  using assms
proof (induction recs arbitrary: k acc steps)
  case Nil
  then show ?case by (simp add: eff_simps failed_ids_def failures_logged_def batch_end_def)
next
  case (Cons rec recs)
  then obtain out w' sts where p: "process_record n plat rec (wk_world k) = Some (out, w')"
    and b: "batch_steps n plat recs w' = Some sts" and s: "steps = (wk_world k, out, w') # sts"
    by (auto split: option.split_asm)
  have e: "batch_end (wk_world k) steps = batch_end w' sts" by (simp add: s batch_end_def)
  have c: "caught sts" using Cons.prems(2) by (simp add: s caught_def)
  show ?case
  proof (cases out)
    case (Inr u)
    have "handle_records n plat acc (rec # recs) k = handle_records n plat acc recs (k\<lparr>wk_world := w'\<rparr>)"
      unfolding handle_records_Cons [OF p] by (simp add: Inr)
    also have "\<dots> = Some (Inr (acc @ failed_ids recs sts),
        k\<lparr>wk_boot := failures_logged sts (wk_boot k), wk_world := batch_end w' sts\<rparr>)"
      using Cons.IH [of "k\<lparr>wk_world := w'\<rparr>" sts acc] b c by simp
    finally show ?thesis
      unfolding e by (simp add: s Inr failed_ids_def failures_logged_def step_error_def)
  next
    case (Inl x)
    have "is_Exception x" using Cons.prems(2) by (simp add: s caught_def Inl step_error_def)
    then have "handle_records n plat acc (rec # recs) k =
      handle_records n plat (acc @ [messageId rec]) recs (k\<lparr>wk_world := w', wk_boot := boot_emit (RecordFailed x) (wk_boot k)\<rparr>)"
      unfolding handle_records_Cons [OF p] by (simp add: Inl)
    also have "\<dots> = Some (Inr (acc @ [messageId rec] @ failed_ids recs sts),
        k\<lparr>wk_boot := failures_logged sts (boot_emit (RecordFailed x) (wk_boot k)), wk_world := batch_end w' sts\<rparr>)"
      using Cons.IH [of "k\<lparr>wk_world := w', wk_boot := boot_emit (RecordFailed x) (wk_boot k)\<rparr>" sts "acc @ [messageId rec]"] b c
      by simp
    finally show ?thesis
      unfolding e by (simp add: s Inl failed_ids_def failures_logged_def step_error_def boot_emit_def)
  qed
qed

lemma process_record_total:
  "\<not> EAGER (p_settings plat) \<Longrightarrow> eff_total (process_record (Suc (Suc (Suc n))) plat rec)"
  unfolding process_record_def close_old_connections_def
  by (intro eff_total_seq eff_total_bind eff_total_world execute_immediately_total eff_total_basic)

lemma batch_steps_total:
  assumes "\<not> EAGER (p_settings plat)"
  shows "\<exists>steps. batch_steps (Suc (Suc (Suc n))) plat recs w = Some steps"
proof (induction recs arbitrary: w)
  case (Cons rec recs)
  obtain r w' where "process_record (Suc (Suc (Suc n))) plat rec w = Some (r, w')"
    using process_record_total [OF assms] by (rule eff_totalE)
  with Cons.IH [of w'] show ?case by auto
qed simp

lemma handle_records_Inr:
  assumes "handle_records n plat acc recs k = Some (Inr failures, k')"
  shows "\<exists>steps. batch_steps n plat recs (wk_world k) = Some steps \<and> caught steps"
  using assms
proof (induction recs arbitrary: k acc)
  case (Cons rec recs)
  then obtain out w' where p: "process_record n plat rec (wk_world k) = Some (out, w')"
    by (auto simp: eff_simps split: option.split_asm)
  have "\<exists>acc' k1. wk_world k1 = w' \<and> handle_records n plat acc' recs k1 = Some (Inr failures, k') \<and>
      (case out of Inl x \<Rightarrow> is_Exception x | Inr _ \<Rightarrow> True)"
    using Cons.prems unfolding handle_records_Cons [OF p]
    by (cases out) (force split: if_split_asm)+
  with Cons.IH obtain steps where "batch_steps n plat recs w' = Some steps" "caught steps"
    "case out of Inl x \<Rightarrow> is_Exception x | Inr _ \<Rightarrow> True" by blast
  with p show ?case
    by (auto simp: caught_def step_error_def split: sum.split)
qed (simp add: caught_def)

lemma handle_records_uncaught:
  assumes "batch_steps n plat recs (wk_world k) = Some steps" and "\<not> caught steps"
  shows "\<exists>e k'. handle_records n plat acc recs k = Some (Inl e, k') \<and> \<not> is_Exception e"
  using assms
proof (induction recs arbitrary: k acc steps)
  case (Cons rec recs)
  then obtain out w' sts where p: "process_record n plat rec (wk_world k) = Some (out, w')"
    and b: "batch_steps n plat recs w' = Some sts" and s: "steps = (wk_world k, out, w') # sts"
    by (auto split: option.split_asm)
  show ?case
  proof (cases "case out of Inl x \<Rightarrow> is_Exception x | Inr _ \<Rightarrow> True")
    case False
    with p show ?thesis by (auto simp: eff_simps split: sum.split_asm)
  next
    case True
    with Cons.prems(2) have c: "\<not> caught sts" by (auto simp: s caught_def step_error_def split: sum.split_asm)
    have "\<exists>acc' k1. wk_world k1 = w' \<and> handle_records n plat acc (rec # recs) k = handle_records n plat acc' recs k1"
      using True unfolding handle_records_Cons [OF p] by (cases out) force+
    with Cons.IH c b show ?thesis by (metis (no_types, lifting))
  qed
qed (simp add: caught_def)

lemma handler_after_cold_start:
  assumes "perform_cold_start sv (wk_boot k) = Some (Inr (), b)"
  shows "handler n sv plat recs k = (case bt_django b of
      None \<Rightarrow> Some (Inl (sv_models_import sv), k\<lparr>wk_boot := b\<rparr>)
    | Some env \<Rightarrow> handle_records n (plat env) [] recs (k\<lparr>wk_boot := b\<rparr>))"
  by (simp add: handler_def eff_simps assms split: option.split)

lemma handler_Inr:
  assumes "handler n sv plat recs k = Some (Inr failures, k')"
  obtains env steps where "batch_steps n (plat env) recs (wk_world k) = Some steps" "caught steps"
    "failures = failed_ids recs steps" "wk_world k' = batch_end (wk_world k) steps"
proof -
  from assms obtain b where c: "perform_cold_start sv (wk_boot k) = Some (Inr (), b)"
    by (auto simp: handler_def eff_simps split: option.split_asm sum.split_asm)
  obtain env where h: "handle_records n (plat env) [] recs (k\<lparr>wk_boot := b\<rparr>) = Some (Inr failures, k')"
    using assms unfolding handler_after_cold_start [OF c] by (auto split: option.split_asm)
  then obtain steps where s: "batch_steps n (plat env) recs (wk_world k) = Some steps" "caught steps"
    using handle_records_Inr [OF h] by auto
  show thesis
    by (rule that [OF s]) (use handle_records_batch [of n "plat env" recs "k\<lparr>wk_boot := b\<rparr>" steps "[]"] s h in simp_all)
qed

text \<open>C16. The handler reports exactly the failed records.  Once the cold start is done, a batch is
  processed to its end outside eager mode: every record runs once, in order, from the state the one
  before left, whatever became of that one.  If every failure is an \<open>Exception\<close>, the handler returns
  the ids of the records that raised, in order, and no others; anything else a record raises
  (\<open>SystemExit\<close>, \<open>KeyboardInterrupt\<close>) ends the invocation.\<close>

theorem handler_reports_exactly_the_failed:
  assumes "perform_cold_start sv (wk_boot k) = Some (Inr (), b)" and "bt_django b = Some env"
    and "\<not> EAGER (p_settings (plat env))"
  shows "\<exists>steps. batch_steps (Suc (Suc (Suc n))) (plat env) recs (wk_world k) = Some steps \<and>
    length steps = length recs \<and>
    (if caught steps
     then handler (Suc (Suc (Suc n))) sv plat recs k = Some (Inr (failed_ids recs steps),
            k\<lparr>wk_boot := failures_logged steps b, wk_world := batch_end (wk_world k) steps\<rparr>)
     else \<exists>e k'. handler (Suc (Suc (Suc n))) sv plat recs k = Some (Inl e, k') \<and> \<not> is_Exception e)"
proof -
  obtain steps where s: "batch_steps (Suc (Suc (Suc n))) (plat env) recs (wk_world k) = Some steps"
    using batch_steps_total [OF assms(3)] by blast
  have h: "handler (Suc (Suc (Suc n))) sv plat recs k =
      handle_records (Suc (Suc (Suc n))) (plat env) [] recs (k\<lparr>wk_boot := b\<rparr>)"
    by (simp add: handler_after_cold_start [OF assms(1)] assms(2))
  have w: "batch_steps (Suc (Suc (Suc n))) (plat env) recs (wk_world (k\<lparr>wk_boot := b\<rparr>)) = Some steps"
    using s by simp
  show ?thesis
    using s batch_steps_length [OF s] handle_records_batch [OF w, of "[]"] handle_records_uncaught [OF w, of "[]"]
    unfolding h by auto
qed

section \<open>Acknowledged records\<close>

lemma process_record_Inr:
  assumes "process_record n plat rec w = Some (Inr (), w')"
  obtains m where "message_from_json (p_from_json plat) (p_lax_int plat) (body rec) = Inr m"
    "execute_immediately n plat m (messageId rec) (add_event CloseConnections w) = Some (Inr (), w')"
  using assms
  by (auto simp: process_record_def close_old_connections_def ext_call_def eff_simps
      split: option.split_asm sum.split_asm)

lemma process_record_idle:
  assumes "process_record n plat rec w = Some (out, w')" and "idle w"
  shows "idle w'"
proof -
  have i: "idle (add_event CloseConnections w)" using assms(2) by (simp add: idle_def)
  show ?thesis
  proof (cases "p_close_connections plat (wd_trace w) = None \<and>
      \<not> isl (message_from_json (p_from_json plat) (p_lax_int plat) (body rec))")
    case False
    then show ?thesis
      using assms(1) i by (auto simp: process_record_def close_old_connections_def ext_call_def eff_simps
          split: option.split_asm sum.split_asm)
  next
    case True
    then obtain m where "execute_immediately n plat m (messageId rec) (add_event CloseConnections w) = Some (out, w')"
      using assms(1) by (auto simp: process_record_def close_old_connections_def ext_call_def eff_simps
          split: option.split_asm sum.split_asm)
    then have "undisturbed plat (add_event CloseConnections w) w'"
      using worker.keeps_execute [of plat n] by (auto dest: eff_keepsD)
    then show ?thesis using i by (simp add: undisturbed_def idle_def)
  qed
qed

lemma batch_steps_nth:
  assumes "batch_steps n plat recs w = Some steps" and "idle w" and "j < length recs" and "steps ! j = (w1, out, w2)"
  shows "process_record n plat (recs ! j) w1 = Some (out, w2) \<and> idle w1"
  using assms
proof (induction recs arbitrary: j w steps)
  case (Cons rec recs)
  then obtain o' w' sts where "process_record n plat rec w = Some (o', w')"
    "batch_steps n plat recs w' = Some sts" "steps = (w, o', w') # sts"
    by (auto split: option.split_asm)
  with Cons show ?case
    by (cases j) (auto dest: process_record_idle)
qed simp


section \<open>The Batch container\<close>

definition container_boot :: "boot \<Rightarrow> unit res \<Rightarrow> boot" where
  "container_boot b r = (case r of Inl e \<Rightarrow> boot_emit (RecordFailed e) b | Inr _ \<Rightarrow> b)"

lemma container_boot_env [simp]: "bt_env (container_boot b r) = bt_env b"
  "bt_tracer_provider (container_boot b r) = bt_tracer_provider b"
  by (simp_all add: container_boot_def split: sum.split)

lemma env_default_Some: "env_get env x = Some v \<Longrightarrow> env_default env x d = v"
  by (simp add: env_default_def)

text \<open>The container of a job: its environment carries the message and the id AWS gave the job, its cold
  start succeeds, and the message runs there with outcome \<open>r\<close>.\<close>

definition container_runs ::
  "nat \<Rightarrow> services \<Rightarrow> (environ \<Rightarrow> 'd platform) \<Rightarrow> batch_job \<Rightarrow> string \<Rightarrow> sqs_message \<Rightarrow> 'd worker
   \<Rightarrow> boot \<Rightarrow> unit res \<Rightarrow> 'd world \<Rightarrow> bool" where
  "container_runs n sv plat job job_id m k b r w' \<longleftrightarrow>
     (\<exists>text env. job_environment job = [(''LAMBDA_TASKS_MESSAGE'', text)] \<and> text \<noteq> [] \<and>
        env_get (bt_env (wk_boot k)) ''LAMBDA_TASKS_MESSAGE'' = Some text \<and>
        env_get (bt_env (wk_boot k)) ''AWS_BATCH_JOB_ID'' = Some job_id \<and>
        perform_cold_start sv (boot_emit NewUUID (wk_boot k)) = Some (Inr (), b) \<and> bt_django b = Some env \<and>
        message_from_json (p_from_json (plat env)) (p_lax_int (plat env)) text = Inr m \<and>
        p_close_connections (plat env) (wd_trace (wk_world k)) = None \<and>
        execute_immediately n (plat env) m job_id (add_event CloseConnections (wk_world k)) = Some (r, w')) \<and>
     (case r of Inl e \<Rightarrow> is_Exception e | Inr _ \<Rightarrow> True)"

lemma main_container:
  assumes "container_runs n sv plat job job_id m k b r w'"
  shows "main n sv plat k =
    eff_seq (on_boot (flush_tracing sv)) (eff_ret (if r = Inr () then 0 else 1))
      (k\<lparr>wk_boot := container_boot b r, wk_world := w'\<rparr>)"
proof -
  from assms obtain s env where t: "s \<noteq> []"
    and e: "env_get (bt_env (wk_boot k)) ''LAMBDA_TASKS_MESSAGE'' = Some s"
      "env_get (bt_env (wk_boot k)) ''AWS_BATCH_JOB_ID'' = Some job_id"
    and c: "perform_cold_start sv (boot_emit NewUUID (wk_boot k)) = Some (Inr (), b)" "bt_django b = Some env"
    and m: "message_from_json (p_from_json (plat env)) (p_lax_int (plat env)) s = Inr m"
      "p_close_connections (plat env) (wd_trace (wk_world k)) = None"
    and x: "execute_immediately n (plat env) m job_id (add_event CloseConnections (wk_world k)) = Some (r, w')"
    and r: "case r of Inl e \<Rightarrow> is_Exception e | Inr _ \<Rightarrow> True"
    by (auto simp: container_runs_def)
  let ?k = "k\<lparr>wk_boot := boot_emit NewUUID (wk_boot k)\<rparr>" and ?rec = "\<lparr>messageId = job_id, body = s\<rparr>"
  have p: "process_record n (plat env) ?rec (wk_world (?k\<lparr>wk_boot := b\<rparr>)) = Some (r, w')"
    using m x by (simp add: process_record_def close_old_connections_def ext_call_def eff_simps)
  have h: "handler n sv plat [?rec] ?k = Some (Inr (if r = Inr () then [] else [job_id]),
      k\<lparr>wk_boot := container_boot b r, wk_world := w'\<rparr>)"
  proof -
    have s: "batch_steps n (plat env) [?rec] (wk_world (?k\<lparr>wk_boot := b\<rparr>)) = Some [(wk_world k, r, w')]"
      using p by simp
    have "caught [(wk_world k, r, w')]" using r by (cases r) (simp_all add: caught_def step_error_def)
    from handle_records_batch [OF s this, of "[]"]
    have "handle_records n (plat env) [] [?rec] (?k\<lparr>wk_boot := b\<rparr>) =
        Some (Inr (if r = Inr () then [] else [job_id]), k\<lparr>wk_boot := container_boot b r, wk_world := w'\<rparr>)"
      by (cases r) (simp_all add: failed_ids_def step_error_def failures_logged_def batch_end_def
          container_boot_def boot_emit_def del: handle_records.simps)
    then show ?thesis
      using handler_after_cold_start [of sv ?k b n plat "[?rec]"] c by (simp del: handle_records.simps)
  qed
  show ?thesis
    unfolding main_def
    by (simp add: eff_bind_at eff_get_at eff_ret_at on_boot_at boot_call_at env_default_Some [OF e(1)]
        env_default_Some [OF e(2)] t h Let_def eff_seq_at split: option.split)
qed

text \<open>C20. A Batch job runs its message.  The container of a job submitted for a message executes exactly
  that message, once, under the id of the job, after its cold start; its exit code is 0 if the
  execution returned and 1 if it raised, and the error is logged.  (Tracing off.)\<close>

theorem batch_container_runs_message:
  assumes "container_runs n sv plat job job_id m k b r w'" and "\<not> tracing_is_enabled (bt_env b)"
  shows "main n sv plat k = Some (Inr (case r of Inr _ \<Rightarrow> 0 | Inl e \<Rightarrow> 1),
    k\<lparr>wk_boot := container_boot b r, wk_world := w'\<rparr>)"
  using assms(2) unfolding main_container [OF assms(1)]
  by (cases r) (simp_all add: eff_simps flush_tracing_def)

text \<open>Flushing the traces is not best effort: in a container with tracing on, an exception of the
  OpenTelemetry packages while they are imported, looked up or flushed (they are an optional extra)
  ends \<open>main\<close> with that exception, although the message was executed and its record is finished:
  Batch sees a failed job.\<close>

lemma flush_failure_fails_finished_job:
  assumes "container_runs n sv plat job job_id m k b (Inr ()) w'" and "tracing_is_enabled (bt_env b)"
    and "sv_otel sv (bt_trace b) ''import opentelemetry'' = Some e"
  shows "main n sv plat k =
    Some (Inl e, k\<lparr>wk_world := w', wk_boot := boot_emit (OtelCall ''import opentelemetry'' []) b\<rparr>)"
  using assms(2,3) unfolding main_container [OF assms(1)]
  by (simp add: eff_simps flush_tracing_def otel_def container_boot_def)

section \<open>The cold start\<close>

text \<open>What the memory limit and the loaders do not touch.\<close>

definition boot_kept :: "boot \<Rightarrow> boot \<Rightarrow> bool" where
  "boot_kept b b' \<longleftrightarrow> bt_boot_handlers b' = bt_boot_handlers b \<and> bt_log_level b' = bt_log_level b \<and>
     bt_django b' = bt_django b \<and> bt_cold_start_done b' = bt_cold_start_done b \<and>
     bt_tracer_provider b' = bt_tracer_provider b \<and> prefix (bt_trace b) (bt_trace b')"

interpretation loader: eff_relation boot_kept
  by unfold_locales (auto simp: boot_kept_def)

lemma boot_kept_elementary:
  "eff_keeps boot_kept (environ_setitem x v)" "eff_keeps boot_kept (secrets_get sv arn vid)"
  "eff_keeps boot_kept (boot_call ev answer)"
  by (auto simp: eff_keeps_def boot_kept_def environ_setitem_def secrets_get_def boot_call_def boot_emit_def
      split: option.split_asm)

lemma loaders_keep:
  "eff_keeps boot_kept (set_memory_limit sv)" "eff_keeps boot_kept (resolve_environment sv)"
  "eff_keeps boot_kept (resolve_secrets_into_env sv)"
proof -
  note rules = loader.keeps_bind loader.keeps_seq loader.keeps_pure loader.keeps_try boot_kept_elementary loader.keeps_each
  have "eff_keeps boot_kept (get_memory_mb sv)"
    unfolding get_memory_mb_def by (auto intro!: rules split: option.split)
  then show "eff_keeps boot_kept (set_memory_limit sv)"
    unfolding set_memory_limit_def Let_def
    by (auto intro!: rules loader.keeps_upd simp: boot_kept_def split: option.split)
  show "eff_keeps boot_kept (resolve_environment sv)"
    unfolding resolve_environment_def
    by (auto intro!: rules loader.keeps_upd simp: boot_kept_def split: prod.split)
  have "eff_keeps boot_kept (secret_fetch sv client ref)" for client ref
    unfolding secret_fetch_def
    by (auto intro!: rules loader.keeps_upd simp: boot_kept_def split: option.split)
  then have "eff_keeps boot_kept (resolve_one sv client x)" for client x
    unfolding resolve_one_def by (auto intro!: rules split: prod.split)
  then show "eff_keeps boot_kept (resolve_secrets_into_env sv)"
    unfolding resolve_secrets_into_env_def Let_def
    by (auto intro!: rules loader.keeps_upd simp: boot_kept_def)
qed

definition boot_attached :: "boot \<Rightarrow> boot" where
  "boot_attached b = b\<lparr>bt_boot_handlers := Suc (bt_boot_handlers b), bt_log_level := DEBUG\<rparr>"

lemma boot_attached_simps [simp]:
  "bt_boot_handlers (boot_attached b) = Suc (bt_boot_handlers b)" "bt_log_level (boot_attached b) = DEBUG"
  "bt_django (boot_attached b) = bt_django b" "bt_cold_start_done (boot_attached b) = bt_cold_start_done b"
  "bt_env (boot_attached b) = bt_env b" "bt_trace (boot_attached b) = bt_trace b"
  by (simp_all add: boot_attached_def)

definition boot_detached :: "boot \<Rightarrow> boot" where
  "boot_detached b = b\<lparr>bt_boot_handlers := bt_boot_handlers b - 1, bt_log_level := NOTSET\<rparr>"

definition loaders :: "services \<Rightarrow> (boot, unit) eff" where
  "loaders sv = eff_seq (resolve_environment sv) (resolve_secrets_into_env sv)"

lemma loaders_Some:
  assumes "set_memory_limit sv (boot_attached b) = Some (Inr (), b1)" and "loaders sv b1 = Some (r, b2)"
  shows "bt_boot_handlers b2 = Suc (bt_boot_handlers b)" and "bt_django b2 = bt_django b"
    and "bt_cold_start_done b2 = bt_cold_start_done b"
proof -
  have "eff_keeps boot_kept (loaders sv)"
    unfolding loaders_def by (intro loader.keeps_seq loaders_keep)
  then have "boot_kept b1 b2" using assms(2) by (rule eff_keepsD)
  moreover have "boot_kept (boot_attached b) b1" using loaders_keep(1) assms(1) by (rule eff_keepsD)
  ultimately show "bt_boot_handlers b2 = Suc (bt_boot_handlers b)" "bt_django b2 = bt_django b"
    "bt_cold_start_done b2 = bt_cold_start_done b"
    by (simp_all add: boot_kept_def)
qed

text \<open>The cold start, step by step.\<close>

lemma perform_cold_start_at:
  assumes "\<not> bt_cold_start_done b"
  shows "perform_cold_start sv b = (case set_memory_limit sv (boot_attached b) of
      None \<Rightarrow> None
    | Some (Inl e, b1) \<Rightarrow> Some (Inl e, b1)
    | Some (Inr _, b1) \<Rightarrow> (case loaders sv b1 of
        None \<Rightarrow> None
      | Some (Inl e, b2) \<Rightarrow> Some (Inl e, boot_detached b2)
      | Some (Inr _, b2) \<Rightarrow>
          (if env_default (bt_env b2) ''DJANGO_SETTINGS_MODULE'' [] \<noteq> [] \<and> bt_django b2 = None
           then (case sv_django_setup sv (bt_trace b2) (bt_env b2) of
                   Some e \<Rightarrow> Some (Inl e, boot_emit (DjangoSetup (bt_env b2)) (boot_detached b2))
                 | None \<Rightarrow> Some (Inr (), (boot_emit (DjangoSetup (bt_env b2)) (boot_detached b2))
                     \<lparr>bt_django := Some (bt_env b2), bt_cold_start_done := True\<rparr>))
           else Some (Inr (), (boot_detached b2)\<lparr>bt_cold_start_done := True\<rparr>))))"
  using assms
  by (simp add: perform_cold_start_def eff_simps boot_attached_def [symmetric] boot_detached_def [symmetric]
      loaders_def [symmetric] django_setup_def answer_of_def split: option.split sum.split)
     (simp add: boot_detached_def split: option.split)

text \<open>C38. A cold start that succeeds happens once and leaves the process ready: the memory limit was set
  and both loaders ran to their end, in that order; Django was then set up under the environment they
  left, if the environment names a settings module and Django was not ready; the temporary log
  handler is gone and the log level reset; a second cold start does nothing.\<close>

theorem cold_start_runs_once:
  assumes "perform_cold_start sv b = Some (Inr (), b')" and "\<not> bt_cold_start_done b"
  shows "(\<exists>b1 b2 b3. set_memory_limit sv (boot_attached b) = Some (Inr (), b1) \<and>
      resolve_environment sv b1 = Some (Inr (), b2) \<and> resolve_secrets_into_env sv b2 = Some (Inr (), b3) \<and>
      bt_env b' = bt_env b3 \<and>
      bt_django b' = (if bt_django b = None \<and> env_default (bt_env b3) ''DJANGO_SETTINGS_MODULE'' [] \<noteq> []
                      then Some (bt_env b3) else bt_django b)) \<and>
    bt_boot_handlers b' = bt_boot_handlers b \<and> bt_log_level b' = NOTSET \<and>
    perform_cold_start sv b' = Some (Inr (), b')"
proof -
  obtain b1 b3 where 1: "set_memory_limit sv (boot_attached b) = Some (Inr (), b1)"
    and 3: "loaders sv b1 = Some (Inr (), b3)"
    using assms(1) unfolding perform_cold_start_at [OF assms(2)]
    by (auto split: option.split_asm sum.split_asm prod.split_asm)
  from 3 obtain b2 where 2: "resolve_environment sv b1 = Some (Inr (), b2)" "resolve_secrets_into_env sv b2 = Some (Inr (), b3)"
    by (auto simp: loaders_def eff_simps split: option.split_asm sum.split_asm)
  note k = loaders_Some [OF 1 3]
  have b': "bt_env b' = bt_env b3 \<and> bt_boot_handlers b' = bt_boot_handlers b3 - 1 \<and> bt_log_level b' = NOTSET \<and>
      bt_cold_start_done b' \<and> bt_django b' = (if bt_django b3 = None \<and> env_default (bt_env b3) ''DJANGO_SETTINGS_MODULE'' [] \<noteq> []
                      then Some (bt_env b3) else bt_django b3)"
    using assms(1) unfolding perform_cold_start_at [OF assms(2)]
    by (auto simp: 1 3 boot_detached_def split: if_split_asm option.split_asm)
  have "perform_cold_start sv b' = Some (Inr (), b')" using b' by (simp add: cold_start_done)
  with 1 2 b' k show ?thesis
    by (intro conjI exI [of _ b1] exI [of _ b2] exI [of _ b3]) simp_all
qed

text \<open>A cold start that fails is not marked as done, so the next invocation starts over.  If a loader
  or Django failed, the temporary log handler is gone and the log level reset.  If setting the memory
  limit failed, which happens before the \<open>try\<close>, the handler stays attached and the level at DEBUG:
  every further failing invocation of the process adds one more handler.\<close>

lemma failed_cold_start_leaves:
  assumes "perform_cold_start sv b = Some (Inl e, b')"
  shows "\<not> bt_cold_start_done b' \<and> bt_django b' = bt_django b \<and>
    (if \<exists>b1. set_memory_limit sv (boot_attached b) = Some (Inl e, b1)
     then bt_boot_handlers b' = Suc (bt_boot_handlers b) \<and> bt_log_level b' = DEBUG
     else bt_boot_handlers b' = bt_boot_handlers b \<and> bt_log_level b' = NOTSET)"
proof -
  have d: "\<not> bt_cold_start_done b" using assms by (auto simp: cold_start_done)
  obtain r b1 where 1: "set_memory_limit sv (boot_attached b) = Some (r, b1)"
    using assms unfolding perform_cold_start_at [OF d] by (auto split: option.split_asm)
  have k: "boot_kept (boot_attached b) b1" using loaders_keep(1) 1 by (rule eff_keepsD)
  show ?thesis
  proof (cases r)
    case (Inl x)
    then show ?thesis
      using assms d k unfolding perform_cold_start_at [OF d]
      by (auto simp: 1 boot_kept_def)
  next
    case (Inr u)
    then obtain r2 b2 where 1: "set_memory_limit sv (boot_attached b) = Some (Inr (), b1)"
      and 2: "loaders sv b1 = Some (r2, b2)"
      using assms 1 unfolding perform_cold_start_at [OF d] by (auto split: option.split_asm)
    note k = loaders_Some [OF 1 2]
    show ?thesis
      using assms d k unfolding perform_cold_start_at [OF d]
      by (auto simp: 1 2 boot_detached_def split: sum.split_asm if_split_asm option.split_asm)
  qed
qed

section \<open>Witnesses\<close>

text \<open>A warm worker, and a batch of three: a task that succeeds, a text that is no message, and a task that
  fails and is retried.\<close>

definition warm_worker :: "nat worker" where
  "warm_worker =
     \<lparr>wk_boot = (sample_boot [])\<lparr>bt_django := Some [], bt_cold_start_done := True\<rparr>, wk_world = sample_world\<rparr>"

definition sample_batch :: "sqs_record list" where
  "sample_batch =
     [\<lparr>messageId = ''a'', body = ''text of greet''\<rparr>, \<lparr>messageId = ''b'', body = ''garbage''\<rparr>,
      \<lparr>messageId = ''c'', body = ''text of flaky''\<rparr>]"

definition sample_plat :: "environ \<Rightarrow> nat platform" where
  "sample_plat env = sample_platform"

theorem handler_reports_exactly_the_failed_witness:
  "\<exists>k'. handler (Suc (Suc (Suc 0))) sample_services sample_plat sample_batch warm_worker = Some (Inr [''b''], k')"
proof -
  let ?s = "batch_steps (Suc (Suc (Suc 0))) (sample_plat []) sample_batch (wk_world warm_worker)"
  have d: "bt_cold_start_done (wk_boot warm_worker)" "bt_django (wk_boot warm_worker) = Some []"
    by (simp_all add: warm_worker_def)
  have e: "\<not> EAGER (p_settings (sample_plat []))"
    "caught (the ?s)" "failed_ids sample_batch (the ?s) = [''b'']"
    by code_simp+
  show ?thesis
    using handler_reports_exactly_the_failed [OF cold_start_done [OF d(1), of sample_services] d(2), where plat = sample_plat
        and n = 0 and recs = sample_batch] e by auto
qed


text \<open>The container of the job that \<open>submit_batch_job\<close> submits for \<open>greet\<close>.\<close>

definition greet_job :: batch_job where
  "greet_job = \<lparr>job_name = ''example_app_tasks_greet'', job_queue = ''arn:queue'', job_definition = ''arn:def'',
     job_environment = [(''LAMBDA_TASKS_MESSAGE'', ''text of greet'')]\<rparr>"

definition container_worker :: "environ \<Rightarrow> nat worker" where
  "container_worker extra =
     \<lparr>wk_boot = sample_boot ([(''DJANGO_SETTINGS_MODULE'', ''example_project.settings''), (''AWS_BATCH_JOB_ID'', ''job-1''),
        (''AWS_LAMBDA_FUNCTION_MEMORY_SIZE'', ''2048'')] @ job_environment greet_job @ extra),
      wk_world = sample_world\<rparr>"

definition cold_boot :: "environ \<Rightarrow> boot" where
  "cold_boot extra = snd (the (perform_cold_start sample_services (boot_emit NewUUID (wk_boot (container_worker extra)))))"

definition container_world :: "nat world" where
  "container_world = snd (the (execute_immediately 3 sample_platform (tk_message greet_task) ''job-1''
     (add_event CloseConnections sample_world)))"

lemma sample_container:
  assumes "perform_cold_start sv (boot_emit NewUUID (wk_boot (container_worker extra))) = Some (Inr (), b)"
    and "bt_django b \<noteq> None"
  shows "container_runs 3 sv sample_plat greet_job ''job-1'' (tk_message greet_task) (container_worker extra) b (Inr ()) container_world"
proof -
  have m: "message_from_json (p_from_json sample_platform) (p_lax_int sample_platform) ''text of greet'' = Inr (tk_message greet_task)"
    "execute_immediately 3 sample_platform (tk_message greet_task) ''job-1'' (add_event CloseConnections sample_world) =
       Some (Inr (), container_world)"
    by code_simp+
  have c: "p_close_connections sample_platform tr = None" for tr by (simp add: sample_platform_def)
  have w: "wk_world (container_worker extra) = sample_world" by (simp add: container_worker_def)
  obtain env where "bt_django b = Some env" using assms(2) by blast
  then show ?thesis
    unfolding container_runs_def w
    using m c assms(1)
    by (intro conjI exI [of _ "''text of greet''"] exI [of _ env])
       (simp_all add: greet_job_def sample_plat_def,
        simp_all add: container_worker_def sample_boot_def env_get_def greet_job_def)
qed

theorem batch_container_runs_message_witness:
  "\<exists>k'. main 3 sample_services sample_plat (container_worker []) = Some (Inr 0, k') \<and>
     finished ''job-1'' (wk_world k')"
proof -
  let ?c = "perform_cold_start sample_services (boot_emit NewUUID (wk_boot (container_worker [])))"
  have c: "?c = Some (Inr (), cold_boot [])" "bt_django (cold_boot []) \<noteq> None" "\<not> tracing_is_enabled (bt_env (cold_boot []))"
    "finished ''job-1'' container_world"
    by code_simp+
  show ?thesis
    using batch_container_runs_message [OF sample_container [OF c(1,2)] c(3)] c(4) by simp
qed

definition no_otel_services :: services where
  "no_otel_services = sample_services\<lparr>sv_otel := (\<lambda>tr c. Some (Exn ImportError_cls ''No module named opentelemetry'' []))\<rparr>"

lemma flush_failure_fails_finished_job_witness:
  "\<exists>k'. main 3 no_otel_services sample_plat (container_worker [(''OTEL_EXPORTER_OTLP_ENDPOINT'', ''https://xray.localhost'')]) =
       Some (Inl (Exn ImportError_cls ''No module named opentelemetry'' []), k') \<and> finished ''job-1'' (wk_world k')"
proof -
  let ?x = "[(''OTEL_EXPORTER_OTLP_ENDPOINT'', ''https://xray.localhost'')]"
  let ?c = "perform_cold_start no_otel_services (boot_emit NewUUID (wk_boot (container_worker ?x)))"
  have c: "?c = Some (Inr (), cold_boot ?x)" "bt_django (cold_boot ?x) \<noteq> None" "tracing_is_enabled (bt_env (cold_boot ?x))"
    "finished ''job-1'' container_world"
    by code_simp+
  have o: "sv_otel no_otel_services tr c = Some (Exn ImportError_cls ''No module named opentelemetry'' [])" for tr c
    by (simp add: no_otel_services_def)
  show ?thesis
    using flush_failure_fails_finished_job [OF sample_container [OF c(1,2)] c(3) o] c(4) by simp
qed

theorem cold_start_runs_once_witness:
  "\<exists>b'. perform_cold_start sample_services (wk_boot (container_worker [])) = Some (Inr (), b') \<and>
     bt_django b' = Some (bt_env b') \<and> perform_cold_start sample_services b' = Some (Inr (), b')"
proof -
  let ?c = "perform_cold_start sample_services (wk_boot (container_worker []))"
  have c: "?c = Some (Inr (), snd (the ?c))" "\<not> bt_cold_start_done (wk_boot (container_worker []))"
    "bt_django (wk_boot (container_worker [])) = None"
    "env_default (bt_env (snd (the ?c))) ''DJANGO_SETTINGS_MODULE'' [] \<noteq> []"
    by code_simp+
  show ?thesis
    using cold_start_runs_once [OF c(1,2)] c by (intro exI [of _ "snd (the ?c)"]) (auto split: if_split_asm)
qed

definition strict_services :: services where
  "strict_services = sample_services\<lparr>sv_setrlimit := (\<lambda>tr n. Some (Exn ValueError_cls ''not allowed to raise maximum limit'' []))\<rparr>"

lemma failed_cold_start_leaves_witness:
  "\<exists>e b'. perform_cold_start strict_services (wk_boot (container_worker [])) = Some (Inl e, b') \<and> bt_boot_handlers b' = 1"
proof -
  let ?b = "wk_boot (container_worker [])"
  let ?e = "Exn ValueError_cls ''not allowed to raise maximum limit'' []"
  let ?c = "perform_cold_start strict_services ?b" and ?m = "set_memory_limit strict_services (boot_attached ?b)"
  have c: "?c = Some (Inl ?e, snd (the ?c))" "?m = Some (Inl ?e, snd (the ?m))" "bt_boot_handlers ?b = 0"
    by code_simp+
  have "\<exists>b1. ?m = Some (Inl ?e, b1)" using c(2) by blast
  with failed_cold_start_leaves [OF c(1)] have "bt_boot_handlers (snd (the ?c)) = Suc (bt_boot_handlers ?b)" by simp
  then show ?thesis using c(1,3) by (intro exI [of _ ?e] exI [of _ "snd (the ?c)"]) simp
qed

end
