(* ===== verification/Message_Journey.thy ===== *)
theory Message_Journey
  imports Handler_Props Config_Props
begin

text \<open>
  The way of a message from the call of \<open>execute_on_commit\<close> to the call of the function: through the
  schema, the JSON text, the queue, the handler and the schema again, and the same way through Batch.
\<close>

lemma AList_delete_id: "map_of kw k = None \<Longrightarrow> AList.delete k kw = kw"
  by (induction kw) (auto simp: AList.delete_eq split: if_splits)

lemma kwargs_pop_snd: "snd (kwargs_pop kw k d) = AList.delete k kw"
  by (auto simp: kwargs_pop_def AList_delete_id split: option.split)

text \<open>The arguments of the function among those of \<open>execute_on_commit\<close>.\<close>

definition task_kwargs :: "kwargs \<Rightarrow> kwargs" where
  "task_kwargs kw = AList.delete ''_delay'' (AList.delete ''_n_retries'' kw)"

definition dotted_name :: "'d wrapper \<Rightarrow> string" where
  "dotted_name wr = fn_module (w_func wr) @ ''.'' @ fn_qualname (w_func wr)"

lemma process_record_text:
  assumes "message_from_json (p_from_json plat) (p_lax_int plat) text = Inr m"
  shows "process_record n plat \<lparr>messageId = i, body = text\<rparr> =
    eff_seq (close_old_connections plat) (execute_immediately n plat m i)"
  using assms by (simp add: process_record_def eff_simps fun_eq_iff split: option.split sum.split)

text \<open>C34. What is sent is what is called.  A call of \<open>execute_on_commit\<close> that is accepted sends, outside a
  transaction, one text with the delay that was asked for; if this text parses to the document it was
  printed from and the worker imports the same task, any handler that receives the text executes the message
  with the task's name and the arguments of the call, and the call of the task with them is the call of the
  function: the second validation accepts what the first one accepted.\<close>

theorem sent_task_arrives:
  assumes "queue_mode (p_settings plat)" and "QUEUES (p_settings plat) = Inr queues"
    and "map_of queues (w_queue wr) = Some (SQSQueueConfig url)" and "lax_int_spec (p_lax_int plat)"
    and b: "build_task (p_type_ok plat) (p_lax_int plat) wr kw = Inr t"
    and "message_to_json (p_to_json plat) (tk_message t) = Inr text"
    and "p_from_json plat text = Inr (PDict (SQSLambdaTaskMessage_dump (tk_message t)))"
    and "p_import_string plat (dotted_name wr) = Inr (ImpWrapper wr)"
    and "\<forall>tr u b d. p_sqs_send plat tr u b d = None" and "idle w"
  shows "wrapper_execute_on_commit (Suc n) plat wr kw w = Some (Inr (), add_event (SQSSend url text (tk_delay t)) w) \<and>
    msg_kwargs (tk_message t) = task_kwargs kw \<and>
    process_record k plat \<lparr>messageId = i, body = text\<rparr> =
      eff_seq (close_old_connections plat) (execute_immediately k plat (tk_message t) i) \<and>
    resolve_wrapper plat (msg_task_name (tk_message t)) = Inr wr \<and>
    wrapper_call (p_type_ok plat) wr (msg_kwargs (tk_message t)) = call_function (w_func wr) (task_kwargs kw)"
proof -
  from b have t: "tk_queue t = w_queue wr" "msg_task_name (tk_message t) = dotted_name wr"
    "msg_kwargs (tk_message t) = task_kwargs kw" "0 \<le> msg_n_retries (tk_message t)"
    "kwargs_model_validate (p_type_ok plat) (w_kwargs_model wr) (msg_kwargs (tk_message t)) = Inr ()"
    by (auto simp: dotted_name_def task_kwargs_def kwargs_pop_snd elim!: build_task_Inr)
  have s: "execute_task (Suc n) plat t w = Some (Inr (), add_event (SQSSend url text (tk_delay t)) w)"
    using sqs_queue_sends_one_message [OF assms(1,2) assms(3) [folded t(1)] assms(6), of n w] assms(9)
    by (simp add: add_event_def)
  have "wrapper_execute_on_commit (Suc n) plat wr kw w = Some (Inr (), add_event (SQSSend url text (tk_delay t)) w)"
    using b s assms(10) by (simp add: wrapper_execute_on_commit_def execute_on_commit_def on_commit_def idle_def eff_simps
        del: execute_task.simps)
  moreover have "message_from_json (p_from_json plat) (p_lax_int plat) text = Inr (tk_message t)"
    using message_text_round_trips [of "p_to_json plat" "tk_message t" "text" "p_from_json plat" "p_lax_int plat"] assms(4,6,7) t(4)
    by blast
  note process_record_text [OF this, of k i]
  moreover have "resolve_wrapper plat (msg_task_name (tk_message t)) = Inr wr"
    using assms(8) by (simp add: resolve_wrapper_def t(2))
  moreover have "wrapper_call (p_type_ok plat) wr (msg_kwargs (tk_message t)) = call_function (w_func wr) (task_kwargs kw)"
    using t(3,5) by (simp add: wrapper_call_def)
  ultimately show ?thesis using t(3) by blast
qed

theorem sent_task_arrives_witness:
  "wrapper_execute_on_commit (Suc 0) sample_platform (sample_wrapper ''example_app.tasks.greet'') [(''name'', PStr ''Ada''), (''_delay'', PInt 0)] sample_world =
      Some (Inr (), add_event (SQSSend ''https://sqs.localhost/default'' ''text of greet'' 0) sample_world) \<and>
    process_record 3 sample_platform \<lparr>messageId = ''id'', body = ''text of greet''\<rparr> =
      eff_seq (close_old_connections sample_platform) (execute_immediately 3 sample_platform (tk_message greet_task) ''id'') \<and>
    wrapper_call sample_type_ok (sample_wrapper ''example_app.tasks.greet'') [(''name'', PStr ''Ada'')] =
      call_function greet_fn [(''name'', PStr ''Ada'')]"
proof -
  let ?wr = "sample_wrapper ''example_app.tasks.greet''" and ?kw = "[(''name'', PStr ''Ada''), (''_delay'', PInt 0)]"
  let ?qs = "projr (QUEUES (p_settings sample_platform))"
  have q: "queue_mode (p_settings sample_platform)" "QUEUES (p_settings sample_platform) = Inr ?qs"
    "map_of ?qs (w_queue ?wr) = Some (SQSQueueConfig ''https://sqs.localhost/default'')"
    by code_simp+
  have l: "lax_int_spec (p_lax_int sample_platform)" by (simp add: sample_platform_def lax_int_instance_spec)
  have b: "build_task (p_type_ok sample_platform) (p_lax_int sample_platform) ?wr ?kw = Inr greet_task"
    "message_to_json (p_to_json sample_platform) (tk_message greet_task) = Inr ''text of greet''"
    "p_from_json sample_platform ''text of greet'' = Inr (PDict (SQSLambdaTaskMessage_dump (tk_message greet_task)))"
    by code_simp+
  have "\<not> isl greet" by code_simp
  then have g: "greet = Inr ?wr"
    by (auto simp: sample_wrapper_def resolve_wrapper_def sample_platform_def sample_import_def res_bind_def split: sum.split)
  then have f: "w_func ?wr = greet_fn" using LambdaTaskWrapper_ok unfolding greet_def by blast
  have i: "p_import_string sample_platform (dotted_name ?wr) = Inr (ImpWrapper ?wr)"
    by (simp add: dotted_name_def f) (simp add: greet_fn_def sample_platform_def sample_import_def g)
  have s: "\<forall>tr u b d. p_sqs_send sample_platform tr u b d = None" by (simp add: sample_platform_def)
  have o: "idle sample_world" "tk_delay greet_task = 0" "task_kwargs ?kw = [(''name'', PStr ''Ada'')]" by code_simp+
  show ?thesis
    using sent_task_arrives [OF q l b i s o(1), of 0 3 "''id''"] unfolding o(2,3) f
    by (simp add: sample_platform_def greet_task_def)
qed

section \<open>The way through Batch\<close>



section \<open>Arguments that JSON changes\<close>

text \<open>The premise that the text parses back to the document matters.  The schema of the arguments is strict
  at both ends: if the arguments that arrive do not fit it, the function is not called, and the record is
  FAILED with the error of the validation.\<close>

lemma mistyped_arguments_fail:
  assumes "attempts plat m i w wr soft hard kw" and "idle w" and "\<not> w_singleton wr"
    and v: "kwargs_model_validate (p_type_ok plat) (w_kwargs_model wr) (msg_kwargs m) = Inl e"
    and "\<not> isinstance_any e (effective_retry_on wr)" and "\<forall>r. p_save_error plat r = None"
  shows "\<exists>w'. execute_immediately (Suc n) plat m i w = Some (Inr (), w') \<and> concluded plat m i kw w FAILED e w'"
proof -
  have e: "is_Exception e"
    using v by (auto simp: kwargs_model_validate_def res_check_def validation_error_def class_simps
        split: if_split_asm)
  have "run_code n plat m i w wr soft hard kw =
      Some (Inl e, task_start plat (lock_of plat wr m hard) soft hard (begun i m kw w))"
    by (simp add: run_code_def wrapper_call_def v eff_simps)
  then obtain w1 where "failed_call n plat m i w wr soft hard kw = Some (e, w1)"
    using assms(3) by (simp add: failed_call_def lock_of_def lock_refused_def lock_lost_def block_error_def Let_def)
  from failed_task_leaves_nothing [OF assms(1,2) this e _ assms(5,6)] assms(3) show ?thesis by blast
qed

text \<open>A task with a \<open>datetime\<close> argument: the call is accepted and sent, and the message that arrives has the
  text of the date, which is not a \<open>datetime\<close>.\<close>

definition remind_fn :: "nat pyfun" where
  "remind_fn = \<lparr>fn_module = ''app.tasks'', fn_qualname = ''remind'', fn_name = ''remind'',
     fn_params = [\<lparr>pm_name = ''at'', pm_kind = KEYWORD_ONLY, pm_default = None, pm_annot = Some ''datetime''\<rparr>],
     fn_code = (\<lambda>kwargs. Return PNone)\<rparr>"

definition remind_type_ok :: type_check where
  "remind_type_ok a v = (if a = Some ''datetime'' then (case v of PObj s \<Rightarrow> True | _ \<Rightarrow> False) else True)"

definition remind :: "nat wrapper" where
  "remind = projr (LambdaTaskWrapper remind_fn default_options)"

definition remind_platform :: "nat platform" where
  "remind_platform = sample_platform
     \<lparr>p_import_string := \<lambda>name. Inr (ImpWrapper remind), p_type_ok := remind_type_ok,
      p_to_json := \<lambda>v. Inr ''text of remind'',
      p_from_json := \<lambda>s. Inr (PDict (SQSLambdaTaskMessage_dump (sample_msg ''app.tasks.remind'' [(''at'', PStr ''2026-01-01'')] 0)))\<rparr>"

lemma mistyped_arguments_fail_witness:
  "\<exists>t m w'. build_task remind_type_ok lax_int_instance remind [(''at'', PObj ''2026-01-01'')] = Inr t \<and>
    message_to_json (p_to_json remind_platform) (tk_message t) = Inr ''text of remind'' \<and>
    message_from_json (p_from_json remind_platform) lax_int_instance ''text of remind'' = Inr m \<and>
    execute_immediately (Suc 1) remind_platform m ''id'' sample_world = Some (Inr (), w') \<and>
    concluded remind_platform m ''id'' [(''at'', PStr ''2026-01-01'')] sample_world FAILED (validation_error ''kwargs'') w'"
proof -
  let ?m = "sample_msg ''app.tasks.remind'' [(''at'', PStr ''2026-01-01'')] 0"
  let ?b = "build_task remind_type_ok lax_int_instance remind [(''at'', PObj ''2026-01-01'')]"
  have b: "?b = Inr (projr ?b)" "message_to_json (p_to_json remind_platform) (tk_message (projr ?b)) = Inr ''text of remind''"
    "message_from_json (p_from_json remind_platform) lax_int_instance ''text of remind'' = Inr ?m"
    by code_simp+
  have h: "idle sample_world" "\<not> w_singleton remind"
    "kwargs_model_validate (p_type_ok remind_platform) (w_kwargs_model remind) (msg_kwargs ?m) = Inl (validation_error ''kwargs'')"
    "\<not> isinstance_any (validation_error ''kwargs'') (effective_retry_on remind)"
    "resolved_timeouts (p_settings remind_platform) remind = Inr (270, 300)"
    "record_lookup (wd_records sample_world) ''id'' = None"
    "p_to_jsonable remind_platform (msg_kwargs ?m) = Inr [(''at'', PStr ''2026-01-01'')]"
    by code_simp+
  have a: "attempts remind_platform ?m ''id'' sample_world remind 270 300 [(''at'', PStr ''2026-01-01'')]"
    using h(2,5-7) by (simp add: attempts_def resolves_def resolve_wrapper_def)
      (simp add: remind_platform_def sample_platform_def)
  have "\<forall>r. p_save_error remind_platform r = None" by (simp add: remind_platform_def sample_platform_def)
  from mistyped_arguments_fail [OF a h(1-4) this, of 1] b show ?thesis by blast
qed

end
