(* ===== verification/Tracing_Props.thy ===== *)
theory Tracing_Props
  imports Handler_Props
begin

text \<open>
  Tracing is best effort where it is set up: no failure of the OpenTelemetry packages stops the import
  of the handler module.
\<close>

text \<open>\<open>tame m\<close>: \<open>m\<close> has an outcome, and raises nothing but \<open>Exception\<close>s; \<open>safe m\<close>: it raises nothing.\<close>

definition tame :: "('w, 'a) eff \<Rightarrow> bool" where
  "tame m \<longleftrightarrow> (\<forall>w. \<exists>r w'. m w = Some (r, w') \<and> (case r of Inl e \<Rightarrow> is_Exception e | Inr _ \<Rightarrow> True))"

definition safe :: "('w, 'a) eff \<Rightarrow> bool" where
  "safe m \<longleftrightarrow> (\<forall>w. \<exists>a w'. m w = Some (Inr a, w'))"

lemma safe_tame: "safe m \<Longrightarrow> tame m"
  unfolding safe_def tame_def by (metis old.sum.simps(6))

lemma safe_pure: "safe (eff_ret a)" "safe (eff_get f)" "safe (eff_upd g)" "safe (trace_log l)"
  by (simp_all add: safe_def eff_simps trace_log_def)

lemma safe_bind: "safe m \<Longrightarrow> (\<And>a. safe (k a)) \<Longrightarrow> safe (eff_bind m k)"
  unfolding safe_def eff_bind_at by (metis (no_types, lifting) old.prod.case old.sum.simps(6) option.simps(5))

lemma safe_seq: "safe m \<Longrightarrow> safe n \<Longrightarrow> safe (eff_seq m n)"
  unfolding eff_seq_def by (rule safe_bind)

lemma tame_bind:
  assumes "tame m" and "\<And>a. tame (k a)"
  shows "tame (eff_bind m k)"
  unfolding tame_def
proof
  fix w
  obtain r w1 where m: "m w = Some (r, w1)" "case r of Inl e \<Rightarrow> is_Exception e | Inr _ \<Rightarrow> True"
    using assms(1) unfolding tame_def by blast
  show "\<exists>r w'. eff_bind m k w = Some (r, w') \<and> (case r of Inl e \<Rightarrow> is_Exception e | Inr _ \<Rightarrow> True)"
    using m assms(2) by (cases r) (auto simp: eff_bind_at tame_def)
qed

lemma tame_seq: "tame m \<Longrightarrow> tame n \<Longrightarrow> tame (eff_seq m n)"
  unfolding eff_seq_def by (rule tame_bind)

lemma tame_each: "(\<And>x. tame (f x)) \<Longrightarrow> tame (eff_each f xs)"
  by (induction xs) (auto intro: tame_seq safe_tame safe_pure)

text \<open>\<open>try: m except Exception: handler\<close>, with both spellings the module uses.\<close>

lemma safe_try: "tame m \<Longrightarrow> (\<And>e. is_Exception e \<Longrightarrow> safe (h e)) \<Longrightarrow> safe (eff_try m h)"
  unfolding tame_def safe_def eff_try_at by (metis (no_types, lifting) old.prod.case old.sum.exhaust old.sum.simps(5,6) option.simps(5))

lemma safe_attempt:
  assumes "tame m" and "\<And>e. is_Exception e \<Longrightarrow> safe (k (Inl e))" and "\<And>a. safe (k (Inr a))"
  shows "safe (eff_bind (eff_attempt m) k)"
  unfolding safe_def
proof
  fix w
  obtain r w1 where m: "m w = Some (r, w1)" "case r of Inl e \<Rightarrow> is_Exception e | Inr _ \<Rightarrow> True"
    using assms(1) unfolding tame_def by blast
  have "safe (k r)" using m(2) assms(2,3) by (cases r) auto
  then show "\<exists>a w'. eff_bind (eff_attempt m) k w = Some (Inr a, w')"
    using m(1) by (auto simp: eff_bind_at eff_attempt_at safe_def)
qed

definition tame_packages :: "services \<Rightarrow> bool" where
  "tame_packages sv \<longleftrightarrow> (\<forall>tr c e. sv_otel sv tr c = Some e \<longrightarrow> is_Exception e)"

lemma otel_tame: "tame_packages sv \<Longrightarrow> tame (otel sv c args)"
  by (auto simp: tame_def otel_def tame_packages_def split: option.split)

lemma tame_if: "tame m \<Longrightarrow> tame n \<Longrightarrow> tame (if b then m else n)"
  by simp

lemma safe_if: "(b \<Longrightarrow> safe m) \<Longrightarrow> (\<not> b \<Longrightarrow> safe n) \<Longrightarrow> safe (if b then m else n)"
  by simp

lemma configure_tracing_safe:
  assumes "tame_packages sv"
  shows "safe (configure_tracing sv)"
proof -
  note rules = tame_bind tame_seq tame_if otel_tame [OF assms] safe_pure [THEN safe_tame]
  have "safe (try_instrument sv name)" for name
    unfolding try_instrument_def
    by (rule safe_attempt) (auto intro!: rules safe_pure)
  then have "tame (instrument_libraries sv)"
    unfolding instrument_libraries_def by (intro tame_each safe_tame)
  moreover have "tame (build_tracer_provider sv)" "tame (set_xray_propagator sv)"
    unfolding build_tracer_provider_def build_signing_session_def set_xray_propagator_def by (intro rules)+
  ultimately show ?thesis
    unfolding configure_tracing_def
    by (intro safe_bind safe_if safe_seq safe_pure safe_try rules) auto
qed

lemma instrument_lambda_handler_safe:
  assumes "tame_packages sv"
  shows "safe (instrument_lambda_handler sv)"
  unfolding instrument_lambda_handler_def
  by (intro safe_bind safe_if safe_seq safe_pure safe_attempt tame_seq otel_tame [OF assms]) (auto intro: safe_pure)

lemma tracing_off:
  assumes "\<not> tracing_is_enabled (bt_env b)"
  shows "import_handler_module sv b = Some (Inr (), boot_emit (TraceLog ''OTEL tracing disabled'') b)"
  using assms
  by (simp add: import_handler_module_def configure_tracing_def instrument_lambda_handler_def eff_simps trace_log_def)

text \<open>C40. Tracing does not stop the worker from starting.  As long as the OpenTelemetry packages raise
  nothing but \<open>Exception\<close>s (among them the \<open>ImportError\<close> of a package that is not installed), at
  whichever call, the handler module is imported; with tracing off no package is even called and the
  environment stays as it was.\<close>

theorem tracing_never_stops_the_worker:
  assumes "tame_packages sv"
  shows "\<exists>b'. import_handler_module sv b = Some (Inr (), b') \<and>
    (\<not> tracing_is_enabled (bt_env b) \<longrightarrow> b' = boot_emit (TraceLog ''OTEL tracing disabled'') b)"
proof (cases "tracing_is_enabled (bt_env b)")
  case True
  have "safe (import_handler_module sv)"
    unfolding import_handler_module_def
    by (intro safe_bind configure_tracing_safe instrument_lambda_handler_safe assms)
  then show ?thesis using True by (simp add: safe_def)
next
  case False
  then show ?thesis using tracing_off by blast
qed

theorem tracing_never_stops_the_worker_witness:
  "\<exists>b'. import_handler_module no_otel_services (sample_boot [(''OTEL_EXPORTER_OTLP_ENDPOINT'', ''https://xray.localhost'')]) =
     Some (Inr (), b')"
proof -
  have "tame_packages no_otel_services"
    by (simp add: tame_packages_def no_otel_services_def ImportError_cls_def class_simps)
  from tracing_never_stops_the_worker [OF this] show ?thesis by blast
qed

text \<open>Signing a request changes its headers only; without credentials it goes out as it is.\<close>

lemma signing_keeps_the_request:
  assumes "sigv4_auth get_credentials add_auth service region r b = Some (Inr r', b')"
  shows "rq_method r' = rq_method r \<and> rq_url r' = rq_url r \<and> rq_body r' = rq_body r \<and>
    (get_credentials (bt_trace b) = Inr None \<longrightarrow> r' = r)"
  using assms by (auto simp: sigv4_auth_def eff_simps split: option.split_asm sum.split_asm)

text \<open>A header that was set has its new value, under any spelling.\<close>

lemma header_set_value:
  "map_of (map (\<lambda>(k, v). (map lower_char k, v)) (header_set k v hs)) (map lower_char k') =
   (if map lower_char k' = map lower_char k then Some v
    else map_of (map (\<lambda>(k, v). (map lower_char k, v)) hs) (map lower_char k'))"
  by (induction hs rule: header_set.induct [where ?a0.0 = k and ?a1.0 = v]) auto

end
