(* ===== verification/Admin.thy ===== *)
theory Admin
  imports Executor
begin

text \<open>
  \<open>lambda_tasks/admin.py\<close>: the computed columns of the record list and the replay action.  \<open>other_queue\<close>
  is the value of the attribute \<open>queue\<close> of an imported object that is no task, or the
  \<open>AttributeError\<close>.  The declarative attributes of the class are in \<open>Admin_Site\<close>; the permission check of
  the action is Django's.
\<close>

text \<open>\<open>import_string(name).queue\<close>.\<close>

definition queue_attribute ::
  "'d platform \<Rightarrow> (string \<Rightarrow> pyval res) \<Rightarrow> string \<Rightarrow> pyval res" where
  "queue_attribute plat other_queue task_name =
     res_bind (p_import_string plat task_name) (\<lambda>obj. case obj of
       ImpWrapper wr \<Rightarrow> Inr (PStr (w_queue wr))
     | ImpOther ty \<Rightarrow> other_queue task_name)"

definition admin_queue ::
  "'d platform \<Rightarrow> (string \<Rightarrow> pyval res) \<Rightarrow> task_record \<Rightarrow> pyval res" where
  "admin_queue plat other_queue r = (case queue_attribute plat other_queue (tr_task_name r) of
       Inl e \<Rightarrow> if is_Exception e then Inr (PStr ''?'') else Inl e
     | Inr q \<Rightarrow> Inr q)"

text \<open>The annotation \<open>computed_duration\<close> is null when either time is; the clock of the model counts whole
  seconds, so the three decimals of the format are zero.\<close>

fun digits :: "nat \<Rightarrow> string" where
  "digits n = (if n < 10 then [char_of (48 + n)] else digits (n div 10) @ [char_of (48 + n mod 10)])"

definition py_str_int :: "int \<Rightarrow> string" where
  "py_str_int i = (if i < 0 then ''-'' @ digits (nat (- i)) else digits (nat i))"

definition computed_duration :: "task_record \<Rightarrow> int option" where
  "computed_duration r = (case (tr_end_time r, tr_start_time r) of
       (Some e, Some s) \<Rightarrow> Some (e - s)
     | _ \<Rightarrow> None)"

definition admin_duration :: "task_record \<Rightarrow> string option" where
  "admin_duration r = (case computed_duration r of
       None \<Rightarrow> None
     | Some d \<Rightarrow> Some (py_str_int d @ ''.000s''))"

text \<open>One round of the loop of \<open>replay_tasks\<close>: the message is built before the queue is read.\<close>

definition replay_one ::
  "nat \<Rightarrow> 'd platform \<Rightarrow> (string \<Rightarrow> pyval res) \<Rightarrow> task_record \<Rightarrow> ('d world, unit) eff" where
  "replay_one n plat other_queue r =
     eff_bind (eff_res (p_import_string plat (tr_task_name r))) (\<lambda>_.
     eff_bind (eff_res (SQSLambdaTaskMessage_validate (p_lax_int plat)
         [(''task_name'', PStr (tr_task_name r)), (''kwargs'', PDict (tr_kwargs r)), (''n_retries'', PInt 0)]))
       (\<lambda>message.
     eff_bind (eff_res (queue_attribute plat other_queue (tr_task_name r))) (\<lambda>queue.
     case queue of
       PStr q \<Rightarrow> execute_on_commit n plat \<lparr>tk_message = message, tk_delay = 0, tk_queue = q\<rparr>
     | _ \<Rightarrow> eff_raise (validation_error ''SQSLambdaTask''))))"

definition replay_tasks ::
  "nat \<Rightarrow> 'd platform \<Rightarrow> (string \<Rightarrow> pyval res) \<Rightarrow> task_record list \<Rightarrow> ('d world, unit) eff" where
  "replay_tasks n plat other_queue queryset = eff_each (replay_one n plat other_queue) queryset"

end
