(* ===== verification/Admin_Props.thy ===== *)
theory Admin_Props
  imports Admin Delivery_Props
begin

text \<open>
  The columns of the admin list, and what a replay enqueues: one first attempt per selected record, up
  to the first record whose task cannot be enqueued.
\<close>

section \<open>Columns\<close>

lemma computed_duration_duration: "computed_duration = duration"
  by (rule ext) (simp add: computed_duration_def duration_def)

text \<open>The queue column shows the queue a replay would use, and a question mark where the task cannot be
  imported or has no queue.\<close>

lemma admin_queue_cases:
  "queue_attribute plat oq (tr_task_name r) = Inr q \<Longrightarrow> admin_queue plat oq r = Inr q"
  "queue_attribute plat oq (tr_task_name r) = Inl e \<Longrightarrow> is_Exception e \<Longrightarrow> admin_queue plat oq r = Inr (PStr ''?'')"
  by (simp_all add: admin_queue_def)

section \<open>Replay\<close>

text \<open>The first attempt of a record's task, and the send it becomes on an SQS queue.\<close>

definition first_attempt :: "task_record \<Rightarrow> sqs_message" where
  "first_attempt r = \<lparr>msg_task_name = tr_task_name r, msg_kwargs = tr_kwargs r, msg_n_retries = 0\<rparr>"

definition replays_as ::
  "'d platform \<Rightarrow> (string \<Rightarrow> pyval res) \<Rightarrow> (string \<times> queue_config) list \<Rightarrow> task_record \<Rightarrow> event \<Rightarrow> bool" where
  "replays_as plat oq queues r ev \<longleftrightarrow> (\<exists>q url body.
     queue_attribute plat oq (tr_task_name r) = Inr (PStr q) \<and>
     map_of queues q = Some (SQSQueueConfig url) \<and>
     message_to_json (p_to_json plat) (first_attempt r) = Inr body \<and> ev = SQSSend url body 0)"

lemma queue_attribute_import:
  "queue_attribute plat oq name = Inr q \<Longrightarrow> \<exists>obj. p_import_string plat name = Inr obj"
  by (cases "p_import_string plat name") (auto simp: queue_attribute_def)

lemma first_attempt_valid:
  "p_lax_int plat (PInt 0) = Inr 0 \<Longrightarrow> SQSLambdaTaskMessage_validate (p_lax_int plat)
     [(''task_name'', PStr (tr_task_name r)), (''kwargs'', PDict (tr_kwargs r)), (''n_retries'', PInt 0)] = Inr (first_attempt r)"
  by (simp add: SQSLambdaTaskMessage_validate_def first_attempt_def)

lemma replay_one_sends:
  assumes "queue_mode (p_settings plat)" and "QUEUES (p_settings plat) = Inr queues"
    and "p_lax_int plat (PInt 0) = Inr 0" and "\<forall>tr u b d. p_sqs_send plat tr u b d = None"
    and "replays_as plat oq queues r ev" and "wd_frames w = []"
  shows "replay_one (Suc n) plat oq r w = Some (Inr (), add_event ev w)"
proof -
  from assms(5) obtain q url body where q: "queue_attribute plat oq (tr_task_name r) = Inr (PStr q)"
    and url: "map_of queues q = Some (SQSQueueConfig url)"
    and body: "message_to_json (p_to_json plat) (first_attempt r) = Inr body" and ev: "ev = SQSSend url body 0"
    by (auto simp: replays_as_def)
  obtain obj where i: "p_import_string plat (tr_task_name r) = Inr obj" using queue_attribute_import [OF q] by blast
  let ?t = "\<lparr>tk_message = first_attempt r, tk_delay = 0, tk_queue = q\<rparr>"
  have "execute_task (Suc n) plat ?t w = Some (Inr (), add_event ev w)"
    using execute_task_queue [of plat queues ?t url body n w] assms(1,2,4) url body ev by simp
  then show ?thesis
    using assms(6)
    by (simp add: replay_one_def eff_simps q i first_attempt_valid [of plat, OF assms(3)] execute_on_commit_def on_commit_def
        del: execute_task.simps)
qed

lemma eff_each_append: "eff_each f (xs @ ys) = eff_seq (eff_each f xs) (eff_each f ys)"
proof (induction xs)
  case Nil
  show ?case by (rule ext) (simp add: eff_simps)
next
  case (Cons x xs)
  then show ?case by (rule_tac ext) (simp add: eff_simps split: option.split sum.split)
qed

lemma replay_sends:
  assumes "queue_mode (p_settings plat)" and "QUEUES (p_settings plat) = Inr queues"
    and "p_lax_int plat (PInt 0) = Inr 0" and "\<forall>tr u b d. p_sqs_send plat tr u b d = None"
    and "list_all2 (replays_as plat oq queues) rs evs" and "wd_frames w = []"
  shows "replay_tasks (Suc n) plat oq rs w = Some (Inr (), w\<lparr>wd_trace := wd_trace w @ evs\<rparr>)"
  using assms(5,6)
proof (induction rs evs arbitrary: w rule: list_all2_induct)
  case Nil
  then show ?case by (simp add: replay_tasks_def eff_simps)
next
  case (Cons r rs ev evs)
  then show ?case
    using replay_one_sends [OF assms(1-4) Cons(1), of w n] Cons.IH [of "add_event ev w"]
    by (simp add: replay_tasks_def eff_simps add_event_def)
qed

text \<open>C28. The replay action, on SQS queues and outside a transaction, sends exactly one message per selected
  record, in order: the record's task and arguments as a first attempt (\<open>n_retries\<close> 0, no delay) on
  the queue the task has now; the records themselves are not touched.  A record whose task cannot
  be imported or has no queue ends the action with that exception, after the messages of the
  records before it have gone out.\<close>

theorem replay_sends_first_attempts:
  assumes "queue_mode (p_settings plat)" and "QUEUES (p_settings plat) = Inr queues"
    and "p_lax_int plat (PInt 0) = Inr 0" and "\<forall>tr u b d. p_sqs_send plat tr u b d = None"
    and "list_all2 (replays_as plat oq queues) rs evs" and "wd_frames w = []"
  shows "replay_tasks (Suc n) plat oq rs w = Some (Inr (), w\<lparr>wd_trace := wd_trace w @ evs\<rparr>) \<and>
    (\<forall>(r :: task_record) e rs'. queue_attribute plat oq (tr_task_name r) = Inl e \<longrightarrow>
       replay_tasks (Suc n) plat oq (rs @ r # rs') w = Some (Inl e, w\<lparr>wd_trace := wd_trace w @ evs\<rparr>))"
proof (intro conjI allI impI)
  show s: "replay_tasks (Suc n) plat oq rs w = Some (Inr (), w\<lparr>wd_trace := wd_trace w @ evs\<rparr>)"
    by (rule replay_sends [OF assms])
  fix r :: task_record and e rs'
  assume q: "queue_attribute plat oq (tr_task_name r) = Inl e"
  then have "replay_one (Suc n) plat oq r x = Some (Inl e, x)" for x
    by (cases "p_import_string plat (tr_task_name r)")
       (simp_all add: replay_one_def eff_simps first_attempt_valid [of plat, OF assms(3)], simp add: queue_attribute_def)
  then show "replay_tasks (Suc n) plat oq (rs @ r # rs') w = Some (Inl e, w\<lparr>wd_trace := wd_trace w @ evs\<rparr>)"
    using s by (simp add: replay_tasks_def eff_each_append eff_simps)
qed

definition replayed_record :: task_record where
  "replayed_record = \<lparr>tr_task_name = ''app.tasks.flaky'', tr_kwargs = [], tr_n_retries = 2, tr_status = FAILED,
     tr_start_time = Some 10, tr_end_time = Some 12, tr_result = PNone, tr_traceback = Some ''ConnectionError''\<rparr>"

definition no_queue :: "string \<Rightarrow> pyval res" where
  "no_queue name = Inl (Exn AttributeError_cls ''queue'' [])"

theorem replay_sends_first_attempts_witness:
  "replay_tasks (Suc 0) sample_platform no_queue
     [replayed_record, replayed_record\<lparr>tr_task_name := ''app.tasks.helper''\<rparr>] sample_world =
     Some (Inl (Exn AttributeError_cls ''queue'' []),
       sample_world\<lparr>wd_trace := [SQSSend ''https://sqs.localhost/default'' ''text of flaky'' 0]\<rparr>)"
proof -
  let ?qs = "projr (QUEUES (p_settings sample_platform))"
  let ?ev = "SQSSend ''https://sqs.localhost/default'' ''text of flaky'' 0"
  let ?r = "replayed_record\<lparr>tr_task_name := ''app.tasks.helper''\<rparr>"
  have q: "queue_mode (p_settings sample_platform)" "QUEUES (p_settings sample_platform) = Inr ?qs"
    "p_lax_int sample_platform (PInt 0) = Inr 0" "wd_frames sample_world = []"
    "queue_attribute sample_platform no_queue (tr_task_name ?r) = Inl (Exn AttributeError_cls ''queue'' [])"
    "queue_attribute sample_platform no_queue (tr_task_name replayed_record) = Inr (PStr ''default'')"
    "map_of ?qs ''default'' = Some (SQSQueueConfig ''https://sqs.localhost/default'')"
    "message_to_json (p_to_json sample_platform) (first_attempt replayed_record) = Inr ''text of flaky''"
    "wd_trace sample_world = []"
    by code_simp+
  have s: "\<forall>tr u b d. p_sqs_send sample_platform tr u b d = None" by (simp add: sample_platform_def)
  have r: "list_all2 (replays_as sample_platform no_queue ?qs) [replayed_record] [?ev]"
    using q(6-8) by (simp add: replays_as_def)
  show ?thesis
    using replay_sends_first_attempts [OF q(1-3) s r q(4), of 0] q(5,9) by simp
qed

end
