(* ===== verification/Migrations.thy ===== *)
theory Migrations
  imports Task_Data
begin

text \<open>
  \<open>lambda_tasks/migrations/\<close>: the four migrations as lists of operations, and what Django's migration
  operations do to the table of task records on PostgreSQL.  A row of the table is its id and its
  status; the other columns are only declared.  The model's own table, from the class \<open>TaskRecord\<close>, is
  defined beside them.
\<close>

section \<open>The table\<close>

datatype field_type =
    UUIDField | CharField nat "(string \<times> string) list" | JSONField | PositiveSmallIntegerField | DateTimeField | TextField

record column =
  co_name :: string
  co_type :: field_type
  co_null :: bool
  co_primary_key :: bool

datatype index_expr = OnField string | Descending string | CastText string | Upper index_expr | OpClass index_expr string

record index =
  ix_name :: string
  ix_gin :: bool
  ix_expressions :: "index_expr list"

type_synonym rows = "(string \<times> string) list"

text \<open>\<open>md_columns = None\<close>: there is no table.  A check constraint lists the statuses it allows.\<close>

record table =
  md_columns :: "column list option"
  md_indexes :: "index list"
  md_checks :: "(string \<times> string list) list"
  md_extensions :: "string list"
  md_rows :: rows

definition no_table :: table where
  "no_table = \<lparr>md_columns = None, md_indexes = [], md_checks = [], md_extensions = [], md_rows = []\<rparr>"

definition col :: "string \<Rightarrow> field_type \<Rightarrow> bool \<Rightarrow> column" where
  "col name ty null = \<lparr>co_name = name, co_type = ty, co_null = null, co_primary_key = (name = ''id'')\<rparr>"

section \<open>Operations\<close>

datatype operation =
    CreateModel "column list" "index list" "(string \<times> string list) list"
  | RemoveConstraint string
  | RunPython "rows \<Rightarrow> rows" "rows \<Rightarrow> rows"
  | AlterField column
  | AddConstraint string "string list"
  | TrigramExtension
  | AddIndex index
  | RemoveIndex string

definition db_error :: "string \<Rightarrow> string \<Rightarrow> exn" where
  "db_error cls msg = Exn (Cls cls [DatabaseError_cls]) msg []"

definition rows_allowed :: "(string \<times> string list) list \<Rightarrow> rows \<Rightarrow> bool" where
  "rows_allowed checks rows \<longleftrightarrow> list_all (\<lambda>(name, allowed). list_all (\<lambda>(i, s). s \<in> set allowed) rows) checks"

fun needs_trigrams :: "index_expr \<Rightarrow> bool" where
  "needs_trigrams (OpClass e name) = (name = ''gin_trgm_ops'' \<or> needs_trigrams e)"
| "needs_trigrams (Upper e) = needs_trigrams e"
| "needs_trigrams e = False"

definition create_index :: "index \<Rightarrow> table \<Rightarrow> table res" where
  "create_index ix t =
     (if ix_name ix \<in> set (map ix_name (md_indexes t)) then Inl (db_error ''ProgrammingError'' ''already exists'')
      else if list_ex needs_trigrams (ix_expressions ix) \<and> ''pg_trgm'' \<notin> set (md_extensions t)
      then Inl (db_error ''ProgrammingError'' ''operator class gin_trgm_ops does not exist'')
      else Inr (t\<lparr>md_indexes := md_indexes t @ [ix]\<rparr>))"

definition drop_index :: "string \<Rightarrow> table \<Rightarrow> table res" where
  "drop_index name t =
     (if name \<in> set (map ix_name (md_indexes t))
      then Inr (t\<lparr>md_indexes := filter (\<lambda>ix. ix_name ix \<noteq> name) (md_indexes t)\<rparr>)
      else Inl (db_error ''ProgrammingError'' ''does not exist''))"

definition add_check :: "string \<Rightarrow> string list \<Rightarrow> table \<Rightarrow> table res" where
  "add_check name allowed t =
     (if \<not> rows_allowed [(name, allowed)] (md_rows t)
      then Inl (db_error ''IntegrityError'' ''is violated by some row'')
      else Inr (t\<lparr>md_checks := md_checks t @ [(name, allowed)]\<rparr>))"

definition drop_check :: "string \<Rightarrow> table \<Rightarrow> table res" where
  "drop_check name t =
     (if name \<in> set (map fst (md_checks t))
      then Inr (t\<lparr>md_checks := filter (\<lambda>(n, a). n \<noteq> name) (md_checks t)\<rparr>)
      else Inl (db_error ''ProgrammingError'' ''does not exist''))"

definition write_rows :: "(rows \<Rightarrow> rows) \<Rightarrow> table \<Rightarrow> table res" where
  "write_rows f t =
     (if rows_allowed (md_checks t) (f (md_rows t)) then Inr (t\<lparr>md_rows := f (md_rows t)\<rparr>)
      else Inl (db_error ''IntegrityError'' ''violates check constraint''))"

definition alter_field :: "column \<Rightarrow> column list \<Rightarrow> column list" where
  "alter_field c cs = map (\<lambda>c'. if co_name c' = co_name c then c else c') cs"

fun apply_op :: "operation \<Rightarrow> table \<Rightarrow> table res" where
  "apply_op (CreateModel columns indexes checks) t =
     (if md_columns t \<noteq> None then Inl (db_error ''ProgrammingError'' ''already exists'')
      else Inr (t\<lparr>md_columns := Some columns, md_indexes := indexes, md_checks := checks, md_rows := []\<rparr>))"
| "apply_op (RemoveConstraint name) t = drop_check name t"
| "apply_op (RunPython forward backward) t = write_rows forward t"
| "apply_op (AlterField c) t = Inr (t\<lparr>md_columns := map_option (alter_field c) (md_columns t)\<rparr>)"
| "apply_op (AddConstraint name allowed) t = add_check name allowed t"
| "apply_op TrigramExtension t = Inr (t\<lparr>md_extensions := List.insert ''pg_trgm'' (md_extensions t)\<rparr>)"
| "apply_op (AddIndex ix) t = create_index ix t"
| "apply_op (RemoveIndex name) t = drop_index name t"

text \<open>A migration runs in a transaction: either all its operations or none.\<close>

fun apply_ops :: "operation list \<Rightarrow> table \<Rightarrow> table res" where
  "apply_ops [] t = Inr t"
| "apply_ops (op # ops) t = res_bind (apply_op op t) (apply_ops ops)"

text \<open>Unapplying: the operations in reverse order, each undone towards the schema it started from, which
  Django keeps as the state before the operation.\<close>

fun unapply_op :: "table \<Rightarrow> operation \<Rightarrow> table \<Rightarrow> table res" where
  "unapply_op before (CreateModel columns indexes checks) t =
     Inr (t\<lparr>md_columns := None, md_indexes := [], md_checks := [], md_rows := []\<rparr>)"
| "unapply_op before (RemoveConstraint name) t =
     (case map_of (md_checks before) name of Some allowed \<Rightarrow> add_check name allowed t | None \<Rightarrow> Inr t)"
| "unapply_op before (RunPython forward backward) t = write_rows backward t"
| "unapply_op before (AlterField c) t =
     (case List.find (\<lambda>c'. co_name c' = co_name c) (case md_columns before of Some cs \<Rightarrow> cs | None \<Rightarrow> []) of
        Some c' \<Rightarrow> Inr (t\<lparr>md_columns := map_option (alter_field c') (md_columns t)\<rparr>) | None \<Rightarrow> Inr t)"
| "unapply_op before (AddConstraint name allowed) t = drop_check name t"
| "unapply_op before TrigramExtension t = Inr (t\<lparr>md_extensions := removeAll ''pg_trgm'' (md_extensions t)\<rparr>)"
| "unapply_op before (AddIndex ix) t = drop_index (ix_name ix) t"
| "unapply_op before (RemoveIndex name) t =
     (case List.find (\<lambda>ix. ix_name ix = name) (md_indexes before) of Some ix \<Rightarrow> create_index ix t | None \<Rightarrow> Inr t)"

text \<open>The states before each operation come from applying them to the schema; rows play no part in it.\<close>

fun unapply_ops :: "table \<Rightarrow> operation list \<Rightarrow> table \<Rightarrow> table res" where
  "unapply_ops before [] t = Inr t"
| "unapply_ops before (op # ops) t =
     res_bind (apply_op op before) (\<lambda>after.
     res_bind (unapply_ops after ops t) (unapply_op before op))"

section \<open>The four migrations\<close>

definition status_column :: "(string \<times> string) list \<Rightarrow> column" where
  "status_column choices = col ''status'' (CharField 10 choices) False"

definition migration_0001 :: "operation list" where
  "migration_0001 = [CreateModel
     [col ''id'' UUIDField False, col ''task_name'' (CharField 255 []) False, col ''kwargs'' JSONField False,
      col ''n_retries'' PositiveSmallIntegerField False,
      status_column [(''RUNNING'', ''Running''), (''SUCCESS'', ''Success''), (''FAILED'', ''Failed''), (''RETRYING'', ''Retrying'')],
      col ''start_time'' DateTimeField True, col ''end_time'' DateTimeField True,
      col ''result'' JSONField True, col ''traceback'' TextField True]
     [\<lparr>ix_name = ''lambda_task_task_na_f00cb7_idx'', ix_gin = False, ix_expressions = [OnField ''task_name'']\<rparr>,
      \<lparr>ix_name = ''lambda_task_status_6901ee_idx'', ix_gin = False, ix_expressions = [OnField ''status'']\<rparr>,
      \<lparr>ix_name = ''lambda_task_start_t_9caffc_idx'', ix_gin = False, ix_expressions = [Descending ''start_time'']\<rparr>]
     [(''taskrecord_status_valid'', [''RUNNING'', ''SUCCESS'', ''FAILED'', ''RETRYING''])]]"

definition rename_status :: "string \<Rightarrow> string \<Rightarrow> rows \<Rightarrow> rows" where
  "rename_status old new rows = map (\<lambda>(i, s). (i, if s = old then new else s)) rows"

definition rename_statuses_forward :: "rows \<Rightarrow> rows" where
  "rename_statuses_forward rows = rename_status ''RETRYING'' ''RETRIED'' (rename_status ''SUCCESS'' ''SUCCEEDED'' rows)"

definition rename_statuses_backward :: "rows \<Rightarrow> rows" where
  "rename_statuses_backward rows = rename_status ''RETRIED'' ''RETRYING'' (rename_status ''SUCCEEDED'' ''SUCCESS'' rows)"

definition migration_0002 :: "operation list" where
  "migration_0002 =
     [RemoveConstraint ''taskrecord_status_valid'',
      RunPython rename_statuses_forward rename_statuses_backward,
      AlterField (status_column
        [(''RUNNING'', ''Running''), (''SUCCEEDED'', ''Succeeded''), (''FAILED'', ''Failed''), (''RETRIED'', ''Retried'')]),
      AddConstraint ''taskrecord_status_valid'' [''RUNNING'', ''SUCCEEDED'', ''FAILED'', ''RETRIED'']]"

definition migration_0003 :: "operation list" where
  "migration_0003 =
     [TrigramExtension,
      AddIndex \<lparr>ix_name = ''taskrecord_kwargs_trgm'', ix_gin = True,
                ix_expressions = [OpClass (CastText ''kwargs'') ''gin_trgm_ops'']\<rparr>]"

definition migration_0004 :: "operation list" where
  "migration_0004 =
     [RemoveIndex ''taskrecord_kwargs_trgm'',
      AddIndex \<lparr>ix_name = ''taskrecord_id_trgm'', ix_gin = True,
                ix_expressions = [OpClass (Upper (CastText ''id'')) ''gin_trgm_ops'']\<rparr>,
      AddIndex \<lparr>ix_name = ''taskrecord_kwargs_trgm'', ix_gin = True,
                ix_expressions = [OpClass (Upper (CastText ''kwargs'')) ''gin_trgm_ops'']\<rparr>]"

definition all_migrations :: "operation list" where
  "all_migrations = migration_0001 @ migration_0002 @ migration_0003 @ migration_0004"

section \<open>The model class\<close>

text \<open>\<open>TaskStatus.choices\<close>: the label of a member is its name in title case.\<close>

fun status_label :: "task_status \<Rightarrow> string" where
  "status_label RUNNING = ''Running''"
| "status_label SUCCEEDED = ''Succeeded''"
| "status_label FAILED = ''Failed''"
| "status_label RETRIED = ''Retried''"

definition TaskStatus_members :: "task_status list" where
  "TaskStatus_members = [RUNNING, SUCCEEDED, FAILED, RETRIED]"

definition TaskRecord_columns :: "column list" where
  "TaskRecord_columns =
     [col ''id'' UUIDField False, col ''task_name'' (CharField 255 []) False, col ''kwargs'' JSONField False,
      col ''n_retries'' PositiveSmallIntegerField False,
      status_column (map (\<lambda>s. (status_value s, status_label s)) TaskStatus_members),
      col ''start_time'' DateTimeField True, col ''end_time'' DateTimeField True,
      col ''result'' JSONField True, col ''traceback'' TextField True]"

text \<open>The expressions of \<open>Meta.indexes\<close>; Django derives the names of the unnamed ones.\<close>

definition TaskRecord_indexes :: "(bool \<times> index_expr list) list" where
  "TaskRecord_indexes =
     [(False, [OnField ''task_name'']), (False, [OnField ''status'']), (False, [Descending ''start_time'']),
      (True, [OpClass (Upper (CastText ''id'')) ''gin_trgm_ops'']),
      (True, [OpClass (Upper (CastText ''kwargs'')) ''gin_trgm_ops''])]"

definition TaskRecord_constraints :: "(string \<times> string list) list" where
  "TaskRecord_constraints = [(''taskrecord_status_valid'', map status_value TaskStatus_members)]"

section \<open>Properties\<close>


definition old_statuses :: "string list" where
  "old_statuses = [''RUNNING'', ''SUCCESS'', ''FAILED'', ''RETRYING'']"

definition new_statuses :: "string list" where
  "new_statuses = map status_value TaskStatus_members"

text \<open>The table after the first migration and after the second, with given rows.\<close>

definition table_0001 :: "rows \<Rightarrow> table" where
  "table_0001 rows = (projr (apply_ops migration_0001 no_table))\<lparr>md_rows := rows\<rparr>"

definition table_0002 :: "rows \<Rightarrow> table" where
  "table_0002 rows = (projr (apply_ops (migration_0001 @ migration_0002) no_table))\<lparr>md_rows := rows\<rparr>"

text \<open>The renaming, row by row.\<close>

definition forward_status :: "string \<Rightarrow> string" where
  "forward_status s = (if s = ''SUCCESS'' then ''SUCCEEDED'' else if s = ''RETRYING'' then ''RETRIED'' else s)"

definition backward_status :: "string \<Rightarrow> string" where
  "backward_status s = (if s = ''SUCCEEDED'' then ''SUCCESS'' else if s = ''RETRIED'' then ''RETRYING'' else s)"

lemma rename_rows:
  "rename_statuses_forward rows = map (\<lambda>(i, s). (i, forward_status s)) rows"
  "rename_statuses_backward rows = map (\<lambda>(i, s). (i, backward_status s)) rows"
  by (auto simp: rename_statuses_forward_def rename_statuses_backward_def rename_status_def
      forward_status_def backward_status_def)

definition all_in :: "string list \<Rightarrow> rows \<Rightarrow> bool" where
  "all_in ss rows \<longleftrightarrow> (\<forall>s \<in> set (map snd rows). s \<in> set ss)"

lemma forward_old: "s \<in> set old_statuses \<Longrightarrow> forward_status s \<in> set new_statuses \<and> backward_status (forward_status s) = s"
  by (auto simp: old_statuses_def new_statuses_def TaskStatus_members_def forward_status_def backward_status_def)

lemma backward_new: "s \<in> set new_statuses \<Longrightarrow> backward_status s \<in> set old_statuses \<and> forward_status (backward_status s) = s"
  by (auto simp: old_statuses_def new_statuses_def TaskStatus_members_def forward_status_def backward_status_def)

lemma rename_back: "all_in old_statuses rows \<Longrightarrow> rename_statuses_backward (rename_statuses_forward rows) = rows"
  by (force simp: rename_rows all_in_def forward_old intro!: map_idI)

lemma rename_forth: "all_in new_statuses rows \<Longrightarrow> rename_statuses_forward (rename_statuses_backward rows) = rows"
  by (force simp: rename_rows all_in_def backward_new intro!: map_idI)

lemma renamed_in:
  "all_in old_statuses rows \<Longrightarrow> all_in new_statuses (rename_statuses_forward rows)"
  "all_in new_statuses rows \<Longrightarrow> all_in old_statuses (rename_statuses_backward rows)"
  by (force simp: rename_rows all_in_def forward_old backward_new)+

lemma rows_allowed_all_in: "rows_allowed [(n, ss)] rows \<longleftrightarrow> all_in ss rows"
  by (auto simp: rows_allowed_def all_in_def list_all_iff)

text \<open>The tables spelled out.\<close>

lemma table_0001_at:
  "table_0001 rows = \<lparr>md_columns = md_columns (table_0001 []), md_indexes = md_indexes (table_0001 []),
     md_checks = [(''taskrecord_status_valid'', old_statuses)], md_extensions = [], md_rows = rows\<rparr>"
  by (simp add: table_0001_def migration_0001_def no_table_def old_statuses_def)

lemma table_0002_at:
  "table_0002 rows = \<lparr>md_columns = md_columns (table_0002 []), md_indexes = md_indexes (table_0001 []),
     md_checks = [(''taskrecord_status_valid'', new_statuses)], md_extensions = [], md_rows = rows\<rparr>"
proof -
  have "md_indexes (table_0002 []) = md_indexes (table_0001 [])"
    "md_checks (table_0002 []) = [(''taskrecord_status_valid'', new_statuses)]" "md_extensions (table_0002 []) = []"
    by code_simp+
  moreover have "table_0002 rows = (table_0002 [])\<lparr>md_rows := rows\<rparr>" by (simp add: table_0002_def)
  ultimately show ?thesis by (metis table.surjective table.update_convs(5) old.unit.exhaust)
qed

lemma status_column_altered:
  "map_option (alter_field (status_column
     [(''RUNNING'', ''Running''), (''SUCCEEDED'', ''Succeeded''), (''FAILED'', ''Failed''), (''RETRIED'', ''Retried'')]))
     (md_columns (table_0001 [])) = md_columns (table_0002 [])"
  "map_option (alter_field (status_column
     [(''RUNNING'', ''Running''), (''SUCCESS'', ''Success''), (''FAILED'', ''Failed''), (''RETRYING'', ''Retrying'')]))
     (md_columns (table_0002 [])) = md_columns (table_0001 [])"
  "List.find (\<lambda>c'. co_name c' = co_name (status_column x))
     (case md_columns (table_0001 []) of Some cs \<Rightarrow> cs | None \<Rightarrow> []) = Some (status_column
     [(''RUNNING'', ''Running''), (''SUCCESS'', ''Success''), (''FAILED'', ''Failed''), (''RETRYING'', ''Retrying'')])"
  subgoal by code_simp
  subgoal by code_simp
  subgoal by (simp add: status_column_def col_def table_0001_def migration_0001_def no_table_def)
  done

lemma tables_at:
  obtains c1 c2 ix where
    "\<And>rows. table_0001 rows = \<lparr>md_columns = c1, md_indexes = ix,
       md_checks = [(''taskrecord_status_valid'', old_statuses)], md_extensions = [], md_rows = rows\<rparr>"
    "\<And>rows. table_0002 rows = \<lparr>md_columns = c2, md_indexes = ix,
       md_checks = [(''taskrecord_status_valid'', new_statuses)], md_extensions = [], md_rows = rows\<rparr>"
    "c1 = md_columns (table_0001 [])" "c2 = md_columns (table_0002 [])"
  using that [OF table_0001_at table_0002_at] by blast

lemma new_statuses_at: "new_statuses = [''RUNNING'', ''SUCCEEDED'', ''FAILED'', ''RETRIED'']"
  by (simp add: new_statuses_def TaskStatus_members_def)

lemma apply_0002:
  assumes "all_in old_statuses rows"
  shows "apply_ops migration_0002 (table_0001 rows) = Inr (table_0002 (rename_statuses_forward rows))"
proof (rule tables_at)
  fix c1 c2 ix
  assume t: "\<And>rows. table_0001 rows = \<lparr>md_columns = c1, md_indexes = ix,
       md_checks = [(''taskrecord_status_valid'', old_statuses)], md_extensions = [], md_rows = rows\<rparr>"
    "\<And>rows. table_0002 rows = \<lparr>md_columns = c2, md_indexes = ix,
       md_checks = [(''taskrecord_status_valid'', new_statuses)], md_extensions = [], md_rows = rows\<rparr>"
    and c: "c1 = md_columns (table_0001 [])" "c2 = md_columns (table_0002 [])"
  show ?thesis
    using renamed_in(1) [OF assms] status_column_altered(1) unfolding t(1) t(2) c [symmetric]
    by (simp add: migration_0002_def drop_check_def write_rows_def add_check_def rows_allowed_all_in
        rows_allowed_def [of "[]"] new_statuses_at)
qed

lemma unapply_0002:
  assumes "all_in new_statuses rows"
  shows "unapply_ops (table_0001 []) migration_0002 (table_0002 rows) = Inr (table_0001 (rename_statuses_backward rows))"
proof (rule tables_at)
  fix c1 c2 ix
  assume t: "\<And>rows. table_0001 rows = \<lparr>md_columns = c1, md_indexes = ix,
       md_checks = [(''taskrecord_status_valid'', old_statuses)], md_extensions = [], md_rows = rows\<rparr>"
    "\<And>rows. table_0002 rows = \<lparr>md_columns = c2, md_indexes = ix,
       md_checks = [(''taskrecord_status_valid'', new_statuses)], md_extensions = [], md_rows = rows\<rparr>"
    and c: "c1 = md_columns (table_0001 [])" "c2 = md_columns (table_0002 [])"
  have e: "rename_statuses_forward [] = []" "all_in ss []" for ss
    by (simp_all add: rename_rows all_in_def)
  show ?thesis
    using renamed_in(2) [OF assms] status_column_altered(2,3) unfolding t(1) t(2) c [symmetric]
    by (simp add: migration_0002_def drop_check_def write_rows_def add_check_def rows_allowed_all_in
        rows_allowed_def [of "[]"] e)
qed



end
