(* ===== verification/Pool_Shutdown.thy ===== *)
theory Pool_Shutdown
  imports Local_Executor
begin

text \<open>
  The rest of \<open>lambda_tasks/local_executor.py\<close> and \<open>lambda_tasks/apps.py\<close>: the shutdown of the pool, the
  signal handlers that trigger it, and the initialisation of a worker process.  \<open>dev_process\<close> is a
  process of the development server or of the pool: the dispositions of its two signals, the pool and
  its worker processes, and what has happened to it so far.

  A signal is handled between two operations of the process, never inside one.  The handler that
  Python installs for SIGINT by default raises \<open>KeyboardInterrupt\<close> in the main thread; here it is
  a call that is recorded, since it comes after the pool's shutdown.
\<close>

section \<open>Processes and signals\<close>

datatype signum = SIGINT | SIGTERM

text \<open>What \<open>signal.getsignal\<close> returns: \<open>SIG_DFL\<close>, \<open>SIG_IGN\<close>, \<open>None\<close> for a handler that Python did not
  install, some Python function, or the closure \<open>make_handler(previous)\<close>.\<close>

datatype disposition = SigDefault | SigIgnore | NotFromPython | Function string | ShutdownThen disposition

text \<open>\<open>dv_called\<close> lists the calls of other handlers, with whether a pool existed at the time; \<open>dv_held\<close>
  counts the pools whose semaphores are not released.\<close>

record 'd dev_process =
  dv_world :: "'d world"
  dv_main_thread :: bool
  dv_handlers_installed :: bool
  dv_disposition :: "signum \<Rightarrow> disposition"
  dv_processes :: "nat list"
  dv_spawned :: "nat list"
  dv_terminated :: "nat list"
  dv_held :: nat
  dv_atexit :: nat
  dv_called :: "(string \<times> signum \<times> bool) list"
  dv_died :: "signum option"
  dv_connections :: nat
  dv_logged :: "exn list"

definition dv_pool :: "'d dev_process \<Rightarrow> int option" where
  "dv_pool d = wd_pool (dv_world d)"

definition callable :: "disposition \<Rightarrow> bool" where
  "callable h \<longleftrightarrow> (case h of Function name \<Rightarrow> True | ShutdownThen p \<Rightarrow> True | _ \<Rightarrow> False)"

section \<open>The pool\<close>

text \<open>\<open>get_pool\<close>: a pool that is created is registered with \<open>atexit\<close>.\<close>

definition dev_get_pool :: "'d platform \<Rightarrow> ('d dev_process, unit) eff" where
  "dev_get_pool plat = (\<lambda>d. case get_pool plat (dv_world d) of
       None \<Rightarrow> None
     | Some (r, w) \<Rightarrow>
         Some (r, if dv_pool d = None \<and> wd_pool w \<noteq> None
                  then d\<lparr>dv_world := w, dv_processes := [], dv_held := Suc (dv_held d), dv_atexit := Suc (dv_atexit d)\<rparr>
                  else d\<lparr>dv_world := w\<rparr>))"

definition shutdown_pool :: "'d dev_process \<Rightarrow> 'd dev_process" where
  "shutdown_pool d =
     (if dv_pool d \<noteq> None
      then d\<lparr>dv_world := (dv_world d)\<lparr>wd_pool := None\<rparr>, dv_terminated := dv_terminated d @ dv_processes d,
             dv_processes := [], dv_held := dv_held d - 1\<rparr>
      else d)"

text \<open>How a future of the pool ends, and what \<open>future.exception()\<close> then gives; for a future that was cancelled
  by the shutdown it raises.\<close>

datatype future = FutureResult | FutureException exn | FutureCancelled

definition CancelledError :: exn where
  "CancelledError = Exn (Cls ''CancelledError'' [Cls ''Error'' [Exception_cls]]) [] []"

definition future_exception :: "future \<Rightarrow> exn option res" where
  "future_exception fut = (case fut of
       FutureResult \<Rightarrow> Inr None | FutureException e \<Rightarrow> Inr (Some e) | FutureCancelled \<Rightarrow> Inl CancelledError)"

text \<open>\<open>_log_worker_exception\<close>, the callback that \<open>submit_task\<close> attaches to every future.\<close>

definition log_worker_exception :: "future \<Rightarrow> ('d dev_process, unit) eff" where
  "log_worker_exception fut =
     eff_bind (eff_res (future_exception fut)) (\<lambda>exception.
     case exception of None \<Rightarrow> eff_ret () | Some e \<Rightarrow> eff_upd (\<lambda>d. d\<lparr>dv_logged := dv_logged d @ [e]\<rparr>))"

section \<open>Signal handlers\<close>

definition set_disposition :: "signum \<Rightarrow> disposition \<Rightarrow> 'd dev_process \<Rightarrow> 'd dev_process" where
  "set_disposition s h d = d\<lparr>dv_disposition := (dv_disposition d)(s := h)\<rparr>"

text \<open>The arrival of a signal whose disposition is \<open>h\<close>; \<open>ShutdownThen\<close> is the function \<open>handler\<close> that
  \<open>make_handler(previous)\<close> returns.\<close>

fun run_handler :: "disposition \<Rightarrow> signum \<Rightarrow> 'd dev_process \<Rightarrow> 'd dev_process" where
  "run_handler SigDefault s d = d\<lparr>dv_died := Some s\<rparr>"
| "run_handler SigIgnore s d = d"
| "run_handler NotFromPython s d = d"
| "run_handler (Function name) s d = d\<lparr>dv_called := dv_called d @ [(name, s, dv_pool d \<noteq> None)]\<rparr>"
| "run_handler (ShutdownThen previous) s d =
     (let d1 = shutdown_pool d in
      if callable previous then run_handler previous s d1
      else if previous = SigDefault then run_handler SigDefault s (set_disposition s SigDefault d1)
      else d1)"

definition deliver_signal :: "signum \<Rightarrow> 'd dev_process \<Rightarrow> 'd dev_process" where
  "deliver_signal s d = run_handler (dv_disposition d s) s d"

text \<open>\<open>refuse s\<close>: what \<open>signal.signal(s, ...)\<close> raises, if it does.\<close>

definition install_one :: "(signum \<Rightarrow> exn option) \<Rightarrow> signum \<Rightarrow> ('d dev_process, unit) eff" where
  "install_one refuse s = (\<lambda>d. case refuse s of
       Some e \<Rightarrow> Some (Inl e, d)
     | None \<Rightarrow> Some (Inr (), set_disposition s (ShutdownThen (dv_disposition d s)) d))"

definition install_shutdown_handlers :: "(signum \<Rightarrow> exn option) \<Rightarrow> ('d dev_process, unit) eff" where
  "install_shutdown_handlers refuse =
     eff_bind (eff_get dv_handlers_installed) (\<lambda>handlers_installed.
     if handlers_installed then eff_ret ()
     else eff_bind (eff_get dv_main_thread) (\<lambda>main_thread.
     if \<not> main_thread then eff_ret ()
     else eff_bind (eff_attempt (eff_each (install_one refuse) [SIGINT, SIGTERM])) (\<lambda>r. case r of
            Inl e \<Rightarrow> if isinstance e ValueError_cls then eff_ret () else eff_raise e
          | Inr _ \<Rightarrow> eff_upd (\<lambda>d. d\<lparr>dv_handlers_installed := True\<rparr>))))"

section \<open>The application and the worker processes\<close>

definition LambdaTasksConfig_ready ::
  "'d platform \<Rightarrow> (signum \<Rightarrow> exn option) \<Rightarrow> ('d dev_process, unit) eff" where
  "LambdaTasksConfig_ready plat refuse =
     eff_bind (eff_res (LOCAL_WORKERS (p_settings plat))) (\<lambda>workers.
     if workers > 0 then install_shutdown_handlers refuse else eff_ret ())"

text \<open>\<open>_pool_initializer\<close>: \<open>setup\<close> is the part of \<open>django.setup()\<close> outside this package, which may raise
  and may open connections; \<open>ready\<close> is called at its end.\<close>

definition pool_initializer ::
  "'d platform \<Rightarrow> (signum \<Rightarrow> exn option) \<Rightarrow> (unit res \<times> nat) \<Rightarrow> ('d dev_process, unit) eff" where
  "pool_initializer plat refuse setup =
     eff_seq (case refuse SIGINT of Some e \<Rightarrow> eff_raise e | None \<Rightarrow> eff_upd (set_disposition SIGINT SigIgnore))
     (eff_seq (eff_upd (\<lambda>d. d\<lparr>dv_connections := dv_connections d + snd setup\<rparr>))
     (eff_seq (eff_res (fst setup))
     (eff_seq (LambdaTasksConfig_ready plat refuse)
              (eff_upd (\<lambda>d. d\<lparr>dv_connections := 0\<rparr>)))))"

section \<open>The life of the server process\<close>

text \<open>What may happen to the process while it lives, in any order: a task asks for the pool, the pool starts
  a worker process, the application is set up (again), a signal arrives, the interpreter exits, a future ends
  and its callback runs (\<open>concurrent.futures\<close> ignores what the callback raises).\<close>

inductive dev_step :: "'d platform \<Rightarrow> (signum \<Rightarrow> exn option) \<Rightarrow> 'd dev_process \<Rightarrow> 'd dev_process \<Rightarrow> bool"
  for plat refuse where
  get_pool: "dv_died d = None \<Longrightarrow> dev_get_pool plat d = Some (r, d') \<Longrightarrow> dev_step plat refuse d d'"
| spawn: "dv_died d = None \<Longrightarrow> dv_pool d = Some n \<Longrightarrow> int (length (dv_processes d)) < n \<Longrightarrow> pid \<notin> set (dv_spawned d) \<Longrightarrow>
    dev_step plat refuse d (d\<lparr>dv_processes := dv_processes d @ [pid], dv_spawned := dv_spawned d @ [pid]\<rparr>)"
| ready: "dv_died d = None \<Longrightarrow> LambdaTasksConfig_ready plat refuse d = Some (r, d') \<Longrightarrow> dev_step plat refuse d d'"
| signal: "dv_died d = None \<Longrightarrow> dev_step plat refuse d (deliver_signal s d)"
| atexit: "dv_died d = None \<Longrightarrow> 0 < dv_atexit d \<Longrightarrow> dev_step plat refuse d (shutdown_pool d)"
| future_done: "dv_died d = None \<Longrightarrow> log_worker_exception fut d = Some (r, d') \<Longrightarrow> dev_step plat refuse d d'"

text \<open>A process as it starts: no pool, nothing installed.\<close>

definition dev_init :: "'d dev_process \<Rightarrow> bool" where
  "dev_init d \<longleftrightarrow> dv_pool d = None \<and> \<not> dv_handlers_installed d \<and> dv_processes d = [] \<and> dv_spawned d = [] \<and>
     dv_terminated d = [] \<and> dv_held d = 0 \<and> dv_atexit d = 0 \<and> dv_called d = [] \<and> dv_died d = None \<and>
     (\<forall>s h. dv_disposition d s \<noteq> ShutdownThen h)"

inductive dev_reachable :: "'d platform \<Rightarrow> (signum \<Rightarrow> exn option) \<Rightarrow> 'd dev_process \<Rightarrow> bool" for plat refuse where
  start: "dev_init d \<Longrightarrow> dev_reachable plat refuse d"
| step: "dev_reachable plat refuse d \<Longrightarrow> dev_step plat refuse d d' \<Longrightarrow> dev_reachable plat refuse d'"

section \<open>The invariant\<close>

text \<open>At most one pool holds semaphores, the one in \<open>_pool\<close>; every worker process ever started belongs to it
  or has been terminated; once the handlers are installed and while the process lives, both signals
  go through them.\<close>

definition pool_inv :: "'d dev_process \<Rightarrow> bool" where
  "pool_inv d \<longleftrightarrow> dv_held d = (if dv_pool d = None then 0 else 1) \<and>
     (dv_pool d = None \<longrightarrow> dv_processes d = []) \<and>
     set (dv_spawned d) = set (dv_processes d) \<union> set (dv_terminated d) \<and>
     (dv_handlers_installed d \<and> dv_died d = None \<longrightarrow> (\<forall>s. \<exists>h. dv_disposition d s = ShutdownThen h))"

lemma shutdown_pool_simps [simp]:
  "dv_pool (shutdown_pool d) = None" "dv_died (shutdown_pool d) = dv_died d"
  "dv_disposition (shutdown_pool d) = dv_disposition d" "dv_handlers_installed (shutdown_pool d) = dv_handlers_installed d"
  "dv_spawned (shutdown_pool d) = dv_spawned d" "dv_called (shutdown_pool d) = dv_called d"
  by (auto simp: shutdown_pool_def dv_pool_def)

lemma set_disposition_simps [simp]:
  "dv_pool (set_disposition s h d) = dv_pool d" "dv_died (set_disposition s h d) = dv_died d"
  "dv_spawned (set_disposition s h d) = dv_spawned d" "dv_processes (set_disposition s h d) = dv_processes d"
  "dv_terminated (set_disposition s h d) = dv_terminated d" "dv_held (set_disposition s h d) = dv_held d"
  "dv_called (set_disposition s h d) = dv_called d" "dv_disposition (set_disposition s h d) = (dv_disposition d)(s := h)"
  "dv_handlers_installed (set_disposition s h d) = dv_handlers_installed d"
  by (simp_all add: set_disposition_def dv_pool_def)

lemma dv_pool_updates:
  "dv_pool (d\<lparr>dv_disposition := dis, dv_died := x\<rparr>) = dv_pool d" "dv_pool (d\<lparr>dv_called := calls\<rparr>) = dv_pool d"
  by (simp_all add: dv_pool_def)

lemma shutdown_pool_inv: "pool_inv d \<Longrightarrow> pool_inv (shutdown_pool d)"
  by (cases "dv_pool d") (auto simp: pool_inv_def shutdown_pool_def dv_pool_def)

lemma shutdown_pool_none [simp]: "dv_pool d = None \<Longrightarrow> shutdown_pool d = d"
  by (simp add: shutdown_pool_def)

lemma log_worker_exception_only_logs:
  "log_worker_exception fut d = Some (r, d') \<Longrightarrow> d' = d\<lparr>dv_logged := dv_logged d'\<rparr>"
  by (auto simp: log_worker_exception_def eff_simps split: sum.split_asm option.split_asm)

lemma pool_inv_logged: "pool_inv d \<Longrightarrow> pool_inv (d\<lparr>dv_logged := es\<rparr>)"
  by (simp add: pool_inv_def dv_pool_def)

text \<open>Installing when installed, or off the main thread, changes nothing.\<close>

lemma install_noop:
  "dv_handlers_installed d \<or> \<not> dv_main_thread d \<Longrightarrow> install_shutdown_handlers refuse d = Some (Inr (), d)"
  by (auto simp: install_shutdown_handlers_def eff_simps)

text \<open>Where a chain of handlers ends.\<close>

fun chain_end :: "disposition \<Rightarrow> disposition" where
  "chain_end (ShutdownThen h) = chain_end h"
| "chain_end h = h"

text \<open>Without a pool a handler does what the end of its chain does, and nothing else.\<close>

lemma run_shutdown_no_pool: "dv_pool d = None \<Longrightarrow> callable h \<Longrightarrow> run_handler (ShutdownThen h) s d = run_handler h s d"
  by simp

lemma run_handler_no_pool:
  "dv_pool d = None \<Longrightarrow>
   (case chain_end h of
      SigDefault \<Rightarrow> \<exists>dis. run_handler h s d = d\<lparr>dv_disposition := dis, dv_died := Some s\<rparr>
    | Function name \<Rightarrow> run_handler h s d = d\<lparr>dv_called := dv_called d @ [(name, s, False)]\<rparr>
    | _ \<Rightarrow> run_handler h s d = d)"
proof (induction h arbitrary: d)
  case SigDefault
  have "d\<lparr>dv_died := Some s\<rparr> = d\<lparr>dv_disposition := dv_disposition d, dv_died := Some s\<rparr>" by simp
  then show ?case by (auto intro: exI [of _ "dv_disposition d"])
next
  case (ShutdownThen h)
  show ?case
  proof (cases h)
    case SigDefault
    then show ?thesis using ShutdownThen.prems by (auto simp: callable_def set_disposition_def)
  next
    case (Function name)
    then show ?thesis using ShutdownThen by (simp add: callable_def)
  next
    case (ShutdownThen h')
    then have "callable h" by (simp add: callable_def)
    then have eq: "run_handler (ShutdownThen h) s d = run_handler h s d"
      by (rule run_shutdown_no_pool [OF ShutdownThen.prems])
    show ?thesis using ShutdownThen.IH [OF ShutdownThen.prems] unfolding eq by simp
  qed (use ShutdownThen.prems in \<open>simp_all add: callable_def\<close>)
qed simp_all

lemma pool_inv_updates:
  "pool_inv d \<Longrightarrow> pool_inv (d\<lparr>dv_disposition := dis, dv_died := Some s\<rparr>)"
  "pool_inv d \<Longrightarrow> pool_inv (d\<lparr>dv_called := calls\<rparr>)"
  by (simp_all add: pool_inv_def dv_pool_def)

lemma run_handler_inv:
  assumes "pool_inv d"
  shows "pool_inv (run_handler h s d)"
proof -
  have no_pool: "pool_inv (run_handler h s d')" if "pool_inv d'" "dv_pool d' = None" for d'
    using run_handler_no_pool [OF that(2), of h s] pool_inv_updates [OF that(1)] that(1)
    by (cases "chain_end h") auto
  show ?thesis
  proof (cases h)
    case SigDefault
    have "d\<lparr>dv_died := Some s\<rparr> = d\<lparr>dv_disposition := dv_disposition d, dv_died := Some s\<rparr>" by simp
    then show ?thesis using pool_inv_updates(1) [OF assms] unfolding SigDefault run_handler.simps by metis
  next
    case (ShutdownThen p)
    have "run_handler h s d = run_handler h s (shutdown_pool d)" unfolding ShutdownThen by simp
    then show ?thesis using no_pool [OF shutdown_pool_inv [OF assms]] by simp
  qed (simp_all add: assms pool_inv_updates)
qed

lemma all_signum: "(\<forall>s. P s) \<longleftrightarrow> P SIGINT \<and> P SIGTERM"
  by (metis signum.exhaust)

lemma install_both:
  "eff_each (install_one refuse) [SIGINT, SIGTERM] d =
    (case refuse SIGINT of Some e \<Rightarrow> Some (Inl e, d)
     | None \<Rightarrow> (let d1 = set_disposition SIGINT (ShutdownThen (dv_disposition d SIGINT)) d in
         case refuse SIGTERM of Some e \<Rightarrow> Some (Inl e, d1)
         | None \<Rightarrow> Some (Inr (), set_disposition SIGTERM (ShutdownThen (dv_disposition d SIGTERM)) d1)))"
  by (simp add: install_one_def eff_simps split: option.split)

lemma install_outcome:
  assumes "install_shutdown_handlers refuse d = Some (r, d')"
  obtains "d' = d"
    | "\<not> dv_handlers_installed d" "d' = set_disposition SIGINT (ShutdownThen (dv_disposition d SIGINT)) d"
    | "d' = d\<lparr>dv_disposition := \<lambda>s. ShutdownThen (dv_disposition d s), dv_handlers_installed := True\<rparr>"
proof (cases "dv_handlers_installed d \<or> \<not> dv_main_thread d")
  case True
  then show ?thesis using assms that(1) by (simp add: install_noop)
next
  case False
  have f: "(dv_disposition d)(SIGINT := ShutdownThen (dv_disposition d SIGINT), SIGTERM := ShutdownThen (dv_disposition d SIGTERM))
      = (\<lambda>s. ShutdownThen (dv_disposition d s))"
  proof
    fix s
    show "((dv_disposition d)(SIGINT := ShutdownThen (dv_disposition d SIGINT), SIGTERM := ShutdownThen (dv_disposition d SIGTERM))) s
        = ShutdownThen (dv_disposition d s)"
      by (cases s) simp_all
  qed
  show ?thesis
    using assms False that unfolding install_shutdown_handlers_def
    by (auto simp: eff_bind_at eff_get_at eff_attempt_at install_both eff_ret_at eff_raise_at eff_upd_at set_disposition_def f Let_def
        simp del: eff_each.simps split: option.split_asm if_split_asm)
qed

lemma ready_outcome:
  assumes "LambdaTasksConfig_ready plat refuse d = Some (r, d')"
  obtains "d' = d" | "install_shutdown_handlers refuse d = Some (r, d')"
  using assms that by (auto simp: LambdaTasksConfig_ready_def eff_simps split: sum.split_asm if_split_asm)

lemma install_inv:
  assumes "install_shutdown_handlers refuse d = Some (r, d')" and "pool_inv d"
  shows "pool_inv d'"
  using assms(1)
  by (rule install_outcome) (use assms(2) in \<open>auto simp: pool_inv_def dv_pool_def set_disposition_def\<close>)

lemma dev_get_pool_inv:
  assumes "dev_get_pool plat d = Some (r, d')" and "pool_inv d"
  shows "pool_inv d'"
proof (cases "dv_pool d")
  case (Some n)
  then have "d' = d" using assms(1) by (auto simp: dev_get_pool_def get_pool_def dv_pool_def)
  with assms(2) show ?thesis by simp
next
  case None
  then show ?thesis
    using assms
    by (auto simp: dev_get_pool_def get_pool_def dv_pool_def pool_inv_def add_event_def
        split: sum.split_asm if_split_asm)
qed

lemma dev_step_inv: "dev_step plat refuse d d' \<Longrightarrow> pool_inv d \<Longrightarrow> pool_inv d'"
proof (induction rule: dev_step.induct)
  case (get_pool d r d')
  then show ?case by (blast intro: dev_get_pool_inv)
next
  case (spawn d n pid)
  then show ?case by (auto simp: pool_inv_def dv_pool_def)
next
  case (ready d r d')
  from ready(2) show ?case
    by (rule ready_outcome) (use ready(3) in \<open>auto intro: install_inv\<close>)
next
  case (signal d s)
  then show ?case by (simp add: deliver_signal_def run_handler_inv)
next
  case (atexit d)
  then show ?case by (simp add: shutdown_pool_inv)
next
  case (future_done d fut r d')
  from future_done(2) have "d' = d\<lparr>dv_logged := dv_logged d'\<rparr>" by (rule log_worker_exception_only_logs)
  then show ?case using future_done(3) by (metis pool_inv_logged)
qed

lemma dev_reachable_inv: "dev_reachable plat refuse d \<Longrightarrow> pool_inv d"
proof (induction rule: dev_reachable.induct)
  case (start d)
  then show ?case by (simp add: dev_init_def pool_inv_def)
next
  case (step d d')
  then show ?case by (blast intro: dev_step_inv)
qed

end
