(* ===== verification/Pool_Props.thy ===== *)
theory Pool_Props
  imports Pool_Shutdown Sample
begin

text \<open>
  What Ctrl+C does to the development server and to its worker processes.
\<close>

text \<open>C25. Ctrl+C releases the pool before anything else.  In every reachable state of a living server
  process whose handlers are installed, a SIGINT or SIGTERM leaves no pool, no held semaphores and no
  worker process that was ever started unterminated; the handler that was installed before ours
  still runs, exactly once, and finds the pool gone; if there was none, the process dies of the
  signal.\<close>

theorem signal_releases_the_pool:
  assumes "dev_reachable plat refuse d" and "dv_handlers_installed d" and "dv_died d = None"
  shows "dv_pool (deliver_signal s d) = None \<and> dv_held (deliver_signal s d) = 0 \<and>
    set (dv_terminated (deliver_signal s d)) = set (dv_spawned d) \<and>
    dv_called (deliver_signal s d) = dv_called d @
      (case chain_end (dv_disposition d s) of Function name \<Rightarrow> [(name, s, False)] | _ \<Rightarrow> []) \<and>
    dv_died (deliver_signal s d) = (if chain_end (dv_disposition d s) = SigDefault then Some s else None)"
proof -
  have i: "pool_inv d" using assms(1) by (rule dev_reachable_inv)
  then obtain h where h: "dv_disposition d s = ShutdownThen h" using assms(2,3) by (auto simp: pool_inv_def)
  have e: "deliver_signal s d = run_handler (dv_disposition d s) s (shutdown_pool d)"
    unfolding deliver_signal_def h by simp
  have "pool_inv (shutdown_pool d)" using i by (rule shutdown_pool_inv)
  then have r: "dv_held (shutdown_pool d) = 0" "set (dv_terminated (shutdown_pool d)) = set (dv_spawned d)"
    by (simp_all add: pool_inv_def)
  note n = run_handler_no_pool [of "shutdown_pool d" "dv_disposition d s" s, OF shutdown_pool_simps(1)]
  show ?thesis
  proof (cases "chain_end (dv_disposition d s)")
    case SigDefault
    then obtain dis where "deliver_signal s d = (shutdown_pool d)\<lparr>dv_disposition := dis, dv_died := Some s\<rparr>"
      using n unfolding e by auto
    then show ?thesis using r SigDefault by (simp add: dv_pool_updates)
  qed (use n r assms(3) e in \<open>auto simp: dv_pool_updates\<close>)
qed

definition dev_platform :: "nat platform" where
  "dev_platform = sample_platform\<lparr>p_settings := example_settings\<rparr>"

definition dev_start :: "nat dev_process" where
  "dev_start = \<lparr>dv_world = sample_world, dv_main_thread = True, dv_handlers_installed = False,
     dv_disposition = (\<lambda>s. if s = SIGINT then Function ''default_int_handler'' else SigDefault),
     dv_processes = [], dv_spawned = [], dv_terminated = [], dv_held = 0, dv_atexit = 0, dv_called = [],
     dv_died = None, dv_connections = 0, dv_logged = []\<rparr>"

definition allowed :: "signum \<Rightarrow> exn option" where
  "allowed s = None"

text \<open>The server has been set up, a task was enqueued, and the pool has started one process.\<close>

definition dev_ready :: "nat dev_process" where
  "dev_ready = snd (the (LambdaTasksConfig_ready dev_platform allowed dev_start))"

definition dev_pooled :: "nat dev_process" where
  "dev_pooled = snd (the (dev_get_pool dev_platform dev_ready))"

definition dev_busy :: "nat dev_process" where
  "dev_busy = dev_pooled\<lparr>dv_processes := dv_processes dev_pooled @ [7], dv_spawned := dv_spawned dev_pooled @ [7]\<rparr>"

lemma some_pair: "\<not> Option.is_none x \<Longrightarrow> x = Some (fst (the x), snd (the x))"
  by (cases x) simp_all

lemma dev_busy_reachable: "dev_reachable dev_platform allowed dev_busy"
proof -
  have i: "dev_init dev_start" by (simp add: dev_init_def dev_start_def dv_pool_def sample_world_def)
  have c: "\<not> Option.is_none (LambdaTasksConfig_ready dev_platform allowed dev_start)"
    "\<not> Option.is_none (dev_get_pool dev_platform dev_ready)" "dv_died dev_start = None" "dv_died dev_ready = None"
    "dv_died dev_pooled = None" "dv_pool dev_pooled = Some 2" "int (length (dv_processes dev_pooled)) < 2"
    "7 \<notin> set (dv_spawned dev_pooled)"
    by code_simp+
  have r: "dev_reachable dev_platform allowed dev_ready"
    using dev_step.ready [OF c(3) some_pair [OF c(1)]] unfolding dev_ready_def
    by (rule dev_reachable.step [OF dev_reachable.start [OF i]])
  have "dev_reachable dev_platform allowed dev_pooled"
    using dev_step.get_pool [OF c(4) some_pair [OF c(2)], of allowed] unfolding dev_pooled_def
    by (rule dev_reachable.step [OF r])
  then show ?thesis
    unfolding dev_busy_def by (rule dev_reachable.step) (rule dev_step.spawn [OF c(5-8)])
qed

theorem signal_releases_the_pool_witness:
  "set (dv_terminated (deliver_signal SIGINT dev_busy)) = {7} \<and> dv_pool (deliver_signal SIGINT dev_busy) = None \<and>
   dv_called (deliver_signal SIGINT dev_busy) = [(''default_int_handler'', SIGINT, False)]"
proof -
  have c: "dv_handlers_installed dev_busy" "dv_died dev_busy = None" "dv_spawned dev_busy = [7]"
    "chain_end (dv_disposition dev_busy SIGINT) = Function ''default_int_handler''" "dv_called dev_busy = []"
    by code_simp+
  show ?thesis
    using signal_releases_the_pool [OF dev_busy_reachable c(1,2), of SIGINT] c(3-5) by simp
qed

text \<open>A worker process of the pool ignores Ctrl+C.  Its initializer ignores SIGINT and then sets up
  Django, which calls the application's \<open>ready\<close> and may install the shutdown handlers in the worker
  too; whatever the setup does, a SIGINT then changes nothing in the worker.\<close>

lemma worker_ignores_ctrl_c:
  assumes "dev_init d" and "refuse SIGINT = None" and "pool_initializer plat refuse setup d = Some (r, d')"
  shows "deliver_signal SIGINT d' = d' \<and> dv_died d' = None \<and> (r = Inr () \<longrightarrow> dv_connections d' = 0)"
proof -
  let ?d1 = "(set_disposition SIGINT SigIgnore d)\<lparr>dv_connections := dv_connections d + snd setup\<rparr>"
  have d1: "dv_pool ?d1 = None" "dv_died ?d1 = None" "dv_disposition ?d1 SIGINT = SigIgnore" "\<not> dv_handlers_installed ?d1"
    using assms(1) by (simp_all add: dev_init_def dv_pool_def set_disposition_def)
  have ok: "deliver_signal SIGINT x = x" if "dv_pool x = None" "dv_disposition x SIGINT \<in> {SigIgnore, ShutdownThen SigIgnore}" for x
    using that by (auto simp: deliver_signal_def callable_def)
  have c: "dv_connections (set_disposition SIGINT SigIgnore d) = dv_connections d"
    by (simp add: set_disposition_def)
  have "d' = ?d1 \<and> r \<noteq> Inr () \<or> (\<exists>r2 d2. LambdaTasksConfig_ready plat refuse ?d1 = Some (r2, d2) \<and>
      r = r2 \<and> d' = (if r2 = Inr () then d2\<lparr>dv_connections := 0\<rparr> else d2))"
    using assms(2,3) by (auto simp: pool_initializer_def eff_simps c split: sum.split_asm option.split_asm)
  then show ?thesis
  proof
    assume "d' = ?d1 \<and> r \<noteq> Inr ()"
    then show ?thesis using ok [of ?d1] d1 by simp
  next
    assume "\<exists>r2 d2. LambdaTasksConfig_ready plat refuse ?d1 = Some (r2, d2) \<and>
      r = r2 \<and> d' = (if r2 = Inr () then d2\<lparr>dv_connections := 0\<rparr> else d2)"
    then obtain d2 where r: "LambdaTasksConfig_ready plat refuse ?d1 = Some (r, d2)"
      and d': "d' = (if r = Inr () then d2\<lparr>dv_connections := 0\<rparr> else d2)" by blast
    have "dv_pool d2 = None \<and> dv_died d2 = None \<and> dv_disposition d2 SIGINT \<in> {SigIgnore, ShutdownThen SigIgnore}"
      using r
    proof (rule ready_outcome)
      assume "d2 = ?d1"
      then show ?thesis using d1 by simp
    next
      assume "install_shutdown_handlers refuse ?d1 = Some (r, d2)"
      then show ?thesis
        by (rule install_outcome) (use d1 in \<open>auto simp: dv_pool_def set_disposition_def\<close>)
    qed
    then show ?thesis using ok [of d'] d' by (auto simp: dv_pool_def)
  qed
qed

lemma worker_ignores_ctrl_c_witness:
  "\<exists>d'. pool_initializer dev_platform allowed (Inr (), 3) dev_start = Some (Inr (), d') \<and>
     deliver_signal SIGINT d' = d' \<and> dv_handlers_installed d' \<and> dv_connections d' = 0"
proof -
  let ?p = "pool_initializer dev_platform allowed (Inr (), 3) dev_start"
  have i: "dev_init dev_start" by (simp add: dev_init_def dev_start_def dv_pool_def sample_world_def)
  have c: "\<not> Option.is_none ?p" "fst (the ?p) = Inr ()" "dv_handlers_installed (snd (the ?p))" "allowed SIGINT = None"
    by code_simp+
  have p: "?p = Some (Inr (), snd (the ?p))" using some_pair [OF c(1)] c(2) by simp
  show ?thesis
    using worker_ignores_ctrl_c [OF i c(4) p] p c(3) by (intro exI [of _ "snd (the ?p)"]) simp
qed

end
