(* ===== verification/Late_Errors.thy ===== *)
theory Late_Errors
  imports Timeout_Props
begin

text \<open>
  Errors that come after the code of the task: a commit hook that raises, or the release of a singleton
  lock that has expired.  The lock's own timeout is the hard timeout and it is taken before the alarm is
  armed, so a task that reaches its hard limit no longer owns its lock when it gives it back.  By then
  the transaction is over, but \<open>execute_immediately\<close> treats the error as if the task had raised it.
\<close>

section \<open>A call that fails after its commit\<close>

text \<open>The code of the task returned and its transaction was committed, in the state \<open>w2\<close>; then \<open>e\<close> was raised,
  and \<open>w1\<close> is the state in which the handler of \<open>execute_immediately\<close> starts.\<close>

definition late_failure ::
  "nat \<Rightarrow> 'd platform \<Rightarrow> sqs_message \<Rightarrow> string \<Rightarrow> 'd world \<Rightarrow> 'd wrapper \<Rightarrow> int \<Rightarrow> int \<Rightarrow> kwargs
   \<Rightarrow> exn \<Rightarrow> 'd world \<Rightarrow> 'd world \<Rightarrow> bool" where
  "late_failure n plat m i w wr soft hard kw e w2 w1 \<longleftrightarrow>
     (let lock = lock_of plat wr m hard; w0 = begun i m kw w in
      lock_refused plat lock w0 = None \<and>
      (\<exists>v. run_code n plat m i w wr soft hard kw = Some (Inr v, w2)) \<and>
      p_commit_error plat (wd_trace w2) (wd_db w2) = None \<and>
      (\<exists>rh w3. eff_each (execute_task n plat) (wd_hooks w2) (task_end plat w0 w2) = Some (rh, w3) \<and>
         lock_outcome (lock_lost plat lock w3) rh = Inl e \<and> w1 = lock_released lock w3))"

lemma late_failure_call:
  assumes "idle w" and "late_failure n plat m i w wr soft hard kw e w2 w1"
  shows "guarded_call (execute_task n plat) plat wr (msg_kwargs m) (lock_of plat wr m hard) soft hard
           (begun i m kw w) = Some (Inl e, w1)"
proof -
  let ?lock = "lock_of plat wr m hard" and ?w0 = "begun i m kw w"
  obtain v rh w3 where f: "lock_refused plat ?lock ?w0 = None" "run_code n plat m i w wr soft hard kw = Some (Inr v, w2)"
    "p_commit_error plat (wd_trace w2) (wd_db w2) = None"
    "eff_each (execute_task n plat) (wd_hooks w2) (task_end plat ?w0 w2) = Some (rh, w3)"
    "lock_outcome (lock_lost plat ?lock w3) rh = Inl e" "w1 = lock_released ?lock w3"
    using assms(2) by (auto simp: late_failure_def Let_def)
  have "lock_outcome (lock_lost plat ?lock w3) (case rh of Inl e \<Rightarrow> Inl e | Inr _ \<Rightarrow> Inr v) = Inl e"
    using f(5) by (auto simp: lock_outcome_def split: option.split_asm sum.split_asm)
  then show ?thesis
    using f by (simp add: guarded_call_at [OF iffD2 [OF idle_begun assms(1)]] run_code_def block_error_def)
qed

lemma execute_immediately_late:
  assumes "attempts plat m i w wr soft hard kw" and "idle w"
    and "late_failure n plat m i w wr soft hard kw e w2 w1"
  shows "execute_immediately (Suc n) plat m i w =
    map_option (\<lambda>(r, w'). (r, w'\<lparr>wd_log_id := None\<rparr>))
      (handle_error (execute_task n plat) plat m i wr (fresh_record m kw (wd_now w)) e w1)"
  unfolding execute_immediately_attempts [OF assms(1)] late_failure_call [OF assms(2,3)] by simp

text \<open>Outside eager mode the hooks only send: the committed database is the one the handler finds.\<close>

lemma late_failure_facts:
  assumes "\<not> EAGER (p_settings plat)" and "late_failure n plat m i w wr soft hard kw e w2 w1"
  shows "wd_db w1 = wd_db w2" "idle w1" "wd_log_id w1 = Some i" "wd_now w1 = wd_now w2" "wd_draws w1 = wd_draws w"
proof -
  let ?lock = "lock_of plat wr m hard" and ?w0 = "begun i m kw w"
  obtain v rh w3 where c: "run_code n plat m i w wr soft hard kw = Some (Inr v, w2)"
    and h: "eff_each (execute_task n plat) (wd_hooks w2) (task_end plat ?w0 w2) = Some (rh, w3)"
    and w1: "w1 = lock_released ?lock w3"
    using assms(2) by (auto simp: late_failure_def Let_def)
  have "eff_keeps sends_outside (eff_each (execute_task n plat) (wd_hooks w2))"
    by (rule outside.keeps_each) (auto simp: eff_keeps_def sends_outside_def dest: execute_task_sends [OF assms(1)])
  then have "sends_only (task_end plat ?w0 w2) w3"
    using h by (auto simp: sends_outside_def dest: eff_keepsD)
  note s = sends_only_simps [OF this]
  note it = run_code_in_task [OF c]
  show "wd_db w1 = wd_db w2" "idle w1" "wd_log_id w1 = Some i" "wd_now w1 = wd_now w2" "wd_draws w1 = wd_draws w"
    using s it by (simp_all add: w1 idle_def in_task_def)
qed

text \<open>The record the handler writes.\<close>

lemma late_finish:
  assumes "\<not> EAGER (p_settings plat)" and "late_failure n plat m i w wr soft hard kw e w2 w1"
    and "record_lookup (wd_records w2) i = Some row" and "\<forall>r. p_save_error plat r = None"
    and "x = w1 \<or> (\<exists>l. x = add_event (log_event i l) w1)"
  obtains w3 where "finish_with_traceback plat i (fresh_record m kw (wd_now w)) s e x =
      Some (Inr (with_traceback plat s e (wd_now w2) (fresh_record m kw (wd_now w))), w3)"
    and "wd_db w3 = (wd_db w2)\<lparr>db_records := record_update i (with_traceback plat s e (wd_now w2)) (wd_records w2)\<rparr>"
    and "idle w3" and "wd_log_id w3 = Some i" and "sends w3 = sends w1" and "wd_draws w3 = wd_draws w"
proof -
  note f = late_failure_facts [OF assms(1,2)]
  have x: "wd_db x = wd_db w1" "idle x" "wd_log_id x = Some i" "wd_now x = wd_now w1" "wd_draws x = wd_draws w1" "sends x = sends w1"
    using assms(5) f by (auto simp: idle_def)
  show thesis
    using finish_with_traceback_at [of plat s e x "fresh_record m kw (wd_now w)" i row] assms(3,4) x f
      that [of "set_records (record_update i (with_traceback plat s e (wd_now w2)) (wd_records w2)) x"]
    by (simp add: idle_def set_records_def sends_def)
qed

section \<open>A message that cannot be sent\<close>

text \<open>C13. A commit that is taken back only in the record.  When the code of a task returned and its changes were
  committed, but a message it enqueued cannot be sent, the changes stand, the record is FAILED with the
  traceback of the sending, the messages enqueued before it are sent and the others are not, and the call
  returns normally, so that the message is acknowledged.\<close>

theorem failed_send_fails_committed_task:
  assumes "attempts plat m i w wr soft hard kw" and "idle w" and "\<not> EAGER (p_settings plat)"
    and "late_failure n plat m i w wr soft hard kw e w2 w1" and "record_lookup (wd_records w2) i = Some row"
    and "is_Exception e" and "\<not> retryable wr e"
    and "\<not> (w_singleton wr \<and> \<not> w_retry_singleton wr \<and> isinstance e LockError_cls)"
    and "\<forall>r. p_save_error plat r = None"
  shows "\<exists>w'. execute_immediately (Suc n) plat m i w = Some (Inr (), w') \<and>
    wd_db w' = (wd_db w2)\<lparr>db_records := record_update i (with_traceback plat FAILED e (wd_now w2)) (wd_records w2)\<rparr> \<and>
    sends w' = sends w1"
proof -
  obtain w3 where w3: "finish_with_traceback plat i (fresh_record m kw (wd_now w)) FAILED e
      (add_event (log_event i (LTaskError e)) w1) =
      Some (Inr (with_traceback plat FAILED e (wd_now w2) (fresh_record m kw (wd_now w))), w3)"
    and c: "wd_db w3 = (wd_db w2)\<lparr>db_records := record_update i (with_traceback plat FAILED e (wd_now w2)) (wd_records w2)\<rparr>"
      "wd_log_id w3 = Some i" "sends w3 = sends w1"
    by (rule late_finish [OF assms(3,4,5,9), where s = FAILED and x = "add_event (log_event i (LTaskError e)) w1"]) blast+
  let ?l = "LFailed (duration (with_traceback plat FAILED e (wd_now w2) (fresh_record m kw (wd_now w))))"
  have "\<not> isinstance_any e (effective_retry_on wr)"
    using assms(6-8) by (simp add: retryable_def)
  then show ?thesis
    unfolding execute_immediately_late [OF assms(1,2,4)] handle_error_def
    using assms(6,8) late_failure_facts(3) [OF assms(3,4)] w3 c
    by (intro exI [of _ "(add_event (log_event i ?l) w3)\<lparr>wd_log_id := None\<rparr>"]) (auto simp: eff_simps task_log_at)
qed

section \<open>A lock that has expired\<close>

text \<open>C14. A committed task that is run again.  When the code of a task returned and its changes were
  committed, but the error that comes after it is one the task retries (for a singleton task, that the
  lock it gives back is no longer its own), the changes stand, the record is RETRIED, and the next
  attempt is sent behind the messages of the first: the task is executed once more.\<close>

theorem late_error_repeats_committed_task:
  assumes "attempts plat m i w wr soft hard kw" and "idle w" and "queue_mode (p_settings plat)"
    and "late_failure (Suc n) plat m i w wr soft hard kw e w2 w1" and "record_lookup (wd_records w2) i = Some row"
    and "retryable wr e"
    and "MAX_RETRIES (p_settings plat) = Inr max_retries" and "msg_n_retries m < max_retries"
    and "QUEUES (p_settings plat) = Inr queues"
    and "map_of queues (w_queue wr) = Some (SQSQueueConfig url)"
    and "message_to_json (p_to_json plat) (m\<lparr>msg_n_retries := msg_n_retries m + 1\<rparr>) = Inr body"
    and "\<forall>tr u b d. p_sqs_send plat tr u b d = None" and "\<forall>r. p_save_error plat r = None"
  shows "\<exists>w'. execute_immediately (Suc (Suc n)) plat m i w = Some (Inr (), w') \<and>
    wd_db w' = (wd_db w2)\<lparr>db_records := record_update i (with_traceback plat RETRIED e (wd_now w2)) (wd_records w2)\<rparr> \<and>
    sends w' = sends w1 @ [SQSSend url body (retry_delay_of wr (p_uniform plat (wd_draws w)))]"
proof -
  have ne: "\<not> EAGER (p_settings plat)" using assms(3) by (simp add: queue_mode_def)
  obtain w3 where w3: "finish_with_traceback plat i (fresh_record m kw (wd_now w)) RETRIED e w1 =
      Some (Inr (with_traceback plat RETRIED e (wd_now w2) (fresh_record m kw (wd_now w))), w3)"
    and c: "wd_db w3 = (wd_db w2)\<lparr>db_records := record_update i (with_traceback plat RETRIED e (wd_now w2)) (wd_records w2)\<rparr>"
      "idle w3" "wd_log_id w3 = Some i" "sends w3 = sends w1" "wd_draws w3 = wd_draws w"
    by (rule late_finish [OF ne assms(4,5,13), where s = RETRIED and x = w1]) blast+
  let ?l = "LRetrying (cls_name (exn_cls e)) (duration (with_traceback plat RETRIED e (wd_now w2) (fresh_record m kw (wd_now w))))"
  let ?w4 = "(add_event (log_event i ?l) w3)\<lparr>wd_draws := Suc (wd_draws w)\<rparr>"
  let ?ev = "SQSSend url body (retry_delay_of wr (p_uniform plat (wd_draws w)))"
  have "handle_error (execute_task (Suc n) plat) plat m i wr (fresh_record m kw (wd_now w)) e w1 = Some (Inr (), add_event ?ev ?w4)"
    using assms(7,8,12) w3 c retry_sent [OF assms(3,9-11)]
    by (simp add: handle_error_retryable [OF assms(6)] handle_retry_def eff_simps task_log_at uniform_def on_commit_def
        idle_def del: execute_task.simps)
  then show ?thesis
    unfolding execute_immediately_late [OF assms(1,2,4)] using c(1,4)
    by (intro exI [of _ "(add_event ?ev ?w4)\<lparr>wd_log_id := None\<rparr>"]) (simp add: sends_def is_send_def log_event_def)
qed

text \<open>A failure that is recorded as a success.  When the code of a singleton task that is not to be
  retried raises, or is stopped by the hard limit, and the lock is no longer its own when it is given
  back, everything the task did is rolled back, but the record is SUCCEEDED: the error of the lock has
  taken the place of the task's, and is ignored as if another instance were running.\<close>

lemma lost_lock_hides_failure:
  assumes "attempts plat m i w wr soft hard kw" and "idle w"
    and "w_singleton wr" and "\<not> w_retry_singleton wr"
    and "lock_refused plat (lock_of plat wr m hard) (begun i m kw w) = None"
    and "run_code n plat m i w wr soft hard kw = Some (Inl e, w2)"
    and "lock_lost plat (lock_of plat wr m hard) w2 = Some l" and "isinstance l LockError_cls"
    and "\<forall>r. p_save_error plat r = None"
  shows "\<exists>w'. execute_immediately (Suc n) plat m i w = Some (Inr (), w') \<and>
    concluded plat m i kw w SUCCEEDED l w' \<and> wd_now w' = wd_now w2"
proof -
  let ?r = "fresh_record m kw (wd_now w)"
  let ?w1 = "lock_released (lock_of plat wr m hard) ((task_end plat (begun i m kw w) w2)\<lparr>wd_db := wd_db (begun i m kw w)\<rparr>)"
  have f: "failed_call n plat m i w wr soft hard kw = Some (l, ?w1)"
    using assms(5-7) by (simp add: failed_call_def block_error_def Let_def)
  obtain w3 where w3: "finish_with_traceback plat i ?r SUCCEEDED l ?w1 =
      Some (Inr (with_traceback plat SUCCEEDED l (wd_now ?w1) ?r), w3)"
    and c: "concluded plat m i kw w SUCCEEDED l w3" and g: "wd_log_id w3 = Some i" and t: "wd_now w3 = wd_now ?w1"
    by (rule finish_concluded [OF assms(1,2) f spec [OF assms(9)], where s = SUCCEEDED and ?w2.0 = ?w1]) blast+
  let ?l = "LSucceededIgnored (cls_name (exn_cls l)) (duration (with_traceback plat SUCCEEDED l (wd_now ?w1) ?r))"
  have "is_Exception l" using assms(8) by (rule LockError_is_Exception)
  then have "execute_immediately (Suc n) plat m i w = Some (Inr (), (add_event (log_event i ?l) w3)\<lparr>wd_log_id := None\<rparr>)"
    unfolding execute_immediately_failed [OF assms(1,2) f] handle_error_def
    using assms(3,4,8) w3 g by (simp add: eff_simps task_log_at)
  then show ?thesis
    using concluded_log [OF c, of i ?l] t by simp
qed

section \<open>Instances\<close>

text \<open>A queue that refuses the message the task enqueued.\<close>

theorem failed_send_fails_committed_task_witness:
  "\<exists>w'. execute_immediately 2 refusing_platform (sample_msg ''app.tasks.order'' [] 0) ''id'' sample_world = Some (Inr (), w') \<and>
    db_rows (wd_db w') = 1 \<and> map_option tr_status (record_lookup (wd_records w') ''id'') = Some FAILED"
proof -
  let ?m = "sample_msg ''app.tasks.order'' [] 0" and ?wr = "sample_wrapper ''app.tasks.order''" and ?e = "value_error ''throttled'' []"
  let ?c = "run_code (Suc 0) refusing_platform ?m ''id'' sample_world ?wr 270 300 []"
  let ?w2 = "snd (the ?c)"
  let ?h = "eff_each (execute_task (Suc 0) refusing_platform) (wd_hooks ?w2) (task_end refusing_platform (begun ''id'' ?m [] sample_world) ?w2)"
  have "attempts sample_platform ?m ''id'' sample_world ?wr 270 300 []"
    by (rule sample_ready_attempts) code_simp
  then have a: "attempts refusing_platform ?m ''id'' sample_world ?wr 270 300 []"
    by (simp add: attempts_def resolves_def resolve_wrapper_def refusing_platform_def)
  have c: "lock_refused refusing_platform (lock_of refusing_platform ?wr ?m 300) (begun ''id'' ?m [] sample_world) = None"
    "?c = Some (Inr (PInt 7), ?w2)" "p_commit_error refusing_platform (wd_trace ?w2) (wd_db ?w2) = None"
    "?h = Some (Inl ?e, snd (the ?h))"
    "lock_outcome (lock_lost refusing_platform (lock_of refusing_platform ?wr ?m 300) (snd (the ?h))) (Inl ?e :: unit res) = Inl ?e"
    by code_simp+
  then have f: "late_failure (Suc 0) refusing_platform ?m ''id'' sample_world ?wr 270 300 [] ?e ?w2
      (lock_released (lock_of refusing_platform ?wr ?m 300) (snd (the ?h)))"
    unfolding late_failure_def Let_def by blast
  have h: "idle sample_world" "\<not> EAGER (p_settings refusing_platform)"
    "record_lookup (wd_records ?w2) ''id'' = Some (fresh_record ?m [] 1000)"
    "is_Exception ?e" "\<not> retryable ?wr ?e" "\<not> (w_singleton ?wr \<and> \<not> w_retry_singleton ?wr \<and> isinstance ?e LockError_cls)"
    "db_rows (wd_db ?w2) = 1"
    by code_simp+
  have s: "\<forall>r. p_save_error refusing_platform r = None" by (simp add: refusing_platform_def sample_platform_def)
  show ?thesis
    using failed_send_fails_committed_task [OF a h(1,2) f h(3-6) s] h(3,7)
    by (auto simp: record_lookup_update with_traceback_def numeral_2_eq_2 simp del: execute_immediately.simps)
qed

text \<open>Two singleton tasks that catch the soft limit and go on to the hard one, with which their lock expires:
  the first catches that one too and returns, the second is stopped by it.\<close>

definition lock_expired :: exn where
  "lock_expired = Exn (Cls ''LockNotOwnedError'' [LockError_cls]) ''Cannot release a lock that is no longer owned'' []"

definition expiring_lock :: "event list \<Rightarrow> string \<Rightarrow> exn option" where
  "expiring_lock tr key =
     (if list_ex (\<lambda>ev. case ev of AlarmRaised e t \<Rightarrow> cls_name (exn_cls e) = ''HardTimeLimitExceeded'' | _ \<Rightarrow> False) tr
      then Some lock_expired else None)"

definition long_fn :: "string \<Rightarrow> (exn \<Rightarrow> nat prog) \<Rightarrow> nat pyfun" where
  "long_fn name h = sample_fn name (add_row (Work 1000 (Return PNone) (\<lambda>_. Work 1000 (Return PNone) h)))"

definition long_wrapper :: "string \<Rightarrow> (exn \<Rightarrow> nat prog) \<Rightarrow> bool \<Rightarrow> nat wrapper" where
  "long_wrapper name h retry =
     projr (LambdaTaskWrapper (long_fn name h) (default_options\<lparr>opt_singleton := True, opt_retry_singleton := retry\<rparr>))"

definition expiring_platform :: "nat wrapper \<Rightarrow> nat platform" where
  "expiring_platform wr = sample_platform
     \<lparr>p_import_string := (\<lambda>name. Inr (ImpWrapper wr)), p_to_json := (\<lambda>v. Inr ''next attempt''), p_lock_exit := expiring_lock\<rparr>"

lemma expiring_attempts:
  assumes "resolved_timeouts sample_settings wr = Inr (270, 300)"
  shows "attempts (expiring_platform wr) (sample_msg name [] 0) ''id'' sample_world wr 270 300 []"
  using assms
  by (simp add: attempts_def resolves_def resolve_wrapper_def expiring_platform_def sample_platform_def sample_msg_def
      sample_world_def record_lookup_def)

lemma expiring_services:
  "\<forall>r. p_save_error (expiring_platform wr) r = None" "\<forall>tr u b d. p_sqs_send (expiring_platform wr) tr u b d = None"
  by (simp_all add: expiring_platform_def sample_platform_def)

theorem late_error_repeats_committed_task_witness:
  "\<exists>w'. execute_immediately 2 (expiring_platform (long_wrapper ''tally'' (\<lambda>_. Return (PInt 1)) True))
      (sample_msg ''tally'' [] 0) ''id'' sample_world = Some (Inr (), w') \<and>
    db_rows (wd_db w') = 1 \<and> map_option tr_status (record_lookup (wd_records w') ''id'') = Some RETRIED \<and>
    sends w' = [SQSSend ''https://sqs.localhost/default'' ''next attempt'' 3]"
proof -
  let ?wr = "long_wrapper ''tally'' (\<lambda>_. Return (PInt 1)) True" and ?m = "sample_msg ''tally'' [] 0"
  let ?p = "expiring_platform ?wr"
  let ?c = "run_code (Suc 0) ?p ?m ''id'' sample_world ?wr 270 300 []"
  let ?w2 = "snd (the ?c)"
  let ?h = "eff_each (execute_task (Suc 0) ?p) (wd_hooks ?w2) (task_end ?p (begun ''id'' ?m [] sample_world) ?w2)"
  let ?qs = "projr (QUEUES (p_settings ?p))"
  have a: "attempts ?p ?m ''id'' sample_world ?wr 270 300 []" by (rule expiring_attempts) code_simp
  have c: "lock_refused ?p (lock_of ?p ?wr ?m 300) (begun ''id'' ?m [] sample_world) = None"
    "?c = Some (Inr (PInt 1), ?w2)" "p_commit_error ?p (wd_trace ?w2) (wd_db ?w2) = None"
    "?h = Some (Inr (), snd (the ?h))"
    "lock_outcome (lock_lost ?p (lock_of ?p ?wr ?m 300) (snd (the ?h))) (Inr () :: unit res) = Inl lock_expired"
    by code_simp+
  let ?w1 = "lock_released (lock_of ?p ?wr ?m 300) (snd (the ?h))"
  from c have f: "late_failure (Suc 0) ?p ?m ''id'' sample_world ?wr 270 300 [] lock_expired ?w2 ?w1"
    unfolding late_failure_def Let_def by blast
  have h: "idle sample_world" "queue_mode (p_settings ?p)" "record_lookup (wd_records ?w2) ''id'' = Some (fresh_record ?m [] 1000)"
    "retryable ?wr lock_expired" "MAX_RETRIES (p_settings ?p) = Inr 2" "msg_n_retries ?m < 2" "QUEUES (p_settings ?p) = Inr ?qs"
    "map_of ?qs (w_queue ?wr) = Some (SQSQueueConfig ''https://sqs.localhost/default'')"
    "message_to_json (p_to_json ?p) (?m\<lparr>msg_n_retries := msg_n_retries ?m + 1\<rparr>) = Inr ''next attempt''"
    "retry_delay_of ?wr (p_uniform ?p (wd_draws sample_world)) = 3" "db_rows (wd_db ?w2) = 1" "sends ?w1 = []"
    by code_simp+
  show ?thesis
    using late_error_repeats_committed_task [OF a h(1,2) f h(3-9) expiring_services(2,1)] h(3,11)
    unfolding h(10,12)
    by (auto simp: record_lookup_update with_traceback_def numeral_2_eq_2 simp del: execute_immediately.simps)
qed

lemma lost_lock_hides_failure_witness:
  "\<exists>w'. execute_immediately 1 (expiring_platform (long_wrapper ''runaway'' Raise False))
      (sample_msg ''runaway'' [] 0) ''id'' sample_world = Some (Inr (), w') \<and>
    db_rows (wd_db w') = 0 \<and> map_option tr_status (record_lookup (wd_records w') ''id'') = Some SUCCEEDED \<and> wd_now w' = 1300"
proof -
  let ?wr = "long_wrapper ''runaway'' Raise False" and ?m = "sample_msg ''runaway'' [] 0"
  let ?p = "expiring_platform ?wr"
  let ?c = "run_code 0 ?p ?m ''id'' sample_world ?wr 270 300 []"
  let ?w2 = "snd (the ?c)"
  have a: "attempts ?p ?m ''id'' sample_world ?wr 270 300 []" by (rule expiring_attempts) code_simp
  have c: "idle sample_world" "w_singleton ?wr" "\<not> w_retry_singleton ?wr"
    "lock_refused ?p (lock_of ?p ?wr ?m 300) (begun ''id'' ?m [] sample_world) = None"
    "?c = Some (Inl HardTimeLimitExceeded, ?w2)"
    "lock_lost ?p (lock_of ?p ?wr ?m 300) ?w2 = Some lock_expired" "isinstance lock_expired LockError_cls"
    "wd_now ?w2 = 1300" "db_rows (wd_db sample_world) = 0"
    "record_lookup (wd_records sample_world) ''id'' = None"
    by code_simp+
  show ?thesis
    using lost_lock_hides_failure [OF a c(1-7) expiring_services(1)] c(9,10) unfolding c(8)
    by (auto simp: concluded_def record_lookup_insert with_traceback_def simp del: execute_immediately.simps)
qed

end
