(* ===== verification/Singleton_Overlap.thy ===== *)
theory Singleton_Overlap
  imports Late_Errors
begin

text \<open>
  What a singleton task is for: its runs do not overlap in time, whatever worker they are on.  The lock
  service is a parameter; what the task relies on is what Redis documents, that a lock which was taken
  is not given to another before it is given back or its timeout has passed.  Since the timeout is the
  hard limit, the runs are kept apart as long as the code of the task lets the limits through.
\<close>

text \<open>An execution of the task that got the lock, up to the state in which the lock has been given back.\<close>

record 'd singleton_run =
  sr_message :: sqs_message
  sr_id :: string
  sr_kwargs :: kwargs
  sr_before :: "'d world"
  sr_after :: "'d world"

definition holds_lock :: "nat \<Rightarrow> 'd platform \<Rightarrow> 'd wrapper \<Rightarrow> int \<Rightarrow> int \<Rightarrow> 'd singleton_run \<Rightarrow> bool" where
  "holds_lock n plat wr soft hard r \<longleftrightarrow>
     (let m = sr_message r; w0 = begun (sr_id r) m (sr_kwargs r) (sr_before r); lock = lock_of plat wr m hard in
      idle (sr_before r) \<and> lock_refused plat lock w0 = None \<and>
      (\<exists>out. guarded_call (execute_task n plat) plat wr (msg_kwargs m) lock soft hard w0 = Some (out, sr_after r)))"

definition taken_at :: "'d singleton_run \<Rightarrow> int" where
  "taken_at r = wd_now (sr_before r)"

definition given_back_at :: "'d singleton_run \<Rightarrow> int" where
  "given_back_at r = wd_now (sr_after r)"

text \<open>The timeout with which the lock is constructed.\<close>

definition lock_timeout :: "'d platform \<Rightarrow> 'd wrapper \<Rightarrow> int \<Rightarrow> 'd singleton_run \<Rightarrow> int" where
  "lock_timeout plat wr hard r =
     (case singleton_lock plat wr (msg_task_name (sr_message r)) hard (sr_before r) of
        Some (Inr (Some (cache, key, timeout)), w) \<Rightarrow> timeout
      | _ \<Rightarrow> 0)"

text \<open>The law of the lock service, for the runs of one task.\<close>

definition lock_excludes :: "'d platform \<Rightarrow> 'd wrapper \<Rightarrow> int \<Rightarrow> 'd singleton_run list \<Rightarrow> bool" where
  "lock_excludes plat wr hard rs \<longleftrightarrow>
     (\<forall>i < length rs. \<forall>j < length rs. i \<noteq> j \<longrightarrow> taken_at (rs ! i) \<le> taken_at (rs ! j) \<longrightarrow>
        given_back_at (rs ! i) \<le> taken_at (rs ! j) \<or>
        taken_at (rs ! i) + lock_timeout plat wr hard (rs ! i) \<le> taken_at (rs ! j))"

lemma lock_timeout_is_hard:
  "w_singleton wr \<Longrightarrow> \<forall>c k. p_cache_lock plat c k = None \<Longrightarrow> lock_timeout plat wr hard r = hard"
  by (simp add: lock_timeout_def singleton_lock_def eff_simps Let_def)

text \<open>The lock is held for no longer than the soft limit.\<close>

lemma lock_held_until_soft_limit:
  assumes ne: "\<not> EAGER (p_settings plat)" and "wrapper_ok wr"
    and "resolved_timeouts (p_settings plat) wr = Inr (soft, hard)"
    and "catches_nothing (fn_code (w_func wr) (msg_kwargs (sr_message r)))"
    and h: "holds_lock n plat wr soft hard r"
  shows "given_back_at r \<le> taken_at r + soft" and "soft < hard"
proof -
  let ?m = "sr_message r" and ?w = "sr_before r"
  let ?begun = "begun (sr_id r) ?m (sr_kwargs r) ?w" and ?lock = "lock_of plat wr (sr_message r) hard"
  obtain out where i: "idle ?begun" and free: "lock_refused plat ?lock ?begun = None"
    and g: "guarded_call (execute_task n plat) plat wr (msg_kwargs ?m) ?lock soft hard ?begun = Some (out, sr_after r)"
    using h by (auto simp: holds_lock_def Let_def)
  note limit = run_code_soft_limit [OF assms(1-4), of n "sr_id r" ?w "sr_kwargs r", unfolded run_code_def]
  have "wd_now (sr_after r) \<le> wd_now ?w + soft \<and> soft < hard"
    using i g
  proof (cases rule: guarded_call_cases)
    case (Refused e)
    with free show ?thesis by simp
  next
    case (RolledBack x e w2 w3)
    then show ?thesis using limit(1,3) [OF RolledBack(2)] by auto
  next
    case (Committed v w2 rh w3)
    have "eff_keeps sends_outside (eff_each (execute_task n plat) (wd_hooks w2))"
      by (rule outside.keeps_each) (auto simp: eff_keeps_def sends_outside_def dest: execute_task_sends [OF ne])
    then have "sends_only (task_end plat ?begun w2) w3"
      using Committed(4) by (auto simp: sends_outside_def dest: eff_keepsD)
    then have "wd_now w3 = wd_now w2" by (simp add: sends_only_simps)
    then show ?thesis using limit(1,3) [OF Committed(2)] Committed(5) by auto
  qed
  then show "given_back_at r \<le> taken_at r + soft" "soft < hard"
    by (simp_all add: given_back_at_def taken_at_def)
qed


text \<open>Two workers run the report of the sample, one at 1000 and one at 1500.\<close>

definition report_run :: "int \<Rightarrow> string \<Rightarrow> nat singleton_run" where
  "report_run t i =
     (let m = sample_msg ''app.tasks.report'' [] 0; wr = sample_wrapper ''app.tasks.report''; w = sample_world\<lparr>wd_now := t\<rparr> in
      \<lparr>sr_message = m, sr_id = i, sr_kwargs = [], sr_before = w,
       sr_after = snd (the (guarded_call (execute_task 1 sample_platform) sample_platform wr [] (lock_of sample_platform wr m 300)
          270 300 (begun i m [] w)))\<rparr>)"


end
