(* ===== verification/Admin_Site.thy ===== *)
theory Admin_Site
  imports Admin_Props Migrations
begin

text \<open>
  What \<open>TaskRecordAdmin\<close> declares, against the table the migrations build: Django's admin shows, filters,
  searches and protects the fields these attributes name.
\<close>

record model_admin =
  ma_list_display :: "string list"
  ma_list_filter :: "string list"
  ma_date_hierarchy :: string
  ma_search_fields :: "string list"
  ma_readonly_fields :: "string list"
  ma_actions :: "string list"

definition TaskRecordAdmin :: model_admin where
  "TaskRecordAdmin =
     \<lparr>ma_list_display = [''pk'', ''task_name'', ''queue'', ''status'', ''start_time'', ''end_time'', ''n_retries'', ''duration'', ''result''],
      ma_list_filter = [''status'', ''task_name''],
      ma_date_hierarchy = ''start_time'',
      ma_search_fields = [''pk'', ''kwargs''],
      ma_readonly_fields = [''pk'', ''task_name'', ''kwargs'', ''n_retries'', ''status'', ''start_time'', ''end_time'', ''result'', ''traceback''],
      ma_actions = [''replay_tasks'']\<rparr>"

text \<open>The methods of the class that its attributes may name.\<close>

definition admin_methods :: "string list" where
  "admin_methods = [''queue'', ''duration'', ''replay_tasks'']"

text \<open>\<open>pk\<close> is the primary key, whatever its name.\<close>

definition resolve_field :: "column list \<Rightarrow> string \<Rightarrow> string option" where
  "resolve_field cols name =
     (case List.find (\<lambda>c. if name = ''pk'' then co_primary_key c else co_name c = name) cols of
        Some c \<Rightarrow> Some (co_name c) | None \<Rightarrow> None)"

text \<open>On PostgreSQL \<open>icontains\<close> compares the upper case of the field's text; an index serves it if it is a
  trigram index on just that expression.\<close>

definition search_is_indexed :: "index list \<Rightarrow> string \<Rightarrow> bool" where
  "search_is_indexed ixs f = list_ex (\<lambda>ix. ix_gin ix \<and> ix_expressions ix = [OpClass (Upper (CastText f)) ''gin_trgm_ops'']) ixs"

text \<open>On the table the migrations leave, every field the admin shows or filters by is a column or a method of the
  class, every column is read-only, so that no record can be edited by hand, and every search is served
  by an index.\<close>

lemma admin_fits_the_table:
  "\<exists>t cols. apply_ops all_migrations no_table = Inr t \<and> md_columns t = Some cols \<and>
     (\<forall>f \<in> set (ma_list_display TaskRecordAdmin). resolve_field cols f \<noteq> None \<or> f \<in> set admin_methods) \<and>
     (\<forall>f \<in> set (ma_list_filter TaskRecordAdmin). resolve_field cols f = Some f) \<and>
     col (ma_date_hierarchy TaskRecordAdmin) DateTimeField True \<in> set cols \<and>
     map Some (map co_name cols) = map (resolve_field cols) (ma_readonly_fields TaskRecordAdmin) \<and>
     (\<forall>f \<in> set (ma_search_fields TaskRecordAdmin). \<exists>c. resolve_field cols f = Some c \<and> search_is_indexed (md_indexes t) c) \<and>
     set (ma_actions TaskRecordAdmin) \<subseteq> set admin_methods"
proof -
  let ?t = "projr (apply_ops all_migrations no_table)"
  let ?cols = "the (md_columns ?t)"
  have t: "\<not> isl (apply_ops all_migrations no_table)" "md_columns ?t = Some ?cols"
    "list_all (\<lambda>f. resolve_field ?cols f \<noteq> None \<or> f \<in> set admin_methods) (ma_list_display TaskRecordAdmin)"
    "list_all (\<lambda>f. resolve_field ?cols f = Some f) (ma_list_filter TaskRecordAdmin)"
    "col (ma_date_hierarchy TaskRecordAdmin) DateTimeField True \<in> set ?cols"
    "map Some (map co_name ?cols) = map (resolve_field ?cols) (ma_readonly_fields TaskRecordAdmin)"
    "list_all (\<lambda>f. case resolve_field ?cols f of None \<Rightarrow> False | Some c \<Rightarrow> search_is_indexed (md_indexes ?t) c)
       (ma_search_fields TaskRecordAdmin)"
    "set (ma_actions TaskRecordAdmin) \<subseteq> set admin_methods"
    by code_simp+
  have "\<exists>c. resolve_field ?cols f = Some c \<and> search_is_indexed (md_indexes ?t) c" if "f \<in> set (ma_search_fields TaskRecordAdmin)" for f
    using t(7) that by (auto simp: list_all_iff split: option.split_asm)
  moreover have "apply_ops all_migrations no_table = Inr ?t"
    using t(1) by (rule sum.collapse(2) [symmetric])
  ultimately show ?thesis
    using t by (intro exI [of _ ?t] exI [of _ ?cols]) (simp add: list_all_iff)
qed

end
