(* ===== verification/Example_Project.thy ===== *)
theory Example_Project
  imports Dispatch Executor_Props
begin

text \<open>
  The project under \<open>example/\<close>, from the request to the worker process: the view enqueues \<open>greet\<close>, the
  development settings send it to the process pool, and the worker executes it.  The task and the
  settings are in \<open>Sample\<close>.
\<close>

section \<open>The view\<close>

text \<open>\<open>request.GET.get(key, default)\<close>: the last value of the key in the query string.\<close>

definition query_get :: "(string \<times> string) list \<Rightarrow> string \<Rightarrow> string \<Rightarrow> string" where
  "query_get params key d = (case map_of (rev params) key of None \<Rightarrow> d | Some v \<Rightarrow> v)"

text \<open>\<open>trigger\<close>: the content of the response.\<close>

definition trigger :: "nat \<Rightarrow> nat platform \<Rightarrow> nat wrapper \<Rightarrow> (string \<times> string) list \<Rightarrow> (nat world, string) eff" where
  "trigger n plat wr params =
     (let name = query_get params ''name'' ''world'' in
      eff_seq (wrapper_execute_on_commit n plat wr [(''name'', PStr name)])
        (eff_ret (''Task triggered for: '' @ name)))"

section \<open>The task\<close>

definition greet_wrapper :: "nat wrapper" where
  "greet_wrapper = projr greet"

lemma greet_wrapper: "greet = Inr greet_wrapper"
proof -
  have "\<not> isl (greet)" by code_simp
  then show ?thesis by (simp add: greet_wrapper_def)
qed

lemma greet_wrapper_fields:
  "w_func greet_wrapper = greet_fn" "w_queue greet_wrapper = ''default''" "\<not> w_singleton greet_wrapper"
  "resolved_timeouts example_settings greet_wrapper = Inr (270, 300)"
proof -
  show "w_func greet_wrapper = greet_fn"
    using LambdaTaskWrapper_ok [of greet_fn default_options greet_wrapper] greet_wrapper by (simp add: greet_def)
  show "w_queue greet_wrapper = ''default''" "\<not> w_singleton greet_wrapper"
    "resolved_timeouts example_settings greet_wrapper = Inr (270, 300)" by code_simp+
qed

lemma greet_kwargs_valid:
  assumes "type_ok (Some ''str'') (PStr name)"
  shows "kwargs_model_validate type_ok (w_kwargs_model greet_wrapper) [(''name'', PStr name)] = Inr ()"
proof -
  have "w_kwargs_model greet_wrapper = build_kwargs_model greet_fn"
    using LambdaTaskWrapper_ok [of greet_fn default_options greet_wrapper] greet_wrapper by (simp add: greet_def wrapper_ok_def)
  moreover have "build_kwargs_model greet_fn = [\<lparr>fd_name = ''name'', fd_annot = Some ''str'', fd_default = None\<rparr>]"
    by code_simp
  ultimately show ?thesis using assms by (simp add: kwargs_model_validate_def res_check_def)
qed

text \<open>While the alarm is far enough away, the loop only lets time pass.\<close>

lemma greet_loop_at:
  "k < alarm_left (wd_signals w) \<Longrightarrow> run_prog plat execute (greet_loop k p) w =
   run_prog plat execute p (w\<lparr>wd_now := wd_now w + int k,
     wd_signals := (wd_signals w)\<lparr>alarm_left := alarm_left (wd_signals w) - k\<rparr>\<rparr>)"
proof (induction k arbitrary: w)
  case (Suc k)
  then show ?case by (simp add: work_quiet algebra_simps)
qed simp

section \<open>The development server\<close>

definition greet_message :: "string \<Rightarrow> sqs_message" where
  "greet_message name = \<lparr>msg_task_name = ''example_app.tasks.greet'', msg_kwargs = [(''name'', PStr name)], msg_n_retries = 0\<rparr>"

text \<open>The settings of the example, its task, a text that carries the message, and services that answer.\<close>

definition development :: "nat platform \<Rightarrow> string \<Rightarrow> string \<Rightarrow> bool" where
  "development plat name body \<longleftrightarrow>
     p_settings plat = example_settings \<and>
     p_import_string plat ''example_app.tasks.greet'' = Inr (ImpWrapper greet_wrapper) \<and>
     p_type_ok plat (Some ''str'') (PStr name) \<and> p_lax_int plat (PInt 0) = Inr 0 \<and>
     p_to_jsonable plat [(''name'', PStr name)] = Inr [(''name'', PStr name)] \<and>
     message_to_json (p_to_json plat) (greet_message name) = Inr body \<and>
     message_from_json (p_from_json plat) (p_lax_int plat) body = Inr (greet_message name) \<and>
     (\<forall>i r. p_create_error plat i r = None) \<and> (\<forall>r. p_save_error plat r = None) \<and>
     (\<forall>tr s i. p_pool_submit plat tr s i = None) \<and> (\<forall>tr k. p_lock_exit plat tr k = None) \<and>
     (\<forall>tr db. p_commit_error plat tr db = None)"

lemma greet_task_built:
  assumes "development plat name body"
  shows "build_task (p_type_ok plat) (p_lax_int plat) greet_wrapper [(''name'', PStr name)] =
    Inr \<lparr>tk_message = greet_message name, tk_delay = 0, tk_queue = ''default''\<rparr>"
proof -
  have "fn_module greet_fn @ ''.'' @ fn_qualname greet_fn = ''example_app.tasks.greet''" by code_simp
  moreover have "delay_outside (PInt 0) = Inr False" by code_simp
  ultimately show ?thesis
    using assms greet_kwargs_valid [of "p_type_ok plat" name]
    by (simp add: build_task_def development_def kwargs_pop_def validate_delay_def res_check_def
        greet_wrapper_fields SQSLambdaTaskMessage_validate_def greet_message_def)
qed

lemma greet_submitted:
  assumes d: "development plat name body" and "wd_frames w = []"
  shows "\<exists>w'. wrapper_execute_on_commit (Suc n) plat greet_wrapper [(''name'', PStr name)] w = Some (Inr (), w') \<and>
    sends w' = sends w @ [PoolSubmit body (p_uuid4 plat (wd_uuids w))] \<and> wd_pool w' \<noteq> None"
proof -
  have "NOOP_EXECUTION example_settings = Inr False" "LOCAL_WORKERS example_settings = Inr 2" by code_simp+
  then have s: "NOOP_EXECUTION (p_settings plat) = Inr False" "LOCAL_WORKERS (p_settings plat) = Inr 2"
    using d by (simp_all add: development_def)
  show ?thesis
    using local_workers_use_one_pool [OF s, of "\<lparr>tk_message = greet_message name, tk_delay = 0, tk_queue = ''default''\<rparr>" body n w]
      greet_task_built [OF d] d assms(2)
    by (auto simp: wrapper_execute_on_commit_def execute_on_commit_def on_commit_def eff_simps development_def
        sends_def is_send_def simp del: execute_task.simps)
qed

lemma greet_code_runs:
  assumes d: "development plat name body"
  shows "\<exists>w2. run_code n plat (greet_message name) i w greet_wrapper 270 300 [(''name'', PStr name)] =
      Some (Inr (PStr (''Hello, '' @ name @ ''!'')), w2) \<and>
    wd_db w2 = wd_db (begun i (greet_message name) [(''name'', PStr name)] w) \<and> wd_hooks w2 = wd_hooks w \<and> wd_now w2 = wd_now w + 10"
proof -
  let ?m = "greet_message name" and ?kw = "[(''name'', PStr name)]"
  let ?w0 = "task_start plat (lock_of plat greet_wrapper ?m 300) 270 300 (begun i ?m ?kw w)"
  have "\<not> EAGER example_settings" by code_simp
  then have "\<not> EAGER (p_settings plat)" using d by (simp add: development_def)
  then have "10 < alarm_left (wd_signals ?w0)"
    by (simp add: task_start_def TimeoutContext_enter_non_eager)
  moreover have "wrapper_call (p_type_ok plat) greet_wrapper (msg_kwargs ?m) = greet_loop 10 (Return (PStr (''Hello, '' @ name @ ''!'')))"
    using d greet_kwargs_valid [of "p_type_ok plat" name]
    by (simp add: development_def greet_message_def wrapper_call_def call_function_def greet_wrapper_fields greet_fn_def)
  ultimately have "run_code n plat ?m i w greet_wrapper 270 300 ?kw = Some (Inr (PStr (''Hello, '' @ name @ ''!'')),
      ?w0\<lparr>wd_now := wd_now ?w0 + 10, wd_signals := (wd_signals ?w0)\<lparr>alarm_left := alarm_left (wd_signals ?w0) - 10\<rparr>\<rparr>)"
    by (simp add: run_code_def greet_loop_at eff_simps)
  then show ?thesis by simp
qed

lemma greet_executed:
  assumes d: "development plat name body" and "idle w" and i: "record_lookup (wd_records w) i = None"
  shows "\<exists>w'. execute_in_worker (Suc n) plat body i w = Some (Inr (), w') \<and>
    record_lookup (wd_records w') i = Some (with_result (PStr (''Hello, '' @ name @ ''!'')) (wd_now w + 10)
      (fresh_record (greet_message name) [(''name'', PStr name)] (wd_now w))) \<and> db_rows (wd_db w') = db_rows (wd_db w)"
proof -
  let ?m = "greet_message name" and ?kw = "[(''name'', PStr name)]"
  have a: "attempts plat ?m i w greet_wrapper 270 300 ?kw"
    using d i by (simp add: attempts_def resolves_def resolve_wrapper_def development_def greet_message_def greet_wrapper_fields)
  obtain w2 where c: "run_code n plat ?m i w greet_wrapper 270 300 ?kw = Some (Inr (PStr (''Hello, '' @ name @ ''!'')), w2)"
    and w2: "wd_db w2 = wd_db (begun i ?m ?kw w)" "wd_hooks w2 = []" "wd_now w2 = wd_now w + 10"
    using greet_code_runs [OF d, of n i w] assms(2) by (auto simp: idle_def)
  have l: "lock_refused plat (lock_of plat greet_wrapper ?m 300) (begun i ?m ?kw w) = None"
    by (simp add: lock_of_def lock_refused_def greet_wrapper_fields)
  have row: "record_lookup (wd_records w2) i = Some (fresh_record ?m ?kw (wd_now w))"
    using i by (simp add: w2(1) record_lookup_insert)
  have h: "eff_each (execute_task n plat) (wd_hooks w2) (task_end plat (begun i ?m ?kw w) w2) =
      Some (Inr (), (task_end plat (begun i ?m ?kw w) w2)\<lparr>wd_trace := wd_trace w2 @ []\<rparr>)"
    by (simp add: w2(2) eff_simps)
  have cm: "p_commit_error plat (wd_trace w2) (wd_db w2) = None" using d by (simp add: development_def)
  from committed_at [OF a assms(2) l c cm row h] d obtain w' where
    "execute_immediately (Suc n) plat ?m i w = Some (Inr (), w')"
    "wd_db w' = (wd_db w2)\<lparr>db_records := record_update i (with_result (PStr (''Hello, '' @ name @ ''!'')) (wd_now w2)) (wd_records w2)\<rparr>"
    by (auto simp: development_def)
  then show ?thesis
    using d row by (simp add: execute_in_worker_def eff_simps development_def record_lookup_update w2)
qed

text \<open>C29. The example, end to end.  Under the example's settings a request to the view, outside a
  transaction, answers at once with the name it was given (\<open>world\<close> without one) and has handed
  exactly one task to the process pool; the worker process that takes this task, with whatever
  database it finds, greets that name within ten seconds, leaves a SUCCEEDED record with the greeting
  under the id of the submission, and changes nothing else of the application.\<close>

theorem triggered_task_greets:
  assumes "development plat name body" and "name = query_get params ''name'' ''world''"
    and "wd_frames w = []" and "idle wk" and "record_lookup (wd_records wk) (p_uuid4 plat (wd_uuids w)) = None"
  shows "\<exists>w' wk'. trigger (Suc n) plat greet_wrapper params w = Some (Inr (''Task triggered for: '' @ name), w') \<and>
    sends w' = sends w @ [PoolSubmit body (p_uuid4 plat (wd_uuids w))] \<and> wd_pool w' \<noteq> None \<and>
    execute_in_worker (Suc n) plat body (p_uuid4 plat (wd_uuids w)) wk = Some (Inr (), wk') \<and>
    record_lookup (wd_records wk') (p_uuid4 plat (wd_uuids w)) =
      Some (with_result (PStr (''Hello, '' @ name @ ''!'')) (wd_now wk + 10)
        (fresh_record (greet_message name) [(''name'', PStr name)] (wd_now wk))) \<and>
    db_rows (wd_db wk') = db_rows (wd_db wk)"
  using greet_submitted [OF assms(1,3), of n] greet_executed [OF assms(1,4,5), of n] assms(2)
  by (auto simp: trigger_def eff_simps Let_def)

theorem triggered_task_greets_witness:
  "\<exists>w' wk'. trigger (Suc 0) (sample_platform\<lparr>p_settings := example_settings\<rparr>) greet_wrapper [(''name'', ''Ada'')] sample_world =
      Some (Inr ''Task triggered for: Ada'', w') \<and> sends w' = [PoolSubmit ''text of greet'' ''u''] \<and>
    execute_in_worker (Suc 0) (sample_platform\<lparr>p_settings := example_settings\<rparr>) ''text of greet'' ''u'' sample_world = Some (Inr (), wk') \<and>
    map_option tr_result (record_lookup (wd_records wk') ''u'') = Some (PStr ''Hello, Ada!'')"
proof -
  let ?p = "sample_platform\<lparr>p_settings := example_settings\<rparr>"
  have "message_to_json (p_to_json ?p) (greet_message ''Ada'') = Inr ''text of greet''"
    "message_from_json (p_from_json ?p) (p_lax_int ?p) ''text of greet'' = Inr (greet_message ''Ada'')"
    "p_type_ok ?p (Some ''str'') (PStr ''Ada'')" "p_lax_int ?p (PInt 0) = Inr 0"
    "p_to_jsonable ?p [(''name'', PStr ''Ada'')] = Inr [(''name'', PStr ''Ada'')]"
    by code_simp+
  moreover have "p_import_string ?p ''example_app.tasks.greet'' = Inr (ImpWrapper greet_wrapper)"
    by (simp add: sample_platform_def sample_import_def greet_wrapper)
  ultimately have d: "development ?p ''Ada'' ''text of greet''"
    by (simp add: development_def) (simp add: sample_platform_def)
  have w: "wd_frames sample_world = []" "idle sample_world"
    "record_lookup (wd_records sample_world) (p_uuid4 ?p (wd_uuids sample_world)) = None"
    "''Ada'' = query_get [(''name'', ''Ada'')] ''name'' ''world''" "p_uuid4 ?p (wd_uuids sample_world) = ''u''" "sends sample_world = []"
    by code_simp+
  show ?thesis
    using triggered_task_greets [OF d w(4,1,2,3), of 0] unfolding w(5,6) by (fastforce simp: with_result_def)
qed

end
