(* ===== verification/Steady_Tasks.thy ===== *)
theory Steady_Tasks
  imports Handler_Props
begin

text \<open>
  The effect of one delivery when the task is steady: its code neither enqueues other tasks nor writes
  to the table of task records.  Then an execution adds the record of its own id and no other, and
  sends nothing, or exactly the next attempt.
\<close>

primrec steady :: "'d prog \<Rightarrow> bool" where
  "steady (Return v) \<longleftrightarrow> True"
| "steady (Raise e) \<longleftrightarrow> True"
| "steady (Work n k h) \<longleftrightarrow> steady k \<and> (\<forall>e. steady (h e))"
| "steady (Query upd k) \<longleftrightarrow>
     (\<forall>now db. db_records (upd now db) = db_records db) \<and> (\<forall>now db. steady (k now db))"
| "steady (Enqueue t k) \<longleftrightarrow> False"
| "steady (Submit job k) \<longleftrightarrow> (\<forall>r. steady (k r))"

definition record_ids :: "'d world \<Rightarrow> string set" where
  "record_ids w = dom (record_lookup (wd_records w))"

text \<open>The parts a steady task leaves alone.\<close>

definition untouched :: "'d world \<Rightarrow> 'd world \<Rightarrow> bool" where
  "untouched w w' \<longleftrightarrow> wd_records w' = wd_records w \<and> wd_hooks w' = wd_hooks w"

interpretation steady_code: task_code untouched steady
  by unfold_locales (simp_all add: untouched_def add_event_def)

text \<open>Between two states of an execution after its record is there, under the id \<open>i\<close>: the same ids, every
  other record as it was, nothing sent, no block opened.\<close>

definition others_same :: "string \<Rightarrow> 'd world \<Rightarrow> 'd world \<Rightarrow> bool" where
  "others_same i w w' \<longleftrightarrow> (\<forall>j. j \<noteq> i \<longrightarrow> record_lookup (wd_records w') j = record_lookup (wd_records w) j)"

definition same_ids :: "string \<Rightarrow> 'd world \<Rightarrow> 'd world \<Rightarrow> bool" where
  "same_ids i w w' \<longleftrightarrow> record_ids w' = record_ids w \<and> others_same i w w' \<and> sends w' = sends w \<and> wd_frames w' = wd_frames w"

lemma others_same_trans: "others_same i w1 w2 \<Longrightarrow> others_same i w2 w3 \<Longrightarrow> others_same i w1 w3"
  by (simp add: others_same_def)

lemma others_same_simps [simp]:
  "others_same i w w" "others_same i w (add_event ev w') = others_same i w w'"
  "others_same i w (w'\<lparr>wd_log_id := x\<rparr>) = others_same i w w'" "others_same i w (w'\<lparr>wd_draws := k\<rparr>) = others_same i w w'"
  "others_same i w (set_records (record_update i f (wd_records w)) w)"
  by (simp_all add: others_same_def record_lookup_update)

interpretation settled: eff_relation "same_ids i"
  by unfold_locales (auto simp: same_ids_def intro: others_same_trans)

lemma record_ids_simps [simp]:
  "record_ids (add_event ev w) = record_ids w" "record_ids (w\<lparr>wd_log_id := x\<rparr>) = record_ids w"
  "record_ids (set_records (record_update pk f (wd_records w)) w) = record_ids w"
  "record_ids (w\<lparr>wd_draws := k\<rparr>) = record_ids w"
  by (auto simp: record_ids_def record_lookup_update dom_def split: if_split_asm)

lemma same_ids_elementary:
  "eff_keeps (same_ids i) (task_log l)" "eff_keeps (same_ids i) (uniform plat)" "eff_keeps (same_ids i) (save_record plat i c r)"
  by (auto simp: eff_keeps_def same_ids_def task_log_Some uniform_def sends_def is_send_def save_record_def
      split: option.split_asm)

lemma same_ids_finish:
  "eff_keeps (same_ids i) (finish_with_traceback plat i r s e)" "eff_keeps (same_ids i) (finish_with_result plat i r v)"
  unfolding finish_with_traceback_def finish_with_result_def Let_def
  by (intro settled.keeps_bind settled.keeps_seq settled.keeps_pure same_ids_elementary)+

lemma guarded_call_steady:
  assumes "steady (wrapper_call (p_type_ok plat) wr kw)" and "idle w"
    and "guarded_call execute plat wr kw lock soft hard w = Some (out, w')"
  shows "wd_records w' = wd_records w \<and> sends w' = sends w \<and> wd_frames w' = []"
  using assms(2,3)
proof (cases rule: guarded_call_cases)
  case (Refused e)
  then show ?thesis
    using assms(2) by (auto simp: lock_acquired_def idle_def sends_def is_send_def split: option.split)
next
  case (RolledBack r e w2 w3)
  have "sends w2 = sends w"
    using quiet_sends [OF in_task_quiet [OF RolledBack(3)]]
    by (simp add: sends_def task_start_def lock_acquired_def is_send_def split: option.split)
  then show ?thesis
    using RolledBack(4,5)
    by (simp add: sends_def task_end_def lock_released_def is_send_def split: option.split)
next
  case (Committed v w2 rh w3)
  have s: "sends w2 = sends w"
    using quiet_sends [OF in_task_quiet [OF Committed(3)]]
    by (simp add: sends_def task_start_def lock_acquired_def is_send_def split: option.split)
  have u: "wd_records w2 = wd_records w" "wd_hooks w2 = []"
    using steady_code.run_keeps [OF assms(1) _ Committed(2)] assms(2)
    by (auto simp: untouched_def task_start_def idle_def lock_acquired_def split: option.split)
  then have "w3 = task_end plat w w2" using Committed(4) by (simp add: eff_simps)
  then show ?thesis
    using Committed(5) s u(1)
    by (auto simp: sends_def task_end_def lock_released_def is_send_def split: option.split)
qed

text \<open>What a retry sends.\<close>

definition next_attempt_sent :: "(string \<times> queue_config) list \<Rightarrow> 'd platform \<Rightarrow> 'd wrapper \<Rightarrow> sqs_message \<Rightarrow> event \<Rightarrow> bool" where
  "next_attempt_sent queues plat wr m ev \<longleftrightarrow> (\<exists>url body d.
     map_of queues (w_queue wr) = Some (SQSQueueConfig url) \<and>
     message_to_json (p_to_json plat) (m\<lparr>msg_n_retries := msg_n_retries m + 1\<rparr>) = Inr body \<and>
     ev = SQSSend url body d)"

text \<open>The task's queue is an SQS queue that accepts messages, and the next attempt has a text.\<close>

definition can_retry :: "'d platform \<Rightarrow> (string \<times> queue_config) list \<Rightarrow> int \<Rightarrow> 'd wrapper \<Rightarrow> sqs_message \<Rightarrow> bool" where
  "can_retry plat queues max_retries wr m \<longleftrightarrow>
     queue_mode (p_settings plat) \<and> QUEUES (p_settings plat) = Inr queues \<and>
     MAX_RETRIES (p_settings plat) = Inr max_retries \<and> (\<forall>tr u b d. p_sqs_send plat tr u b d = None) \<and>
     (\<exists>url. map_of queues (w_queue wr) = Some (SQSQueueConfig url)) \<and>
     (msg_n_retries m < max_retries \<longrightarrow>
        \<not> isl (message_to_json (p_to_json plat) (m\<lparr>msg_n_retries := msg_n_retries m + 1\<rparr>)))"

lemma handle_error_settles:
  assumes c: "can_retry plat queues max_retries wr m" and f: "\<not> (retryable wr e \<and> msg_n_retries m < max_retries)"
  shows "eff_keeps (same_ids i) (handle_error (execute_task (Suc n) plat) plat m i wr r e)"
proof (cases "retryable wr e")
  case True
  with f c show ?thesis
    unfolding handle_error_retryable [OF True] handle_retry_def
    by (auto simp: can_retry_def eff_keeps_def eff_simps task_log_Some same_ids_def sends_def is_send_def
        split: option.split_asm sum.split_asm dest!: eff_keepsD [OF same_ids_finish(1)])
next
  case False
  note keep = settled.keeps_bind settled.keeps_seq settled.keeps_pure same_ids_elementary same_ids_finish
  from False show ?thesis
    unfolding handle_error_def
    by (auto simp: retryable_def isinstance_any_def dest: sym [of "[]"] intro!: keep)
qed

lemma handle_error_retries:
  assumes c: "can_retry plat queues max_retries wr m" and fr: "wd_frames w = []"
    and rt: "retryable wr e" "msg_n_retries m < max_retries"
    and h: "handle_error (execute_task (Suc n) plat) plat m i wr r e w = Some (out, w')"
  shows "same_ids i w w' \<or> out = Inr () \<and> record_ids w' = record_ids w \<and> others_same i w w' \<and>
    (\<exists>ev. next_attempt_sent queues plat wr m ev \<and> sends w' = sends w @ [ev])"
proof -
  obtain url body where q: "map_of queues (w_queue wr) = Some (SQSQueueConfig url)"
    "message_to_json (p_to_json plat) (m\<lparr>msg_n_retries := msg_n_retries m + 1\<rparr>) = Inr body"
    using c rt by (cases "message_to_json (p_to_json plat) (m\<lparr>msg_n_retries := msg_n_retries m + 1\<rparr>)") (auto simp: can_retry_def)
  have sent: "execute_task (Suc n) plat (retry_task wr m u) x = Some (Inr (), add_event (SQSSend url body (retry_delay_of wr u)) x)" for u x
    using retry_sent [of plat queues wr url m body n u x] c q by (simp add: can_retry_def)
  obtain rf w1 where f: "finish_with_traceback plat i r RETRIED e w = Some (rf, w1)"
    using h rt c unfolding handle_error_retryable [OF rt(1)] handle_retry_def
    by (auto simp: can_retry_def eff_simps split: option.split_asm)
  have s: "same_ids i w w1" using same_ids_finish(1) f by (rule eff_keepsD)
  show ?thesis
  proof (cases rf)
    case (Inl x)
    then have "w' = w1" using h f rt c
      unfolding handle_error_retryable [OF rt(1)] handle_retry_def by (simp add: can_retry_def eff_simps)
    with s show ?thesis by simp
  next
    case (Inr r')
    let ?u = "p_uniform plat (wd_draws w1)"
    obtain l where "out = Inr ()" "w' = add_event (SQSSend url body (retry_delay_of wr ?u))
        ((add_event (TaskLog (TaskLogger_prefix (wd_log_id w1)) l) w1)\<lparr>wd_draws := Suc (wd_draws w1)\<rparr>)"
      using h f rt c Inr s fr
      unfolding handle_error_retryable [OF rt(1)] handle_retry_def
      by (auto simp: can_retry_def eff_simps task_log_def uniform_def on_commit_def sent same_ids_def simp del: execute_task.simps)
    moreover have "next_attempt_sent queues plat wr m (SQSSend url body (retry_delay_of wr ?u))"
      using q by (auto simp: next_attempt_sent_def)
    ultimately show ?thesis using s by (auto simp: same_ids_def sends_def is_send_def)
  qed
qed

lemma handle_error_effect:
  assumes c: "can_retry plat queues max_retries wr m" and fr: "wd_frames w = []"
    and h: "handle_error (execute_task (Suc n) plat) plat m i wr r e w = Some (out, w')"
  shows "record_ids w' = record_ids w \<and> others_same i w w' \<and> (sends w' = sends w \<or>
    out = Inr () \<and> msg_n_retries m < max_retries \<and> (\<exists>ev. next_attempt_sent queues plat wr m ev \<and> sends w' = sends w @ [ev]))"
proof (cases "retryable wr e \<and> msg_n_retries m < max_retries")
  case False
  have "same_ids i w w'" using handle_error_settles [OF c False] h by (rule eff_keepsD)
  then show ?thesis by (simp add: same_ids_def)
next
  case True
  with handle_error_retries [OF c fr _ _ h] show ?thesis by (auto simp: same_ids_def)
qed

lemma execute_effect:
  assumes a: "attempts plat m i w wr soft hard kw" and "idle w"
    and st: "steady (wrapper_call (p_type_ok plat) wr (msg_kwargs m))"
    and c: "can_retry plat queues max_retries wr m"
    and x: "execute_immediately (Suc (Suc n)) plat m i w = Some (r, w')"
  shows "record_ids w' = insert i (record_ids w) \<and> others_same i w w' \<and> (sends w' = sends w \<or>
    r = Inr () \<and> msg_n_retries m < max_retries \<and> (\<exists>ev. next_attempt_sent queues plat wr m ev \<and> sends w' = sends w @ [ev]))"
proof -
  let ?r = "fresh_record m kw (wd_now w)"
  obtain out w1 where g: "guarded_call (execute_task (Suc n) plat) plat wr (msg_kwargs m) (lock_of plat wr m hard) soft hard
      (begun i m kw w) = Some (out, w1)"
    using x unfolding execute_immediately_attempts [OF a] by (auto split: option.split_asm)
  have g1: "wd_records w1 = wd_records (begun i m kw w)" "sends w1 = sends w" "wd_frames w1 = []"
    using guarded_call_steady [OF st iffD2 [OF idle_begun assms(2)] g] quiet_sends [OF quiet_begun, of i m kw w] by simp_all
  have i: "record_ids w1 = insert i (record_ids w)"
    using g1(1) a by (auto simp: record_ids_def attempts_def record_lookup_insert dom_def split: if_split_asm)
  have j: "others_same i w w1"
    using g1(1) a by (simp add: others_same_def attempts_def record_lookup_insert)
  show ?thesis
  proof (cases out)
    case (Inl e)
    then obtain w2 where "handle_error (execute_task (Suc n) plat) plat m i wr ?r e w1 = Some (r, w2)" "w' = w2\<lparr>wd_log_id := None\<rparr>"
      using x g unfolding execute_immediately_attempts [OF a] by auto
    with handle_error_effect [OF c g1(3), of n i ?r e r w2] i j g1(2) show ?thesis by (auto intro: others_same_trans)
  next
    case (Inr v)
    then obtain w2 where w2: "eff_bind (finish_with_result plat i ?r v) (\<lambda>r'. task_log (LSucceeded (duration r'))) w1 = Some (r, w2)"
      "w' = w2\<lparr>wd_log_id := None\<rparr>"
      using x g unfolding execute_immediately_attempts [OF a] by auto
    have "eff_keeps (same_ids i) (eff_bind (finish_with_result plat i ?r v) (\<lambda>r'. task_log (LSucceeded (duration r'))))"
      by (intro settled.keeps_bind same_ids_finish same_ids_elementary)
    then have "same_ids i w1 w2" using w2(1) by (rule eff_keepsD)
    then show ?thesis using w2(2) i j g1(2) by (auto simp: same_ids_def intro: others_same_trans)
  qed
qed

end
