(* ===== verification/Ledger.thy ===== *)
theory Ledger
  imports "HOL-Library.Multiset"
begin

text \<open>
  What the queue and the worker promise together, without either: a ledger of the attempts that are
  still open and of the message ids that have been dealt with.  An open attempt is a message id and
  the number of retries that led to it.
\<close>

record ledger =
  ld_open :: "(string \<times> nat) multiset"
  ld_done :: "string set"

lemma ledger_eta [simp]: "\<lparr>ld_open = ld_open l, ld_done = ld_done l\<rparr> = (l :: ledger)"
  by simp

text \<open>An attempt whose id is new is made once.  It may open one more attempt under a fresh id if retries
  are left; it closes, or stays open because its acknowledgement was lost or there was none.  An open
  attempt whose id has been dealt with changes nothing: it closes or stays open.\<close>

inductive ledger_step :: "nat \<Rightarrow> ledger \<Rightarrow> ledger \<Rightarrow> bool" for max_retries where
  attempt: "(i, k) \<in># ld_open l \<Longrightarrow> i \<notin> ld_done l \<Longrightarrow> rest \<in> {ld_open l, ld_open l - {#(i, k)#}} \<Longrightarrow>
    ledger_step max_retries l \<lparr>ld_open = rest, ld_done = insert i (ld_done l)\<rparr>"
| retry: "(i, k) \<in># ld_open l \<Longrightarrow> i \<notin> ld_done l \<Longrightarrow> rest \<in> {ld_open l, ld_open l - {#(i, k)#}} \<Longrightarrow>
    k < max_retries \<Longrightarrow> j \<notin> insert i (ld_done l) \<Longrightarrow> j \<notin> fst ` set_mset (ld_open l) \<Longrightarrow>
    ledger_step max_retries l \<lparr>ld_open = add_mset (j, Suc k) rest, ld_done = insert i (ld_done l)\<rparr>"
| close: "(i, k) \<in># ld_open l \<Longrightarrow> i \<in> ld_done l \<Longrightarrow>
    ledger_step max_retries l \<lparr>ld_open = ld_open l - {#(i, k)#}, ld_done = ld_done l\<rparr>"
| skip: "(i, k) \<in># ld_open l \<Longrightarrow> i \<in> ld_done l \<Longrightarrow> ledger_step max_retries l l"

inductive_cases ledger_stepE: "ledger_step max_retries l l'"

section \<open>Measures\<close>

text \<open>The attempts an open attempt can still cost, and the deliveries it needs at most until it is closed.\<close>

definition cost :: "nat \<Rightarrow> string set \<Rightarrow> string \<times> nat \<Rightarrow> nat" where
  "cost max_retries done a = (if fst a \<in> done then 0 else max_retries - snd a + 1)"

definition weight :: "nat \<Rightarrow> string set \<Rightarrow> string \<times> nat \<Rightarrow> nat" where
  "weight max_retries done a = (if fst a \<in> done then 1 else 2 * (max_retries - snd a) + 2)"

definition attempts_left :: "nat \<Rightarrow> ledger \<Rightarrow> nat" where
  "attempts_left max_retries l = (\<Sum>a \<in># ld_open l. cost max_retries (ld_done l) a)"

definition work_left :: "nat \<Rightarrow> ledger \<Rightarrow> nat" where
  "work_left max_retries l = (\<Sum>a \<in># ld_open l. weight max_retries (ld_done l) a)"

lemma measures_mono:
  "D \<subseteq> D' \<Longrightarrow> (\<Sum>a \<in># M. cost n D' a) \<le> (\<Sum>a \<in># M. cost n D a)"
  "D \<subseteq> D' \<Longrightarrow> (\<Sum>a \<in># M. weight n D' a) \<le> (\<Sum>a \<in># M. weight n D a)"
  by (auto intro!: sum_mset_mono simp: cost_def weight_def)

lemma measure_split:
  fixes f :: "string set \<Rightarrow> string \<times> nat \<Rightarrow> nat"
  shows "a \<in># M \<Longrightarrow> (\<Sum>b \<in># M. f D b) = f D a + (\<Sum>b \<in># M - {#a#}. f D b)"
  by (metis image_mset_add_mset insert_DiffM sum_mset.add_mset)

text \<open>An attempt under the fresh id \<open>i\<close>: the message it may leave open is done, the rest costs no more.\<close>

lemma attempt_measures:
  assumes "(i, k) \<in># M" and "i \<notin> D" and "rest \<in> {M, M - {#(i, k)#}}"
  shows "(\<Sum>b \<in># rest. cost n (insert i D) b) + (n - k + 1) \<le> (\<Sum>b \<in># M. cost n D b)"
    and "(\<Sum>b \<in># rest. weight n (insert i D) b) + (2 * (n - k) + 1) \<le> (\<Sum>b \<in># M. weight n D b)"
proof -
  let ?D = "insert i D"
  have m: "(\<Sum>b \<in># M - {#(i, k)#}. cost n ?D b) \<le> (\<Sum>b \<in># M - {#(i, k)#}. cost n D b)"
    "(\<Sum>b \<in># M - {#(i, k)#}. weight n ?D b) \<le> (\<Sum>b \<in># M - {#(i, k)#}. weight n D b)"
    by (rule measures_mono, blast)+
  have z: "cost n ?D (i, k) = 0" "weight n ?D (i, k) = 1" "cost n D (i, k) = n - k + 1" "weight n D (i, k) = 2 * (n - k) + 2"
    using assms(2) by (simp_all add: cost_def weight_def)
  have "(\<Sum>b \<in># rest. cost n ?D b) = (\<Sum>b \<in># M - {#(i, k)#}. cost n ?D b)"
    using assms(1,3) z(1) by (auto simp: measure_split [OF assms(1), of "cost n"])
  then show "(\<Sum>b \<in># rest. cost n ?D b) + (n - k + 1) \<le> (\<Sum>b \<in># M. cost n D b)"
    using m(1) z(3) by (simp add: measure_split [OF assms(1), of "cost n"])
  have "(\<Sum>b \<in># rest. weight n ?D b) \<le> (\<Sum>b \<in># M - {#(i, k)#}. weight n ?D b) + 1"
    using assms(1,3) z(2) by (auto simp: measure_split [OF assms(1), of "weight n"])
  then show "(\<Sum>b \<in># rest. weight n ?D b) + (2 * (n - k) + 1) \<le> (\<Sum>b \<in># M. weight n D b)"
    using m(2) z(4) by (simp add: measure_split [OF assms(1), of "weight n"])
qed

text \<open>Every attempt is paid for.\<close>

lemma ledger_attempts:
  "ledger_step n l l' \<Longrightarrow> finite (ld_done l) \<Longrightarrow>
   card (ld_done l') + attempts_left n l' \<le> card (ld_done l) + attempts_left n l"
proof (induction rule: ledger_step.induct)
  case (attempt i k l rest)
  with attempt_measures(1) [OF attempt(1-3), of n] show ?case by (simp add: attempts_left_def)
next
  case (retry i k l rest j)
  have "cost n (insert i (ld_done l)) (j, Suc k) = n - k" using retry(4,5) by (simp add: cost_def)
  with retry attempt_measures(1) [OF retry(1-3), of n] show ?case by (simp add: attempts_left_def)
next
  case (close i k l)
  then show ?case by (simp add: attempts_left_def measure_split [OF close(1), of "cost n"])
qed simp

text \<open>Every step that changes anything leaves less to do.\<close>

lemma ledger_step_decreases: "ledger_step n l l' \<Longrightarrow> l' \<noteq> l \<Longrightarrow> work_left n l' < work_left n l"
proof (induction rule: ledger_step.induct)
  case (attempt i k l rest)
  with attempt_measures(2) [OF attempt(1-3), of n] show ?case by (simp add: work_left_def)
next
  case (retry i k l rest j)
  have "weight n (insert i (ld_done l)) (j, Suc k) = 2 * (n - k)" using retry(4,5) by (auto simp: weight_def)
  with retry attempt_measures(2) [OF retry(1-3), of n] show ?case by (simp add: work_left_def)
next
  case (close i k l)
  have "weight n (ld_done l) (i, k) = 1" using close(2) by (simp add: weight_def)
  then show ?case by (simp add: work_left_def measure_split [OF close(1), of "weight n"])
qed simp

lemma ledger_done_mono: "ledger_step n l l' \<Longrightarrow> ld_done l \<subseteq> ld_done l'"
  by (induction rule: ledger_step.induct) auto

text \<open>An id never leaves the ledger before it has been dealt with.\<close>

lemma ledger_open_or_done:
  "ledger_step n l l' \<Longrightarrow> i \<in> fst ` set_mset (ld_open l) \<Longrightarrow> i \<in> fst ` set_mset (ld_open l') \<or> i \<in> ld_done l'"
proof -
  assume st: "ledger_step n l l'" and "i \<in> fst ` set_mset (ld_open l)"
  then obtain k' where k': "(i, k') \<in># ld_open l" by auto
  have "(i, k') \<in># ld_open l' \<or> i \<in> ld_done l'"
    using st k' by (auto elim!: ledger_stepE) (metis in_diff_count insert_DiffM insert_noteq_member prod.inject)+
  then show ?thesis by (force intro: image_eqI [of _ _ "(i, k')"])
qed

section \<open>Implementations of the ledger\<close>

text \<open>A system whose every step is a step of the ledger, under an invariant that its steps keep, and that
  can take a step that gets on while anything is open.\<close>

locale ledger_implementation =
  fixes step :: "'s \<Rightarrow> 's \<Rightarrow> bool"
    and ok :: "'s \<Rightarrow> bool"
    and abs :: "'s \<Rightarrow> ledger"
    and max_retries :: nat
  assumes ok_step: "ok s \<Longrightarrow> step s s' \<Longrightarrow> ok s'"
    and simulates: "ok s \<Longrightarrow> step s s' \<Longrightarrow> ledger_step max_retries (abs s) (abs s')"
    and progress: "ok s \<Longrightarrow> ld_open (abs s) \<noteq> {#} \<Longrightarrow> \<exists>s'. step s s' \<and> abs s' \<noteq> abs s"
    and finite_done: "ok s \<Longrightarrow> finite (ld_done (abs s))"
begin

lemma ok_steps: "step\<^sup>*\<^sup>* s s' \<Longrightarrow> ok s \<Longrightarrow> ok s'"
  by (induction rule: rtranclp_induct) (auto intro: ok_step)

lemma simulates_steps: "step\<^sup>*\<^sup>* s s' \<Longrightarrow> ok s \<Longrightarrow> (ledger_step max_retries)\<^sup>*\<^sup>* (abs s) (abs s')"
  by (induction rule: rtranclp_induct) (auto intro: rtranclp.rtrancl_into_rtrancl simulates ok_steps)

text \<open>However many deliveries a run has, its attempts are bounded.\<close>

lemma attempts_bounded:
  "step\<^sup>*\<^sup>* s s' \<Longrightarrow> ok s \<Longrightarrow>
   card (ld_done (abs s')) + attempts_left max_retries (abs s') \<le> card (ld_done (abs s)) + attempts_left max_retries (abs s)"
proof (induction rule: rtranclp_induct)
  case (step t u)
  have "ok t" using ok_steps [OF step(1) step.prems] .
  then have "card (ld_done (abs u)) + attempts_left max_retries (abs u) \<le> card (ld_done (abs t)) + attempts_left max_retries (abs t)"
    using ledger_attempts [OF simulates [OF _ step(2)] finite_done] by blast
  with step.IH [OF step.prems] show ?case by simp
qed simp

text \<open>A step that gets on; a run of such steps is no longer than the work there was.\<close>

definition gets_on :: "'s \<Rightarrow> 's \<Rightarrow> bool" where
  "gets_on s s' \<longleftrightarrow> step s s' \<and> abs s' \<noteq> abs s"

lemma run_bounded: "(gets_on ^^ k) s s' \<Longrightarrow> ok s \<Longrightarrow> ok s' \<and> k + work_left max_retries (abs s') \<le> work_left max_retries (abs s)"
proof (induction k arbitrary: s')
  case (Suc k)
  then obtain t where t: "(gets_on ^^ k) s t" and g: "gets_on t s'" by auto
  have IH: "ok t" "k + work_left max_retries (abs t) \<le> work_left max_retries (abs s)" using Suc.IH [OF t Suc.prems(2)] by auto
  have "step t s'" "abs s' \<noteq> abs t" using g by (simp_all add: gets_on_def)
  with IH ledger_step_decreases [OF simulates] ok_step show ?case by fastforce
qed simp

lemma gets_on_steps: "(gets_on ^^ k) s s' \<Longrightarrow> step\<^sup>*\<^sup>* s s'"
proof -
  have "gets_on \<le> step" by (auto simp: gets_on_def)
  then show "(gets_on ^^ k) s s' \<Longrightarrow> step\<^sup>*\<^sup>* s s'"
    using rtranclp_mono [of gets_on step] relpowp_imp_rtranclp [of k gets_on s s'] by blast
qed

text \<open>Every run can be continued until nothing is open.\<close>

lemma drains: "ok s \<Longrightarrow> \<exists>s'. step\<^sup>*\<^sup>* s s' \<and> ld_open (abs s') = {#}"
proof (induction "work_left max_retries (abs s)" arbitrary: s rule: less_induct)
  case less
  show ?case
  proof (cases "ld_open (abs s) = {#}")
    case False
    then obtain t where t: "step s t" "abs t \<noteq> abs s" using progress [OF less.prems] by blast
    have "\<exists>s'. step\<^sup>*\<^sup>* t s' \<and> ld_open (abs s') = {#}"
      using less.hyps [OF ledger_step_decreases [OF simulates [OF less.prems t(1)] t(2)] ok_step [OF less.prems t(1)]] .
    with t(1) show ?thesis by (blast intro: converse_rtranclp_into_rtranclp)
  qed blast
qed

lemma open_or_done:
  "step\<^sup>*\<^sup>* s s' \<Longrightarrow> ok s \<Longrightarrow> i \<in> fst ` set_mset (ld_open (abs s)) \<Longrightarrow>
   i \<in> fst ` set_mset (ld_open (abs s')) \<or> i \<in> ld_done (abs s')"
proof (induction rule: rtranclp_induct)
  case (step t u)
  have t: "ledger_step max_retries (abs t) (abs u)"
    using simulates [OF ok_steps [OF step(1) step.prems(1)] step(2)] .
  from step.IH [OF step.prems] show ?case
    using ledger_open_or_done [OF t] ledger_done_mono [OF t] by blast
qed simp

end

end
