(* ===== verification/Delivery_System.thy ===== *)
theory Delivery_System
  imports Steady_Tasks Ledger
begin

text \<open>
  The worker and its queues as one system.  A waiting message is delivered, runs through the body of the
  handler's loop (\<open>process_record\<close>), and is deleted if it returned normally, or stays; what the execution
  sent waits from then on, under new ids.  SQS delivers at least once, in any order: any waiting message
  may be next, and a message may stay although it was processed.

  The system implements \<open>Ledger\<close>: a message is attempted at most once per id, whatever the queue does,
  the attempts are bounded by the retries that are left, and every message can be worked off.
\<close>

section \<open>The system\<close>

record 'd sqs_system =
  sy_worker :: "'d world"
  sy_queue :: "sqs_record multiset"
  sy_next :: nat

text \<open>The bodies of the messages sent between two states, and the messages under the ids SQS gives them.\<close>

definition sent_bodies :: "'d world \<Rightarrow> 'd world \<Rightarrow> string list" where
  "sent_bodies w w' = concat (map (\<lambda>ev. case ev of SQSSend url b d \<Rightarrow> [b] | _ \<Rightarrow> []) (drop (length (sends w)) (sends w')))"

definition new_records :: "(nat \<Rightarrow> string) \<Rightarrow> nat \<Rightarrow> string list \<Rightarrow> sqs_record list" where
  "new_records mid k bodies = map (\<lambda>(j, b). \<lparr>messageId = mid j, body = b\<rparr>) (enumerate k bodies)"

definition after_delivery :: "(nat \<Rightarrow> string) \<Rightarrow> 'd sqs_system \<Rightarrow> 'd world \<Rightarrow> sqs_record multiset \<Rightarrow> 'd sqs_system" where
  "after_delivery mid s w' waiting =
     \<lparr>sy_worker = w', sy_queue = waiting + mset (new_records mid (sy_next s) (sent_bodies (sy_worker s) w')),
      sy_next = sy_next s + length (sent_bodies (sy_worker s) w')\<rparr>"

inductive sqs_step :: "nat \<Rightarrow> 'd platform \<Rightarrow> (nat \<Rightarrow> string) \<Rightarrow> 'd sqs_system \<Rightarrow> 'd sqs_system \<Rightarrow> bool" for n plat mid where
  acknowledged: "rec \<in># sy_queue s \<Longrightarrow> process_record n plat rec (sy_worker s) = Some (Inr (), w') \<Longrightarrow>
    sqs_step n plat mid s (after_delivery mid s w' (sy_queue s - {#rec#}))"
| kept: "rec \<in># sy_queue s \<Longrightarrow> process_record n plat rec (sy_worker s) = Some (out, w') \<Longrightarrow>
    sqs_step n plat mid s (after_delivery mid s w' (sy_queue s))"

inductive_cases sqs_stepE: "sqs_step n plat mid s s'"

section \<open>Messages that can be worked on\<close>

text \<open>The services answer and the queues are in use.\<close>

definition calm :: "'d platform \<Rightarrow> (string \<times> queue_config) list \<Rightarrow> int \<Rightarrow> bool" where
  "calm plat queues max_retries \<longleftrightarrow>
     queue_mode (p_settings plat) \<and> QUEUES (p_settings plat) = Inr queues \<and> MAX_RETRIES (p_settings plat) = Inr max_retries \<and>
     (\<forall>tr. p_close_connections plat tr = None) \<and> (\<forall>i r. p_create_error plat i r = None) \<and>
     (\<forall>cache key. p_cache_lock plat cache key = None) \<and> (\<forall>tr url b d. p_sqs_send plat tr url b d = None)"

text \<open>The task of the message is there, is steady and has an SQS queue, and the message and its retries have
  texts that read back.\<close>

definition workable :: "'d platform \<Rightarrow> (string \<times> queue_config) list \<Rightarrow> int \<Rightarrow> sqs_message \<Rightarrow> bool" where
  "workable plat queues max_retries m \<longleftrightarrow> 0 \<le> msg_n_retries m \<and>
     (\<exists>wr soft hard kw url. resolves plat m wr soft hard kw \<and>
        steady (wrapper_call (p_type_ok plat) wr (msg_kwargs m)) \<and> map_of queues (w_queue wr) = Some (SQSQueueConfig url)) \<and>
     (\<forall>k \<in> {0..max_retries}. \<exists>body. message_to_json (p_to_json plat) (m\<lparr>msg_n_retries := k\<rparr>) = Inr body \<and>
        message_from_json (p_from_json plat) (p_lax_int plat) body = Inr (m\<lparr>msg_n_retries := k\<rparr>))"

lemma workable_retry: "workable plat queues mx m \<Longrightarrow> workable plat queues mx (m\<lparr>msg_n_retries := msg_n_retries m + 1\<rparr>)"
  by (simp add: workable_def resolves_def)

definition delivers :: "'d platform \<Rightarrow> sqs_record \<Rightarrow> sqs_message \<Rightarrow> bool" where
  "delivers plat rec m \<longleftrightarrow> message_from_json (p_from_json plat) (p_lax_int plat) (body rec) = Inr m"

text \<open>The invariant of the system, and the ledger it keeps.\<close>

definition sys_ok :: "'d platform \<Rightarrow> (string \<times> queue_config) list \<Rightarrow> int \<Rightarrow> (nat \<Rightarrow> string) \<Rightarrow> 'd sqs_system \<Rightarrow> bool" where
  "sys_ok plat queues max_retries mid s \<longleftrightarrow>
     calm plat queues max_retries \<and> inj mid \<and> idle (sy_worker s) \<and>
     (\<forall>rec \<in># sy_queue s. \<exists>m. delivers plat rec m \<and> workable plat queues max_retries m) \<and>
     (\<forall>k \<ge> sy_next s. mid k \<notin> record_ids (sy_worker s) \<union> messageId ` set_mset (sy_queue s))"

definition retries_of :: "'d platform \<Rightarrow> sqs_record \<Rightarrow> nat" where
  "retries_of plat rec = (case message_from_json (p_from_json plat) (p_lax_int plat) (body rec) of
       Inl e \<Rightarrow> 0 | Inr m \<Rightarrow> nat (msg_n_retries m))"

definition open_attempt :: "'d platform \<Rightarrow> sqs_record \<Rightarrow> string \<times> nat" where
  "open_attempt plat rec = (messageId rec, retries_of plat rec)"

definition sys_ledger :: "'d platform \<Rightarrow> 'd sqs_system \<Rightarrow> ledger" where
  "sys_ledger plat s =
     \<lparr>ld_open = image_mset (open_attempt plat) (sy_queue s), ld_done = record_ids (sy_worker s)\<rparr>"

lemma finite_record_ids [simp]: "finite (record_ids w)"
proof -
  have "record_lookup (wd_records w) = map_of (wd_records w)" by (rule ext) (simp add: record_lookup_def)
  then show ?thesis by (simp add: record_ids_def finite_dom_map_of)
qed

lemma record_ids_iff: "i \<in> record_ids w \<longleftrightarrow> record_lookup (wd_records w) i \<noteq> None"
  by (auto simp: record_ids_def)

section \<open>One delivery\<close>

lemma process_record_calm:
  assumes "calm plat queues mx" and "delivers plat rec m"
  shows "process_record n plat rec w = execute_immediately n plat m (messageId rec) (add_event CloseConnections w)"
  using assms by (simp add: calm_def delivers_def process_record_def close_old_connections_def ext_call_def eff_simps)

lemma close_connections_event [simp]: "sends (add_event CloseConnections w) = sends w"
  by (simp add: sends_def is_send_def)

text \<open>A message whose id has a record.\<close>

lemma delivery_of_done:
  assumes c: "calm plat queues mx" and m: "delivers plat rec m" "workable plat queues mx m"
    and d: "messageId rec \<in> record_ids w"
    and x: "process_record (Suc n) plat rec w = Some (out, w')"
  shows "out = Inr () \<and> wd_records w' = wd_records w \<and> sends w' = sends w"
proof -
  obtain wr soft hard kw where r: "resolves plat m wr soft hard kw" using m(2) by (auto simp: workable_def)
  obtain q where "record_lookup (wd_records (add_event CloseConnections w)) (messageId rec) = Some q"
    using d by (auto simp: record_ids_iff)
  from duplicate_delivery_skipped [OF r this, of n] show ?thesis
    using x unfolding process_record_calm [OF c m(1)]
    by (auto simp: sends_def is_send_def log_event_def)
qed

text \<open>A message whose id is new.\<close>

definition retry_waiting :: "'d platform \<Rightarrow> sqs_message \<Rightarrow> int \<Rightarrow> event \<Rightarrow> bool" where
  "retry_waiting plat m max_retries ev \<longleftrightarrow> (\<exists>url b d. ev = SQSSend url b d \<and> msg_n_retries m < max_retries \<and>
     message_from_json (p_from_json plat) (p_lax_int plat) b = Inr (m\<lparr>msg_n_retries := msg_n_retries m + 1\<rparr>))"

lemma delivery_of_new:
  assumes c: "calm plat queues mx" and m: "delivers plat rec m" "workable plat queues mx m" and "idle w"
    and d: "messageId rec \<notin> record_ids w"
    and x: "process_record (Suc (Suc n)) plat rec w = Some (out, w')"
  shows "record_ids w' = insert (messageId rec) (record_ids w) \<and> others_same (messageId rec) w w' \<and>
    (sends w' = sends w \<or> (\<exists>ev. retry_waiting plat m mx ev \<and> sends w' = sends w @ [ev]))"
proof -
  let ?w = "add_event CloseConnections w"
  obtain wr soft hard kw url where r: "resolves plat m wr soft hard kw"
    and st: "steady (wrapper_call (p_type_ok plat) wr (msg_kwargs m))"
    and q: "map_of queues (w_queue wr) = Some (SQSQueueConfig url)" using m(2) by (auto simp: workable_def)
  have a: "attempts plat m (messageId rec) ?w wr soft hard kw"
    using r c d by (auto simp: attempts_def calm_def record_ids_iff)
  have t: "\<exists>b. message_to_json (p_to_json plat) (m\<lparr>msg_n_retries := msg_n_retries m + 1\<rparr>) = Inr b \<and>
      message_from_json (p_from_json plat) (p_lax_int plat) b = Inr (m\<lparr>msg_n_retries := msg_n_retries m + 1\<rparr>)"
    if "msg_n_retries m < mx" using m(2) that by (auto simp: workable_def)
  have cr: "can_retry plat queues mx wr m"
    using c q t by (auto simp: calm_def can_retry_def)
  have i: "idle ?w" using \<open>idle w\<close> by (simp add: idle_def)
  have o: "others_same k (add_event ev x) y = others_same k x y" for k ev and x y :: "'a world"
    by (simp add: others_same_def)
  show ?thesis
    using o execute_effect [OF a i st cr x [unfolded process_record_calm [OF c m(1)]]] t
    by (fastforce simp: next_attempt_sent_def retry_waiting_def)
qed

section \<open>The system implements the ledger\<close>

lemma sent_bodies_simps:
  "sends w' = sends w \<Longrightarrow> sent_bodies w w' = []"
  "sends w' = sends w @ [SQSSend url b d] \<Longrightarrow> sent_bodies w w' = [b]"
  by (simp_all add: sent_bodies_def)

lemma after_delivery_simps:
  "sent_bodies (sy_worker s) w' = [] \<Longrightarrow> after_delivery mid s w' waiting = \<lparr>sy_worker = w', sy_queue = waiting, sy_next = sy_next s\<rparr>"
  "sent_bodies (sy_worker s) w' = [b] \<Longrightarrow> after_delivery mid s w' waiting =
     \<lparr>sy_worker = w', sy_queue = add_mset \<lparr>messageId = mid (sy_next s), body = b\<rparr> waiting, sy_next = Suc (sy_next s)\<rparr>"
  by (simp_all add: after_delivery_def new_records_def)

lemma open_attempts_minus:
  "rec \<in># M \<Longrightarrow> image_mset (open_attempt plat) (M - {#rec#}) = image_mset (open_attempt plat) M - {#open_attempt plat rec#}"
  by (rule image_mset_Diff [of "{#rec#}" M "open_attempt plat", simplified]) 

text \<open>What a delivery does to the system, by cases.\<close>

lemma delivery_cases:
  assumes ok: "sys_ok plat queues mx mid s" and r: "rec \<in># sy_queue s"
    and x: "process_record (Suc (Suc n)) plat rec (sy_worker s) = Some (out, w')"
  obtains (Done) "messageId rec \<in> record_ids (sy_worker s)" "out = Inr ()"
      "record_ids w' = record_ids (sy_worker s)" "sent_bodies (sy_worker s) w' = []"
  | (Attempt) "messageId rec \<notin> record_ids (sy_worker s)"
      "record_ids w' = insert (messageId rec) (record_ids (sy_worker s))" "sent_bodies (sy_worker s) w' = []"
  | (Retry) m b where "messageId rec \<notin> record_ids (sy_worker s)"
      "record_ids w' = insert (messageId rec) (record_ids (sy_worker s))" "sent_bodies (sy_worker s) w' = [b]"
      "delivers plat rec m" "workable plat queues mx m" "msg_n_retries m < mx"
      "message_from_json (p_from_json plat) (p_lax_int plat) b = Inr (m\<lparr>msg_n_retries := msg_n_retries m + 1\<rparr>)"
proof -
  obtain m where m: "delivers plat rec m" "workable plat queues mx m" and c: "calm plat queues mx" and i: "idle (sy_worker s)"
    using ok r by (auto simp: sys_ok_def)
  show thesis
  proof (cases "messageId rec \<in> record_ids (sy_worker s)")
    case True
    with delivery_of_done [OF c m True x] show ?thesis by (intro Done) (auto simp: sent_bodies_simps record_ids_def)
  next
    case False
    note d = delivery_of_new [OF c m i False x]
    show ?thesis
    proof (cases "sends w' = sends (sy_worker s)")
      case True
      with d False show ?thesis by (intro Attempt) (auto simp: sent_bodies_simps)
    next
      case neq: False
      then obtain ev where "retry_waiting plat m mx ev" "sends w' = sends (sy_worker s) @ [ev]" using d by blast
      then show ?thesis
        using Retry [OF False _ _ m] d by (auto simp: retry_waiting_def dest!: sent_bodies_simps(2))
    qed
  qed
qed

text \<open>A delivery leaves every record alone that was there.\<close>

lemma delivery_keeps_records:
  assumes ok: "sys_ok plat queues mx mid s" and r: "rec \<in># sy_queue s"
    and x: "process_record (Suc (Suc n)) plat rec (sy_worker s) = Some (out, w')" and j: "j \<in> record_ids (sy_worker s)"
  shows "record_lookup (wd_records w') j = record_lookup (wd_records (sy_worker s)) j"
proof -
  obtain m where m: "delivers plat rec m" "workable plat queues mx m" and c: "calm plat queues mx" and i: "idle (sy_worker s)"
    using ok r by (auto simp: sys_ok_def)
  show ?thesis
  proof (cases "messageId rec \<in> record_ids (sy_worker s)")
    case True
    with delivery_of_done [OF c m True x] show ?thesis by simp
  next
    case False
    then have "j \<noteq> messageId rec" using j by blast
    then show ?thesis using delivery_of_new [OF c m i False x] by (simp add: others_same_def)
  qed
qed

text \<open>A delivery keeps the invariant, whether or not the message is deleted.\<close>

lemma delivery_ok:
  assumes ok: "sys_ok plat queues mx mid s" and r: "rec \<in># sy_queue s"
    and x: "process_record (Suc (Suc n)) plat rec (sy_worker s) = Some (out, w')"
    and waiting: "waiting \<in> {sy_queue s, sy_queue s - {#rec#}}"
  shows "sys_ok plat queues mx mid (after_delivery mid s w' waiting)"
proof -
  have i: "idle w'" using process_record_idle [OF x] ok by (simp add: sys_ok_def)
  have sub: "set_mset waiting \<subseteq> set_mset (sy_queue s)" using waiting by (auto dest: in_diffD)
  have "mid k \<noteq> messageId r" if "sy_next s \<le> k" "r \<in># sy_queue s" for k r
    using ok that by (auto simp: sys_ok_def)
  then have fresh: "\<And>k r. sy_next s \<le> k \<Longrightarrow> r \<in># waiting \<Longrightarrow> mid k \<noteq> messageId r"
    "\<And>k. sy_next s \<le> k \<Longrightarrow> mid k \<noteq> messageId rec"
    using sub r by auto
  from ok r x show ?thesis
  proof (cases rule: delivery_cases)
    case (Retry m b)
    then show ?thesis
      using ok i sub fresh r workable_retry [OF Retry(5)]
      by (auto simp: sys_ok_def after_delivery_simps delivers_def dest: injD)
  qed (use ok i sub fresh r in \<open>auto simp: sys_ok_def after_delivery_simps\<close>)
qed

text \<open>A delivery is a step of the ledger.\<close>

lemma delivery_simulates:
  assumes ok: "sys_ok plat queues mx mid s" and r: "rec \<in># sy_queue s"
    and x: "process_record (Suc (Suc n)) plat rec (sy_worker s) = Some (out, w')"
    and waiting: "waiting \<in> {sy_queue s, sy_queue s - {#rec#}}"
  shows "ledger_step (nat mx) (sys_ledger plat s) (sys_ledger plat (after_delivery mid s w' waiting))"
proof -
  have o: "(messageId rec, retries_of plat rec) \<in># ld_open (sys_ledger plat s)"
    using r by (force simp: sys_ledger_def open_attempt_def)
  have w: "image_mset (open_attempt plat) waiting \<in>
      {ld_open (sys_ledger plat s), ld_open (sys_ledger plat s) - {#(messageId rec, retries_of plat rec)#}}"
    using waiting open_attempts_minus [OF r, of plat] by (auto simp: sys_ledger_def open_attempt_def)
  have l: "ld_done (sys_ledger plat s) = record_ids (sy_worker s)" by (simp add: sys_ledger_def)
  from ok r x show ?thesis
  proof (cases rule: delivery_cases)
    case Done
    have "sys_ledger plat (after_delivery mid s w' waiting) =
        \<lparr>ld_open = image_mset (open_attempt plat) waiting, ld_done = ld_done (sys_ledger plat s)\<rparr>"
      using Done by (simp add: sys_ledger_def after_delivery_simps)
    then show ?thesis
      using ledger_step.close [OF o Done(1) [folded l], of "nat mx"] ledger_step.skip [OF o Done(1) [folded l], of "nat mx"] w
      by auto
  next
    case Attempt
    then show ?thesis
      using ledger_step.attempt [OF o _ w, of "nat mx"] l by (auto simp: after_delivery_simps sys_ledger_def)
  next
    case (Retry m b)
    let ?new = "\<lparr>messageId = mid (sy_next s), body = b\<rparr>"
    have k: "retries_of plat rec < nat mx" "open_attempt plat ?new = (mid (sy_next s), Suc (retries_of plat rec))"
      using Retry(4-7) by (auto simp: retries_of_def delivers_def open_attempt_def workable_def nat_add_distrib)
    have f: "mid (sy_next s) \<notin> insert (messageId rec) (ld_done (sys_ledger plat s))"
        "mid (sy_next s) \<notin> fst ` set_mset (ld_open (sys_ledger plat s))"
      using ok r by (auto simp: sys_ok_def l) (auto simp: sys_ledger_def open_attempt_def)
    show ?thesis
      using ledger_step.retry [OF o _ w k(1) f] Retry(1,2,3) l k(2) by (simp add: after_delivery_simps sys_ledger_def)
  qed
qed

interpretation sqs: ledger_implementation
  "sqs_step (Suc (Suc (Suc n))) plat mid" "sys_ok plat queues mx mid" "sys_ledger plat" "nat mx"
proof
  fix s s' :: "'a sqs_system"
  assume ok: "sys_ok plat queues mx mid s"
  show "finite (ld_done (sys_ledger plat s))" by (simp add: sys_ledger_def)
  {
    assume "sqs_step (Suc (Suc (Suc n))) plat mid s s'"
    then have "sys_ok plat queues mx mid s' \<and> ledger_step (nat mx) (sys_ledger plat s) (sys_ledger plat s')"
      by (elim sqs_stepE) (simp_all add: delivery_ok [OF ok] delivery_simulates [OF ok])
    then show "sys_ok plat queues mx mid s'" "ledger_step (nat mx) (sys_ledger plat s) (sys_ledger plat s')" by simp_all
  }
  assume "ld_open (sys_ledger plat s) \<noteq> {#}"
  then obtain rec where r: "rec \<in># sy_queue s" by (auto simp: sys_ledger_def dest: multiset_nonemptyE)
  have "\<not> EAGER (p_settings plat)" using ok by (simp add: sys_ok_def calm_def queue_mode_def)
  then obtain out w' where x: "process_record (Suc (Suc (Suc n))) plat rec (sy_worker s) = Some (out, w')"
    using process_record_total [of plat n rec] by (blast elim: eff_totalE)
  show "\<exists>s'. sqs_step (Suc (Suc (Suc n))) plat mid s s' \<and> sys_ledger plat s' \<noteq> sys_ledger plat s"
  proof (cases "messageId rec \<in> record_ids (sy_worker s)")
    case True
    then have d: "out = Inr ()" "sent_bodies (sy_worker s) w' = []"
      using ok r x by (auto elim!: delivery_cases)
    have "size (sy_queue s - {#rec#}) \<noteq> size (sy_queue s)"
      using size_Diff1_less [OF r] by simp
    then have "image_mset (open_attempt plat) (sy_queue s - {#rec#}) \<noteq> image_mset (open_attempt plat) (sy_queue s)"
      by (metis size_image_mset)
    then have "sys_ledger plat (after_delivery mid s w' (sy_queue s - {#rec#})) \<noteq> sys_ledger plat s"
      using d(2) by (simp add: sys_ledger_def after_delivery_simps)
    then show ?thesis using sqs_step.acknowledged [OF r x [unfolded d(1)]] by blast
  next
    case False
    then have "record_ids w' = insert (messageId rec) (record_ids (sy_worker s))"
      using ok r x by (auto elim!: delivery_cases)
    then have "sys_ledger plat (after_delivery mid s w' (sy_queue s)) \<noteq> sys_ledger plat s"
      using False by (auto simp: sys_ledger_def after_delivery_def)
    then show ?thesis using sqs_step.kept [OF r x] by blast
  qed
qed

section \<open>Prompt acknowledgement\<close>

text \<open>The system when no acknowledgement is lost: a message that was processed is deleted.\<close>

inductive prompt_step :: "nat \<Rightarrow> 'd platform \<Rightarrow> (nat \<Rightarrow> string) \<Rightarrow> 'd sqs_system \<Rightarrow> 'd sqs_system \<Rightarrow> bool" for n plat mid where
  processed: "rec \<in># sy_queue s \<Longrightarrow> process_record n plat rec (sy_worker s) = Some (Inr (), w') \<Longrightarrow>
    prompt_step n plat mid s (after_delivery mid s w' (sy_queue s - {#rec#}))"
| raised: "rec \<in># sy_queue s \<Longrightarrow> process_record n plat rec (sy_worker s) = Some (Inl e, w') \<Longrightarrow>
    prompt_step n plat mid s (after_delivery mid s w' (sy_queue s))"

inductive_cases prompt_stepE: "prompt_step n plat mid s s'"

text \<open>While anything waits, a step can be taken.\<close>

lemma prompt_step_exists:
  assumes "\<not> EAGER (p_settings plat)" and "sy_queue s \<noteq> {#}"
  shows "\<exists>s'. prompt_step (Suc (Suc (Suc n))) plat mid s s'"
proof -
  obtain rec where r: "rec \<in># sy_queue s" using assms(2) by (auto dest: multiset_nonemptyE)
  obtain out w' where x: "process_record (Suc (Suc (Suc n))) plat rec (sy_worker s) = Some (out, w')"
    using process_record_total [OF assms(1), of n rec] by (blast elim: eff_totalE)
  show ?thesis
  proof (cases out)
    case (Inl e)
    show ?thesis using prompt_step.raised [OF r x [unfolded Inl]] by blast
  next
    case (Inr u)
    have "process_record (Suc (Suc (Suc n))) plat rec (sy_worker s) = Some (Inr (), w')" using x Inr by simp
    then show ?thesis using prompt_step.processed [OF r] by blast
  qed
qed

lemma prompt_progress:
  "sys_ok plat queues mx mid s \<Longrightarrow> sy_queue s \<noteq> {#} \<Longrightarrow> \<exists>s'. prompt_step (Suc (Suc (Suc n))) plat mid s s'"
  by (rule prompt_step_exists) (simp_all add: sys_ok_def calm_def queue_mode_def)

text \<open>A step gets on: the message is gone, or its id has been dealt with.\<close>

lemma smaller_queue:
  assumes "rec \<in># M" and "\<not> (\<exists>b. bodies = [b])" and "length bodies \<le> 1"
  shows "image_mset (open_attempt plat) (M - {#rec#} + mset (new_records mid k bodies)) \<noteq> image_mset (open_attempt plat) M"
proof -
  have "bodies = []" using assms(2,3) by (cases bodies) auto
  moreover have "size (M - {#rec#}) \<noteq> size M" using size_Diff1_less [OF assms(1)] by simp
  ultimately show ?thesis by (simp add: new_records_def) (metis size_image_mset)
qed

lemma prompt_gets_on:
  assumes ok: "sys_ok plat queues mx mid s" and st: "prompt_step (Suc (Suc (Suc n))) plat mid s s'"
  shows "sqs_step (Suc (Suc (Suc n))) plat mid s s' \<and> sys_ledger plat s' \<noteq> sys_ledger plat s"
  using st
proof (cases rule: prompt_step.cases)
  case (processed rec w')
  have "sys_ledger plat s' \<noteq> sys_ledger plat s"
    using ok processed(2,3)
  proof (cases rule: delivery_cases)
    case Done
    then show ?thesis
      using smaller_queue [OF processed(2), of "[]" plat mid "sy_next s"]
      by (simp add: processed(1) sys_ledger_def after_delivery_def)
  qed (auto simp: processed(1) sys_ledger_def after_delivery_def)
  then show ?thesis using sqs_step.acknowledged [OF processed(2,3)] processed(1) by simp
next
  case (raised rec e w')
  have "sys_ledger plat s' \<noteq> sys_ledger plat s"
    using ok raised(2,3)
    by (cases rule: delivery_cases) (auto simp: raised(1) sys_ledger_def after_delivery_def)
  then show ?thesis using sqs_step.kept [OF raised(2,3)] raised(1) by simp
qed

section \<open>An invocation of the handler\<close>

text \<open>The records of a batch that did not raise.\<close>

definition acknowledged_records :: "sqs_record list \<Rightarrow> 'd step list \<Rightarrow> sqs_record list" where
  "acknowledged_records recs steps = map fst (filter (\<lambda>(r, st). step_error st = None) (zip recs steps))"

text \<open>A batch is a run of the system: one step per record, and the records that did not raise are deleted.\<close>

lemma batch_is_a_run:
  assumes "batch_steps n plat recs (sy_worker s) = Some steps" and "mset recs \<subseteq># sy_queue s"
  shows "\<exists>s' new. (sqs_step n plat mid)\<^sup>*\<^sup>* s s' \<and> sy_worker s' = batch_end (sy_worker s) steps \<and>
    sy_queue s' = sy_queue s - mset (acknowledged_records recs steps) + new"
  using assms
proof (induction recs arbitrary: s steps)
  case Nil
  then show ?case by (intro exI [of _ s] exI [of _ "{#}"]) (simp add: batch_end_def acknowledged_records_def)
next
  case (Cons rec recs)
  then obtain out w' sts where p: "process_record n plat rec (sy_worker s) = Some (out, w')"
    and b: "batch_steps n plat recs w' = Some sts" and st: "steps = (sy_worker s, out, w') # sts"
    by (auto split: option.split_asm)
  have rec: "rec \<in># sy_queue s" and rest: "mset recs \<subseteq># sy_queue s - {#rec#}"
    using Cons.prems(2) by (auto simp: insert_subset_eq_iff)
  define waiting where "waiting = (if out = Inr () then sy_queue s - {#rec#} else sy_queue s)"
  let ?t = "after_delivery mid s w' waiting"
  have step: "sqs_step n plat mid s ?t"
    using sqs_step.acknowledged [OF rec] sqs_step.kept [OF rec p] p by (auto simp: waiting_def)
  obtain new where new: "sy_queue ?t = waiting + new" "sy_worker ?t = w'" by (simp add: after_delivery_def)
  have "mset recs \<subseteq># waiting" using rest by (auto simp: waiting_def intro: subset_mset.order_trans diff_subset_eq_self)
  then have "mset recs \<subseteq># sy_queue ?t" unfolding new(1) by (rule subset_mset.order_trans) simp
  then obtain s' new' where IH: "(sqs_step n plat mid)\<^sup>*\<^sup>* ?t s'" "sy_worker s' = batch_end w' sts"
    "sy_queue s' = waiting + new - mset (acknowledged_records recs sts) + new'"
    using Cons.IH [of ?t sts] b new by auto
  have "mset (acknowledged_records recs sts) \<subseteq># mset recs"
  proof -
    have "mset (acknowledged_records recs sts) \<subseteq># mset (map fst (zip recs sts))"
      by (simp add: acknowledged_records_def image_mset_subseteq_mono multiset_filter_subset mset_filter)
    then show ?thesis using batch_steps_length [OF b] by simp
  qed
  then have "mset (acknowledged_records recs sts) \<subseteq># waiting" using \<open>mset recs \<subseteq># waiting\<close> by (rule subset_mset.order_trans)
  then have "sy_queue s' = waiting - mset (acknowledged_records recs sts) + (new + new')"
    unfolding IH(3) by (simp add: ac_simps)
  moreover have "waiting - mset (acknowledged_records recs sts) = sy_queue s - mset (acknowledged_records (rec # recs) steps)"
    by (auto simp: st waiting_def acknowledged_records_def step_error_def split: sum.split)
  ultimately show ?case
    using converse_rtranclp_into_rtranclp [of "sqs_step n plat mid", OF step IH(1)] IH(2)
    by (intro exI [of _ s'] exI [of _ "new + new'"]) (simp add: st batch_end_def)
qed

section \<open>The properties\<close>

text \<open>C5. An invocation refines the ledger.  Whenever the handler returns on a batch of waiting messages,
  deleting the messages that did not raise and adding what was sent is a run of the system: every
  record the batch leaves is an attempt the ledger allows (one per id, a retry under a fresh id only
  while retries are left), and the invariant of the system holds again.\<close>

theorem invocation_refines_the_ledger:
  assumes "sys_ok plat queues mx mid s" and "mset recs \<subseteq># sy_queue s" and "wk_world k = sy_worker s"
    and "handler (Suc (Suc (Suc n))) sv (\<lambda>env. plat) recs k = Some (Inr failures, k')"
  shows "\<exists>s' new steps. batch_steps (Suc (Suc (Suc n))) plat recs (sy_worker s) = Some steps \<and>
    failures = failed_ids recs steps \<and> sy_worker s' = wk_world k' \<and>
    sy_queue s' = sy_queue s - mset (acknowledged_records recs steps) + new \<and>
    sys_ok plat queues mx mid s' \<and> (ledger_step (nat mx))\<^sup>*\<^sup>* (sys_ledger plat s) (sys_ledger plat s')"
  using assms(4)
proof (rule handler_Inr)
  fix env :: environ and steps
  assume b: "batch_steps (Suc (Suc (Suc n))) plat recs (wk_world k) = Some steps"
    and f: "failures = failed_ids recs steps" "wk_world k' = batch_end (wk_world k) steps"
  obtain s' new where "(sqs_step (Suc (Suc (Suc n))) plat mid)\<^sup>*\<^sup>* s s'" "sy_worker s' = batch_end (sy_worker s) steps"
    "sy_queue s' = sy_queue s - mset (acknowledged_records recs steps) + new"
    using batch_is_a_run [OF b [unfolded assms(3)] assms(2)] by blast
  then show ?thesis
    using b f sqs.ok_steps [OF _ assms(1)] sqs.simulates_steps [OF _ assms(1)] unfolding assms(3) by auto
qed

text \<open>C6. Attempts are bounded, deliveries are not.  However often and in whatever order the queue delivers
  its messages, the tasks are attempted at most \<open>1 + MAX_RETRIES - n_retries\<close> times for each message
  that was waiting: the number of records grows by no more.\<close>

theorem attempts_are_bounded:
  assumes "sys_ok plat queues mx mid s" and "(sqs_step (Suc (Suc (Suc n))) plat mid)\<^sup>*\<^sup>* s s'"
  shows "card (record_ids (sy_worker s')) \<le>
    card (record_ids (sy_worker s)) + (\<Sum>rec \<in># sy_queue s. nat mx - retries_of plat rec + 1)"
proof -
  have "attempts_left (nat mx) (sys_ledger plat s) \<le> (\<Sum>rec \<in># sy_queue s. nat mx - retries_of plat rec + 1)"
    unfolding attempts_left_def
    by (auto simp: sys_ledger_def image_mset.compositionality comp_def open_attempt_def cost_def intro!: sum_mset_mono)
  then show ?thesis
    using sqs.attempts_bounded [OF assms(2,1)] by (simp add: sys_ledger_def)
qed

text \<open>The first outcome stands.  Whatever is delivered again, in whatever order, a record that is there
  is never changed, removed or written again by a later delivery.\<close>

lemma first_outcome_stands:
  assumes "sys_ok plat queues mx mid s" and "(sqs_step (Suc (Suc (Suc n))) plat mid)\<^sup>*\<^sup>* s s'"
    and "j \<in> record_ids (sy_worker s)"
  shows "record_lookup (wd_records (sy_worker s')) j = record_lookup (wd_records (sy_worker s)) j"
  using assms(2)
proof (induction rule: rtranclp_induct)
  case (step t u)
  have ok: "sys_ok plat queues mx mid t" using sqs.ok_steps [OF step(1) assms(1)] .
  have "j \<in> record_ids (sy_worker t)" using step.IH assms(3) by (auto simp: record_ids_iff)
  with step(2) have "record_lookup (wd_records (sy_worker u)) j = record_lookup (wd_records (sy_worker t)) j"
    by (auto elim!: sqs_stepE simp: after_delivery_def delivery_keeps_records [OF ok])
  with step.IH show ?case by simp
qed simp



section \<open>An instance\<close>

text \<open>One message of the flaky task, which fails each time, and two retries.\<close>

definition flaky_mid :: "nat \<Rightarrow> string" where
  "flaky_mid k = replicate (Suc k) CHR ''q''"

definition flaky_record :: sqs_record where
  "flaky_record = \<lparr>messageId = ''first'', body = ''text of flaky''\<rparr>"

definition flaky_system :: "nat sqs_system" where
  "flaky_system = \<lparr>sy_worker = sample_world, sy_queue = {#flaky_record#}, sy_next = 0\<rparr>"

abbreviation flaky_queues :: "(string \<times> queue_config) list" where
  "flaky_queues \<equiv> projr (QUEUES sample_settings)"

lemma flaky_workable: "workable sample_platform flaky_queues 2 (sample_msg ''app.tasks.flaky'' [] 0)"
proof -
  let ?wr = "sample_wrapper ''app.tasks.flaky''" and ?m = "sample_msg ''app.tasks.flaky'' [] 0"
  have st: "steady (wrapper_call (p_type_ok sample_platform) ?wr (msg_kwargs ?m))"
    by (simp add: wrapper_call_def call_function_def flaky_wrapper kwargs_model_validate_def sample_msg_def flaky_fn_def sample_fn_def
        add_row_def res_check_def)
  have q: "map_of flaky_queues (w_queue ?wr) = Some (SQSQueueConfig ''https://sqs.localhost/default'')" by code_simp
  have "message_to_json (p_to_json sample_platform) (?m\<lparr>msg_n_retries := 0\<rparr>) = Inr ''text of flaky''"
    "message_to_json (p_to_json sample_platform) (?m\<lparr>msg_n_retries := 1\<rparr>) = Inr ''text of flaky, first retry''"
    "message_to_json (p_to_json sample_platform) (?m\<lparr>msg_n_retries := 2\<rparr>) = Inr ''text of flaky, second retry''"
    "message_from_json (p_from_json sample_platform) (p_lax_int sample_platform) ''text of flaky'' = Inr (?m\<lparr>msg_n_retries := 0\<rparr>)"
    "message_from_json (p_from_json sample_platform) (p_lax_int sample_platform) ''text of flaky, first retry'' =
       Inr (?m\<lparr>msg_n_retries := 1\<rparr>)"
    "message_from_json (p_from_json sample_platform) (p_lax_int sample_platform) ''text of flaky, second retry'' =
       Inr (?m\<lparr>msg_n_retries := 2\<rparr>)"
    by code_simp+
  moreover have "{0..2} = {0, 1, 2 :: int}" by auto
  ultimately show ?thesis
    using st q flaky_ready [of 0] by (auto simp: workable_def sample_msg_def)
qed

lemma sample_no_ids: "record_ids sample_world = {}"
  by (auto simp: record_ids_iff sample_world_def record_lookup_def)

lemma flaky_system_ok: "sys_ok sample_platform flaky_queues 2 flaky_mid flaky_system"
proof -
  have "queue_mode sample_settings" "MAX_RETRIES sample_settings = Inr 2" "\<not> isl (QUEUES sample_settings)" by code_simp+
  then have c: "calm sample_platform flaky_queues 2"
    by (auto simp: calm_def sample_platform_def)
  have "message_from_json (p_from_json sample_platform) (p_lax_int sample_platform) (body flaky_record) =
      Inr (sample_msg ''app.tasks.flaky'' [] 0)" by code_simp
  then have d: "delivers sample_platform flaky_record (sample_msg ''app.tasks.flaky'' [] 0)" by (simp add: delivers_def)
  have "inj flaky_mid"
  proof (rule injI)
    fix x y assume "flaky_mid x = flaky_mid y"
    then have "length (flaky_mid x) = length (flaky_mid y)" by simp
    then show "x = y" by (simp add: flaky_mid_def)
  qed
  moreover have "flaky_mid k \<noteq> ''first''" for k by (simp add: flaky_mid_def)
  moreover have "idle sample_world" by code_simp
  ultimately show ?thesis
    using c d flaky_workable
    by (auto simp: sys_ok_def flaky_system_def record_ids_def sample_world_def record_lookup_def flaky_record_def)
qed

theorem invocation_refines_the_ledger_witness:
  "\<exists>s' (k' :: nat worker). handler (Suc (Suc (Suc 0))) sample_services (\<lambda>env. sample_platform) [flaky_record] warm_worker = Some (Inr [], k') \<and>
    sy_worker s' = wk_world k' \<and> sys_ok sample_platform flaky_queues 2 flaky_mid s' \<and>
    (ledger_step 2)\<^sup>*\<^sup>* (sys_ledger sample_platform flaky_system) (sys_ledger sample_platform s')"
proof -
  let ?h = "handler (Suc (Suc (Suc 0))) sample_services (\<lambda>env. sample_platform) [flaky_record] warm_worker"
  have h: "?h = Some (Inr [], snd (the ?h))" by code_simp
  have "mset [flaky_record] \<subseteq># sy_queue flaky_system" "wk_world warm_worker = sy_worker flaky_system"
    by (simp_all add: flaky_system_def warm_worker_def)
  from invocation_refines_the_ledger [OF flaky_system_ok this h] h show ?thesis by fastforce
qed

text \<open>The state after the first attempt, which failed and was retried; its message waits still.\<close>

definition flaky_retried :: "nat sqs_system" where
  "flaky_retried = after_delivery flaky_mid flaky_system
     (snd (the (process_record (Suc (Suc (Suc 0))) sample_platform flaky_record sample_world))) {#flaky_record#}"

lemma flaky_retried_step: "sqs_step (Suc (Suc (Suc 0))) sample_platform flaky_mid flaky_system flaky_retried"
proof -
  let ?p = "process_record (Suc (Suc (Suc 0))) sample_platform flaky_record sample_world"
  have "?p = Some (Inr (), snd (the ?p))" by code_simp
  then show ?thesis
    using sqs_step.kept [of flaky_record flaky_system "Suc (Suc (Suc 0))" sample_platform "Inr ()" _ flaky_mid]
    by (simp add: flaky_retried_def flaky_system_def)
qed

theorem attempts_are_bounded_witness:
  "(sqs_step (Suc (Suc (Suc 0))) sample_platform flaky_mid)\<^sup>*\<^sup>* flaky_system flaky_retried \<and>
    card (record_ids (sy_worker flaky_retried)) \<le> 3"
proof -
  have s: "(sqs_step (Suc (Suc (Suc 0))) sample_platform flaky_mid)\<^sup>*\<^sup>* flaky_system flaky_retried"
    using flaky_retried_step by (rule r_into_rtranclp)
  have "retries_of sample_platform flaky_record = 0" by code_simp
  then show ?thesis
    using attempts_are_bounded [OF flaky_system_ok s] s by (simp add: flaky_system_def sample_no_ids)
qed

lemma first_outcome_stands_witness:
  "\<exists>s'. (sqs_step (Suc (Suc (Suc 0))) sample_platform flaky_mid)\<^sup>*\<^sup>* flaky_retried s' \<and> sy_queue s' = {#} \<and>
    map_option tr_status (record_lookup (wd_records (sy_worker s')) ''first'') = Some RETRIED"
proof -
  have ok: "sys_ok sample_platform flaky_queues 2 flaky_mid flaky_retried"
    using sqs.ok_step [OF flaky_system_ok flaky_retried_step] .
  then obtain s' where s: "(sqs_step (Suc (Suc (Suc 0))) sample_platform flaky_mid)\<^sup>*\<^sup>* flaky_retried s'" "sy_queue s' = {#}"
    using sqs.drains [OF ok, of 0] by (auto simp: sys_ledger_def)
  have r: "map_option tr_status (record_lookup (wd_records (snd (the (process_record (Suc (Suc (Suc 0))) sample_platform
      flaky_record sample_world)))) ''first'') = Some RETRIED" by code_simp
  then have "map_option tr_status (record_lookup (wd_records (sy_worker flaky_retried)) ''first'') = Some RETRIED"
    by (simp add: flaky_retried_def after_delivery_def)
  moreover from this have "''first'' \<in> record_ids (sy_worker flaky_retried)" by (auto simp: record_ids_iff)
  ultimately show ?thesis
    using first_outcome_stands [OF ok s(1)] s by (intro exI [of _ s']) simp
qed



end
