(* ===== verification/Concurrency.thy ===== *)
theory Concurrency
  imports Steady_Tasks "HOL-Library.Option_ord"
begin

text \<open>
  Several workers on one database.  SQS may deliver the same message to several workers at the same time;
  what keeps them apart is the row that \<open>get_or_create\<close> creates.  \<open>execute_immediately\<close> is cut into three
  steps: claiming the message, calling its task (with the lock, the transaction and its hooks), and
  writing the outcome.  The steps of any number of workers interleave; a worker may also die between
  them.  Each of the steps is atomic: the first by the primary key, the second by the transaction, the
  third because it writes one row.  The tasks are those that leave the table of records alone:
  \<open>cleanup_task_records\<close>, which deletes old records, is not one of them, and a message delivered again
  after its record has been deleted does run again.
\<close>

section \<open>The three steps of a message\<close>

text \<open>Up to \<open>get_or_create\<close>: \<open>None\<close> for a duplicate, otherwise what the rest of the function uses.\<close>

record 'd claim =
  cl_wrapper :: "'d wrapper"
  cl_soft :: int
  cl_hard :: int
  cl_record :: task_record

definition claim_message :: "'d platform \<Rightarrow> sqs_message \<Rightarrow> string \<Rightarrow> ('d world, 'd claim option) eff" where
  "claim_message plat m message_id =
     eff_seq (task_log (LReceived (msg_task_name m)))
     (eff_bind (eff_res (resolve_wrapper plat (msg_task_name m))) (\<lambda>wr.
      eff_bind (eff_res (resolved_timeouts (p_settings plat) wr)) (\<lambda>(soft_timeout, hard_timeout).
      eff_bind (get_or_create_record plat m message_id) (\<lambda>(r, created).
        if \<not> created then eff_seq (task_log (LSkipDuplicate (tr_status r))) (eff_ret None)
        else eff_ret (Some \<lparr>cl_wrapper = wr, cl_soft = soft_timeout, cl_hard = hard_timeout, cl_record = r\<rparr>)))))"

definition call_claim ::
  "(sqs_task \<Rightarrow> ('d world, unit) eff) \<Rightarrow> 'd platform \<Rightarrow> sqs_message \<Rightarrow> 'd claim \<Rightarrow> ('d world, pyval res) eff" where
  "call_claim execute plat m c =
     eff_bind (singleton_lock plat (cl_wrapper c) (msg_task_name m) (cl_hard c)) (\<lambda>lock.
     eff_attempt (guarded_call execute plat (cl_wrapper c) (msg_kwargs m) lock (cl_soft c) (cl_hard c)))"

definition conclude_claim ::
  "(sqs_task \<Rightarrow> ('d world, unit) eff) \<Rightarrow> 'd platform \<Rightarrow> sqs_message \<Rightarrow> string \<Rightarrow> 'd claim \<Rightarrow> pyval res
   \<Rightarrow> ('d world, unit) eff" where
  "conclude_claim execute plat m message_id c outcome = (case outcome of
       Inl e \<Rightarrow> handle_error execute plat m message_id (cl_wrapper c) (cl_record c) e
     | Inr v \<Rightarrow> eff_bind (finish_with_result plat message_id (cl_record c) v) (\<lambda>r'. task_log (LSucceeded (duration r'))))"

text \<open>One after the other they are the body of \<open>execute_immediately\<close>.\<close>

lemma execute_body_split:
  "execute_body execute plat m i = eff_bind (claim_message plat m i)
     (\<lambda>c. case c of None \<Rightarrow> eff_ret ()
        | Some c \<Rightarrow> eff_bind (call_claim execute plat m c) (conclude_claim execute plat m i c))"
proof (rule ext)
  fix w
  show "execute_body execute plat m i w = eff_bind (claim_message plat m i)
     (\<lambda>c. case c of None \<Rightarrow> eff_ret ()
        | Some c \<Rightarrow> eff_bind (call_claim execute plat m c) (conclude_claim execute plat m i c)) w"
    by (auto simp: execute_body_def run_task_def claim_message_def call_claim_def conclude_claim_def eff_simps task_log_def
        split: option.split sum.split prod.split)
qed

section \<open>The fleet\<close>

text \<open>What a worker is in the middle of: a message it has claimed, or one whose task has been called, with
  the outcome.\<close>

datatype (dead 'd) job =
    Claimed (job_msg: sqs_message) (job_id: string) (job_claim: "'d claim")
  | Called (job_msg: sqs_message) (job_id: string) (job_claim: "'d claim") (job_outcome: "pyval res")

text \<open>The database is shared; each worker has the rest of its world.  \<open>fl_started\<close> lists the ids whose task
  has been called, in order.  Between the steps of the workers time passes and other processes write the
  rows of the application: the step \<open>outside\<close> puts any rows into the database and any world into a worker, as
  long as no transaction is open in it.\<close>

record 'd fleet =
  fl_db :: "'d database"
  fl_worlds :: "nat \<Rightarrow> 'd world"
  fl_jobs :: "nat \<Rightarrow> 'd job option"
  fl_started :: "string list"

definition fleet_view :: "'d fleet \<Rightarrow> nat \<Rightarrow> 'd world" where
  "fleet_view f k = (fl_worlds f k)\<lparr>wd_db := fl_db f\<rparr>"

text \<open>Worker \<open>k\<close> has made a step of its own, to the world \<open>w\<close> and the job \<open>j\<close>.\<close>

definition fleet_set :: "'d fleet \<Rightarrow> nat \<Rightarrow> 'd world \<Rightarrow> 'd job option \<Rightarrow> 'd fleet" where
  "fleet_set f k w j = f\<lparr>fl_db := wd_db w, fl_worlds := (fl_worlds f)(k := w), fl_jobs := (fl_jobs f)(k := j)\<rparr>"

definition claimed :: "sqs_message \<Rightarrow> string \<Rightarrow> 'd claim option res \<Rightarrow> 'd job option" where
  "claimed m i out = (case out of Inr (Some c) \<Rightarrow> Some (Claimed m i c) | _ \<Rightarrow> None)"

definition called :: "sqs_message \<Rightarrow> string \<Rightarrow> 'd claim \<Rightarrow> pyval res res \<Rightarrow> 'd job option" where
  "called m i c out = (case out of Inr outcome \<Rightarrow> Some (Called m i c outcome) | Inl e \<Rightarrow> None)"

inductive fleet_step :: "nat \<Rightarrow> 'd platform \<Rightarrow> 'd fleet \<Rightarrow> 'd fleet \<Rightarrow> bool" for n plat where
  claim: "fl_jobs f k = None \<Longrightarrow> claim_message plat m i ((fleet_view f k)\<lparr>wd_log_id := Some i\<rparr>) = Some (out, w') \<Longrightarrow>
    fleet_step n plat f (fleet_set f k w' (claimed m i out))"
| call: "fl_jobs f k = Some (Claimed m i c) \<Longrightarrow> call_claim (execute_task n plat) plat m c (fleet_view f k) = Some (out, w') \<Longrightarrow>
    fleet_step n plat f ((fleet_set f k w' (called m i c out))\<lparr>fl_started := fl_started f @ [i]\<rparr>)"
| conclude: "fl_jobs f k = Some (Called m i c outcome) \<Longrightarrow>
    conclude_claim (execute_task n plat) plat m i c outcome (fleet_view f k) = Some (out, w') \<Longrightarrow>
    fleet_step n plat f (fleet_set f k (w'\<lparr>wd_log_id := None\<rparr>) None)"
| die: "fl_jobs f k = Some j \<Longrightarrow> fleet_step n plat f (f\<lparr>fl_jobs := (fl_jobs f)(k := None)\<rparr>)"
| outside: "(\<forall>k. idle (worlds k)) \<Longrightarrow>
    fleet_step n plat f (f\<lparr>fl_db := (fl_db f)\<lparr>db_rows := rows\<rparr>, fl_worlds := worlds\<rparr>)"

section \<open>What a step does to the records\<close>

abbreviation db_record :: "'d database \<Rightarrow> string \<Rightarrow> task_record option" where
  "db_record db i \<equiv> record_lookup (db_records db) i"

definition db_ids :: "'d database \<Rightarrow> string set" where
  "db_ids db = dom (record_lookup (db_records db))"

text \<open>From outside a transaction to outside a transaction: with the same records, or with at most the record
  of \<open>i\<close> changed, to one that is finished.\<close>

definition records_stay :: "'d world \<Rightarrow> 'd world \<Rightarrow> bool" where
  "records_stay w w' \<longleftrightarrow> (idle w \<longrightarrow> idle w' \<and> wd_records w' = wd_records w)"

definition settles :: "string \<Rightarrow> 'd world \<Rightarrow> 'd world \<Rightarrow> bool" where
  "settles i w w' \<longleftrightarrow> (idle w \<longrightarrow> idle w' \<and> (\<forall>j. db_record (wd_db w') j = db_record (wd_db w) j \<or>
     j = i \<and> db_record (wd_db w) i \<noteq> None \<and> (\<exists>r. db_record (wd_db w') i = Some r \<and> terminal (tr_status r))))"

interpretation stay: eff_relation records_stay
  by unfold_locales (auto simp: records_stay_def)

lemma settles_trans: "settles i w1 w2 \<Longrightarrow> settles i w2 w3 \<Longrightarrow> settles i w1 w3"
  unfolding settles_def by (metis option.distinct(1))

interpretation settling: eff_relation "settles i"
  by unfold_locales (simp add: settles_def, erule settles_trans)

lemma stay_settles: "eff_keeps records_stay m \<Longrightarrow> eff_keeps (settles i) m"
  by (auto simp: eff_keeps_def records_stay_def settles_def)

lemma stay_elementary:
  "eff_keeps records_stay (task_log l)" "eff_keeps records_stay (uniform plat)"
  "eff_keeps records_stay (singleton_lock plat wr name hard)"
  by (auto simp: eff_keeps_def records_stay_def idle_def task_log_Some uniform_def singleton_lock_def eff_simps Let_def
      split: option.split_asm if_split_asm)

lemma stay_execute_task: "\<not> EAGER (p_settings plat) \<Longrightarrow> eff_keeps records_stay (execute_task n plat t)"
  by (auto simp: eff_keeps_def records_stay_def idle_def dest!: execute_task_sends dest: sends_only_simps)

lemma stay_on_commit: "\<not> EAGER (p_settings plat) \<Longrightarrow> eff_keeps records_stay (on_commit (execute_task n plat) t)"
  using stay_execute_task [of plat n t]
  by (auto simp: eff_keeps_def on_commit_def records_stay_def idle_def split: if_split_asm)

lemma settles_finish:
  "terminal s \<Longrightarrow> eff_keeps (settles i) (finish_with_traceback plat i r s e)"
  "eff_keeps (settles i) (finish_with_result plat i r v)"
  by (auto simp: eff_keeps_def settles_def idle_def record_lookup_update with_traceback_def with_result_def terminal_def
      elim!: finish_with_traceback_cases finish_with_result_cases split: if_splits)

lemma settles_conclude:
  assumes ne: "\<not> EAGER (p_settings plat)"
  shows "eff_keeps (settles i) (conclude_claim (execute_task n plat) plat m i c outcome)"
proof -
  have t: "terminal SUCCEEDED" "terminal FAILED" "terminal RETRIED" by (simp_all add: terminal_def)
  note k = settling.keeps_bind settling.keeps_seq settling.keeps_pure settles_finish(2) settles_finish(1) [OF t(1)]
    settles_finish(1) [OF t(2)] settles_finish(1) [OF t(3)] stay_elementary [THEN stay_settles] stay_on_commit [OF ne, THEN stay_settles]
  show ?thesis
    unfolding conclude_claim_def handle_error_def handle_retry_def
    by (auto intro!: k split: sum.split)
qed

text \<open>Code that leaves the table of records alone; it may enqueue tasks.\<close>

primrec record_free :: "'d prog \<Rightarrow> bool" where
  "record_free (Return v) \<longleftrightarrow> True"
| "record_free (Raise e) \<longleftrightarrow> True"
| "record_free (Work n k h) \<longleftrightarrow> record_free k \<and> (\<forall>e. record_free (h e))"
| "record_free (Query upd k) \<longleftrightarrow>
     (\<forall>now db. db_records (upd now db) = db_records db) \<and> (\<forall>now db. record_free (k now db))"
| "record_free (Enqueue t k) \<longleftrightarrow> record_free k"
| "record_free (Submit job k) \<longleftrightarrow> (\<forall>r. record_free (k r))"

interpretation free_code: task_code "\<lambda>w w'. wd_records w' = wd_records w" record_free
  by unfold_locales (simp_all add: add_event_def)

lemma stay_guarded:
  assumes ne: "\<not> EAGER (p_settings plat)" and rf: "record_free (wrapper_call (p_type_ok plat) wr kw)"
  shows "eff_keeps records_stay (guarded_call (execute_task n plat) plat wr kw lock soft hard)"
proof (rule eff_keepsI)
  fix w out w'
  assume g: "guarded_call (execute_task n plat) plat wr kw lock soft hard w = Some (out, w')"
  have "eff_keeps (undisturbed plat) (execute_task n plat t)" for t
    using worker.keeps_execute [of plat n] by blast
  then have u: "undisturbed plat w w'" using guarded_call_undisturbed g by (blast dest: eff_keepsD)
  have "wd_records w' = wd_records w" if "idle w"
    using that g
  proof (cases rule: guarded_call_cases)
    case (Committed v w2 rh w3)
    have fr: "wd_frames (task_start plat lock soft hard w) \<noteq> []" by (simp add: task_start_def)
    have r: "wd_records w2 = wd_records w" using free_code.run_keeps [OF rf fr Committed(2)] by simp
    have "records_stay (task_end plat w w2) w3"
      using stay.keeps_each [of "execute_task n plat", OF stay_execute_task [OF ne]] Committed(4) by (rule eff_keepsD)
    with Committed(5) r show ?thesis by (simp add: records_stay_def idle_def)
  qed auto
  with u show "records_stay w w'" by (simp add: records_stay_def undisturbed_def)
qed

lemma stay_call:
  assumes "\<not> EAGER (p_settings plat)" and "record_free (wrapper_call (p_type_ok plat) (cl_wrapper c) (msg_kwargs m))"
  shows "eff_keeps records_stay (call_claim (execute_task n plat) plat m c)"
  unfolding call_claim_def
  by (intro stay.keeps_bind stay.keeps_attempt stay_elementary stay_guarded [OF assms])

text \<open>A claim that succeeds created the row; any other leaves the records alone.\<close>

lemma claim_effect:
  assumes "claim_message plat m i w = Some (out, w')" and "idle w"
  shows "idle w' \<and> (case claimed m i out of
      Some j \<Rightarrow> (\<exists>c r. j = Claimed m i c \<and> resolve_wrapper plat (msg_task_name m) = Inr (cl_wrapper c) \<and>
        db_record (wd_db w) i = None \<and> tr_status r = RUNNING \<and>
        (\<forall>k. db_record (wd_db w') k = (if k = i then Some r else db_record (wd_db w) k)))
    | None \<Rightarrow> wd_records w' = wd_records w)"
  using assms
  by (auto simp: claim_message_def get_or_create_record_def eff_simps task_log_def claimed_def idle_def Let_def
      set_records_def record_lookup_insert split: option.splits sum.splits prod.splits if_splits)

section \<open>The invariant\<close>

definition all_record_free :: "'d platform \<Rightarrow> bool" where
  "all_record_free plat \<longleftrightarrow>
     (\<forall>name wr kw. resolve_wrapper plat name = Inr wr \<longrightarrow> record_free (wrapper_call (p_type_ok plat) wr kw))"

text \<open>\<open>D\<close>: the ids that had a record at the start.  The message a worker is in the middle of has a RUNNING
  record that was not there at the start, and its task is not called a second time.\<close>

definition job_ok :: "'d platform \<Rightarrow> string set \<Rightarrow> 'd fleet \<Rightarrow> 'd job \<Rightarrow> bool" where
  "job_ok plat D f j \<longleftrightarrow> map_option tr_status (db_record (fl_db f) (job_id j)) = Some RUNNING \<and> job_id j \<notin> D \<and>
     resolve_wrapper plat (msg_task_name (job_msg j)) = Inr (cl_wrapper (job_claim j)) \<and>
     ((case j of Claimed m i c \<Rightarrow> True | Called m i c out \<Rightarrow> False) \<longrightarrow> job_id j \<notin> set (fl_started f))"

definition fleet_ok :: "'d platform \<Rightarrow> string set \<Rightarrow> 'd fleet \<Rightarrow> bool" where
  "fleet_ok plat D f \<longleftrightarrow> (\<forall>k. idle (fl_worlds f k)) \<and> D \<subseteq> db_ids (fl_db f) \<and>
     set (fl_started f) \<subseteq> db_ids (fl_db f) - D \<and> distinct (fl_started f) \<and>
     (\<forall>k j. fl_jobs f k = Some j \<longrightarrow> job_ok plat D f j) \<and>
     (\<forall>k k' j j'. fl_jobs f k = Some j \<longrightarrow> fl_jobs f k' = Some j' \<longrightarrow> job_id j = job_id j' \<longrightarrow> k = k')"

lemma fleet_view_simps [simp]:
  "wd_records (fleet_view f k) = db_records (fl_db f)" "idle (fleet_view f k) = idle (fl_worlds f k)"
  "idle (w\<lparr>wd_log_id := x\<rparr>) = idle w" "wd_db (fleet_view f k) = fl_db f"
  by (simp_all add: fleet_view_def idle_def)

lemma fleet_set_simps [simp]:
  "fl_db (fleet_set f k w j) = wd_db w" "fl_worlds (fleet_set f k w j) = (fl_worlds f)(k := w)"
  "fl_jobs (fleet_set f k w j) = (fl_jobs f)(k := j)" "fl_started (fleet_set f k w j) = fl_started f"
  by (simp_all add: fleet_set_def)

text \<open>Some worker is in the middle of the message \<open>i\<close>.\<close>

definition held :: "'d fleet \<Rightarrow> string \<Rightarrow> bool" where
  "held f i \<longleftrightarrow> (\<exists>k j. fl_jobs f k = Some j \<and> job_id j = i)"

text \<open>A step changes at most the record of one id: one that had none, and is claimed, or one that is RUNNING
  and held.\<close>

definition step_effect :: "'d fleet \<Rightarrow> 'd fleet \<Rightarrow> string \<Rightarrow> bool" where
  "step_effect f f' i \<longleftrightarrow> db_record (fl_db f') i = db_record (fl_db f) i \<or>
     db_record (fl_db f) i = None \<and> map_option tr_status (db_record (fl_db f') i) = Some RUNNING \<or>
     held f i \<and> map_option tr_status (db_record (fl_db f) i) = Some RUNNING \<and>
       (\<exists>r. db_record (fl_db f') i = Some r \<and> terminal (tr_status r))"

lemma heldI: "fl_jobs f k = Some j \<Longrightarrow> job_id j = i \<Longrightarrow> held f i"
  by (auto simp: held_def)

lemma db_ids_iff: "i \<in> db_ids db \<longleftrightarrow> db_record db i \<noteq> None"
  by (auto simp: db_ids_def)

text \<open>The parts of the invariant a step uses and restores.\<close>

lemma fleet_okD:
  assumes "fleet_ok plat D f" and "fl_jobs f k = Some j"
  shows "job_ok plat D f j" and "idle (fl_worlds f k)"
    and "\<And>k' j'. fl_jobs f k' = Some j' \<Longrightarrow> k' \<noteq> k \<Longrightarrow> job_id j' \<noteq> job_id j"
  using assms unfolding fleet_ok_def by blast+

lemma fleet_set_ok:
  assumes ok: "fleet_ok plat D f" and "idle w"
    and same: "\<And>j. j \<noteq> i \<Longrightarrow> db_record (wd_db w) j = db_record (fl_db f) j"
    and stays: "db_record (fl_db f) i \<noteq> None \<Longrightarrow> db_record (wd_db w) i \<noteq> None"
    and others: "\<And>k' j'. jo \<noteq> None \<or> db_record (wd_db w) i \<noteq> db_record (fl_db f) i \<Longrightarrow>
      fl_jobs f k' = Some j' \<Longrightarrow> k' \<noteq> k \<Longrightarrow> job_id j' \<noteq> i"
    and job: "\<And>j. jo = Some j \<Longrightarrow> job_id j = i \<and> job_ok plat D (fleet_set f k w jo) j"
  shows "fleet_ok plat D (fleet_set f k w jo)"
proof -
  have ids: "db_ids (fl_db f) \<subseteq> db_ids (wd_db w)"
    using same stays by (auto simp: db_ids_iff) (metis not_Some_eq)
  have kept: "job_ok plat D (fleet_set f k w jo) j'" if "fl_jobs f k' = Some j'" "k' \<noteq> k" for k' j'
  proof -
    have "db_record (wd_db w) (job_id j') = db_record (fl_db f) (job_id j')"
      using same others [OF _ that] by (cases "job_id j' = i") auto
    then show ?thesis using fleet_okD(1) [OF ok that(1)] by (simp add: job_ok_def)
  qed
  have "k1 = k2" if "((fl_jobs f)(k := jo)) k1 = Some j1" "((fl_jobs f)(k := jo)) k2 = Some j2" "job_id j1 = job_id j2" for k1 k2 j1 j2
    using that others [of k1 j1] others [of k2 j2] job [of j1] job [of j2] fleet_okD(3) [OF ok, of k1 j1 k2 j2]
    by (auto split: if_split_asm)
  moreover have "job_ok plat D (fleet_set f k w jo) j'" if "((fl_jobs f)(k := jo)) k' = Some j'" for k' j'
    using that kept job by (auto split: if_split_asm)
  moreover have "D \<subseteq> db_ids (wd_db w)" "set (fl_started f) \<subseteq> db_ids (wd_db w) - D"
    "distinct (fl_started f)" "idle (((fl_worlds f)(k := w)) k')" for k'
    using ok \<open>idle w\<close> ids unfolding fleet_ok_def by auto
  ultimately show ?thesis unfolding fleet_ok_def fleet_set_simps by blast
qed

lemma fleet_drop_ok: "fleet_ok plat D f \<Longrightarrow> fleet_ok plat D (f\<lparr>fl_jobs := (fl_jobs f)(k := None)\<rparr>)"
  by (auto simp: fleet_ok_def job_ok_def split: if_split_asm)

lemma fleet_start_ok:
  assumes "fleet_ok plat D f" and "fl_jobs f k = Some (Claimed m i c)"
  shows "fleet_ok plat D (f\<lparr>fl_jobs := (fl_jobs f)(k := None), fl_started := fl_started f @ [i]\<rparr>)"
  using fleet_okD [OF assms] assms(1)
  by (auto simp: fleet_ok_def job_ok_def db_ids_iff split: if_split_asm)

text \<open>A step keeps the invariant, changes no other record, and takes up no message that has a record.\<close>

definition step_ok :: "'d platform \<Rightarrow> string set \<Rightarrow> 'd fleet \<Rightarrow> 'd fleet \<Rightarrow> bool" where
  "step_ok plat D f f' \<longleftrightarrow> fleet_ok plat D f' \<and> (\<forall>i. step_effect f f' i) \<and>
     (\<forall>i. db_record (fl_db f) i \<noteq> None \<longrightarrow> \<not> held f i \<longrightarrow>
        \<not> held f' i \<and> (i \<in> set (fl_started f') \<longleftrightarrow> i \<in> set (fl_started f)))"

lemma claim_ok:
  assumes ok: "fleet_ok plat D f" and j: "fl_jobs f k = None"
    and x: "claim_message plat m i ((fleet_view f k)\<lparr>wd_log_id := Some i\<rparr>) = Some (out, w')"
  shows "step_ok plat D f (fleet_set f k w' (claimed m i out))"
proof -
  have "idle (fl_worlds f k)" using ok by (simp add: fleet_ok_def)
  note e = claim_effect [OF x, unfolded fleet_view_simps, OF this]
  show ?thesis
  proof (cases "claimed m i out")
    case None
    with e have r: "idle w'" "db_records (wd_db w') = db_records (fl_db f)" by simp_all
    then have "fleet_ok plat D (fleet_set f k w' None)" by (intro fleet_set_ok [OF ok, of _ i]) auto
    with None r j show ?thesis by (auto simp: step_ok_def step_effect_def held_def)
  next
    case (Some jb)
    then obtain c r where r: "jb = Claimed m i c" "resolve_wrapper plat (msg_task_name m) = Inr (cl_wrapper c)"
      "db_record (fl_db f) i = None" "tr_status r = RUNNING" "idle w'"
      "\<And>k. db_record (wd_db w') k = (if k = i then Some r else db_record (fl_db f) k)"
      using e by auto
    have o: "job_id j' \<noteq> i" if "fl_jobs f k' = Some j'" for k' j'
      using fleet_okD(1) [OF ok that] r(3) by (auto simp: job_ok_def)
    have n: "i \<notin> D" "i \<notin> set (fl_started f)" using ok r(3) by (auto simp: fleet_ok_def db_ids_iff)
    have "fleet_ok plat D (fleet_set f k w' (Some jb))"
      using r o n by (intro fleet_set_ok [OF ok, of _ i]) (auto simp: job_ok_def)
    with Some r show ?thesis by (auto simp: step_ok_def step_effect_def held_def split: if_split_asm)
  qed
qed

lemma call_ok:
  assumes ne: "\<not> EAGER (p_settings plat)" and st: "all_record_free plat"
    and ok: "fleet_ok plat D f" and j: "fl_jobs f k = Some (Claimed m i c)"
    and x: "call_claim (execute_task n plat) plat m c (fleet_view f k) = Some (out, w')"
  shows "step_ok plat D f ((fleet_set f k w' (called m i c out))\<lparr>fl_started := fl_started f @ [i]\<rparr>)"
proof -
  note o = fleet_okD [OF ok j]
  have "resolve_wrapper plat (msg_task_name m) = Inr (cl_wrapper c)" using o(1) by (simp add: job_ok_def)
  then have "record_free (wrapper_call (p_type_ok plat) (cl_wrapper c) (msg_kwargs m))"
    using st by (simp add: all_record_free_def)
  then have "records_stay (fleet_view f k) w'" using stay_call [OF ne] x by (blast dest: eff_keepsD)
  with o(2) have r: "idle w'" "db_records (wd_db w') = db_records (fl_db f)" by (simp_all add: records_stay_def)
  let ?f = "f\<lparr>fl_jobs := (fl_jobs f)(k := None), fl_started := fl_started f @ [i]\<rparr>"
  have "fleet_ok plat D (fleet_set ?f k w' (called m i c out))"
    using r o by (intro fleet_set_ok [OF fleet_start_ok [OF ok j], of _ i])
      (auto simp: job_ok_def called_def split: sum.split_asm)
  moreover have "fleet_set ?f k w' jo = (fleet_set f k w' jo)\<lparr>fl_started := fl_started f @ [i]\<rparr>" for jo
    by (simp add: fleet_set_def)
  ultimately show ?thesis
    using r(2) heldI [OF j, of i] unfolding step_ok_def step_effect_def fleet_set_simps
    by (auto simp: held_def called_def split: sum.split_asm if_split_asm)
qed

lemma conclude_ok:
  assumes ne: "\<not> EAGER (p_settings plat)" and ok: "fleet_ok plat D f" and j: "fl_jobs f k = Some (Called m i c outcome)"
    and x: "conclude_claim (execute_task n plat) plat m i c outcome (fleet_view f k) = Some (out, w')"
  shows "step_ok plat D f (fleet_set f k (w'\<lparr>wd_log_id := None\<rparr>) None)"
proof -
  note o = fleet_okD [OF ok j]
  have "settles i (fleet_view f k) w'" using settles_conclude [OF ne] x by (rule eff_keepsD)
  with o(2) have r: "idle w'" "\<And>j. db_record (wd_db w') j = db_record (fl_db f) j \<or>
     j = i \<and> db_record (fl_db f) i \<noteq> None \<and> (\<exists>r. db_record (wd_db w') i = Some r \<and> terminal (tr_status r))"
    unfolding settles_def fleet_view_simps by blast+
  have "fleet_ok plat D (fleet_set f k (w'\<lparr>wd_log_id := None\<rparr>) None)"
  proof (rule fleet_set_ok [OF ok, of _ i])
    show "idle (w'\<lparr>wd_log_id := None\<rparr>)" using r(1) by simp
    show "db_record (wd_db (w'\<lparr>wd_log_id := None\<rparr>)) j = db_record (fl_db f) j" if "j \<noteq> i" for j
      using r(2) [of j] that by simp
    show "db_record (wd_db (w'\<lparr>wd_log_id := None\<rparr>)) i \<noteq> None" if "db_record (fl_db f) i \<noteq> None"
      using r(2) [of i] that by auto
  qed (use o(3) in auto)
  moreover have "held f i" "map_option tr_status (db_record (fl_db f) i) = Some RUNNING"
    using heldI [OF j] o(1) by (auto simp: job_ok_def)
  ultimately show ?thesis
    using r(2) unfolding step_ok_def step_effect_def fleet_set_simps
    by (simp add: held_def) blast
qed

lemma fleet_step_ok:
  assumes "\<not> EAGER (p_settings plat)" and "all_record_free plat"
  shows "fleet_step n plat f f' \<Longrightarrow> fleet_ok plat D f \<Longrightarrow> step_ok plat D f f'"
proof (induction rule: fleet_step.induct)
  case (die f k j)
  then show ?case
    by (auto simp: step_ok_def step_effect_def held_def intro: fleet_drop_ok split: if_split_asm)
next
  case (outside worlds f rows)
  then show ?case by (simp add: step_ok_def step_effect_def held_def fleet_ok_def job_ok_def db_ids_def)
qed (auto intro: claim_ok call_ok [OF assms] conclude_ok [OF assms(1)])

section \<open>The properties\<close>

definition fleet_start :: "'d fleet \<Rightarrow> bool" where
  "fleet_start f \<longleftrightarrow> fl_jobs f = (\<lambda>k. None) \<and> fl_started f = [] \<and> (\<forall>k. idle (fl_worlds f k))"

lemma fleet_start_okay: "fleet_start f \<Longrightarrow> fleet_ok plat (db_ids (fl_db f)) f"
  by (simp add: fleet_start_def fleet_ok_def)

lemma fleet_run_ok:
  assumes "\<not> EAGER (p_settings plat)" and "all_record_free plat" and "fleet_ok plat D f"
  shows "(fleet_step n plat)\<^sup>*\<^sup>* f g \<Longrightarrow> fleet_ok plat D g"
proof (induction rule: rtranclp_induct)
  case (step g h)
  then show ?case using fleet_step_ok [OF assms(1,2)] by (auto simp: step_ok_def)
qed (rule assms(3))




section \<open>An instance\<close>

text \<open>Two workers get the same message of the flaky task at the same time; a third dies with another one.\<close>

lemma greet_loop_free: "record_free (greet_loop k p) = record_free p"
  by (induction k) simp_all

lemma wrapper_free:
  assumes "LambdaTaskWrapper f opts = Inr wr" and "\<forall>kw. record_free (fn_code f kw)"
  shows "record_free (wrapper_call ty wr kw)"
  using LambdaTaskWrapper_ok [OF assms(1)] assms(2) by (simp add: wrapper_call_code [of record_free])

lemma sample_record_free: "all_record_free sample_platform"
proof -
  have f: "\<forall>kw. record_free (fn_code greet_fn kw)" "\<forall>kw. record_free (fn_code crash_fn kw)" "\<forall>kw. record_free (fn_code flaky_fn kw)"
    "\<forall>kw. record_free (fn_code order_fn kw)" "\<forall>kw. record_free (fn_code report_fn kw)"
    by (simp_all add: greet_fn_def crash_fn_def flaky_fn_def order_fn_def report_fn_def sample_fn_def add_row_def
        greet_loop_free split: option.split pyval.split)
  show ?thesis
    unfolding all_record_free_def
  proof (intro allI impI)
    fix name kw and wr :: "nat wrapper"
    assume "resolve_wrapper sample_platform name = Inr wr"
    then have "greet = Inr wr \<or> LambdaTaskWrapper crash_fn default_options = Inr wr \<or>
        LambdaTaskWrapper flaky_fn flaky_options = Inr wr \<or> LambdaTaskWrapper order_fn default_options = Inr wr \<or>
        LambdaTaskWrapper report_fn (default_options\<lparr>opt_singleton := True, opt_retry_singleton := False\<rparr>) = Inr wr"
      by (simp add: resolve_wrapper_def sample_platform_def sample_import_def res_bind_def split: sum.split_asm imported.split_asm if_split_asm)
    then show "record_free (wrapper_call (p_type_ok sample_platform) wr kw)"
      using wrapper_free f unfolding greet_def by blast
  qed
qed

definition flaky_msg :: sqs_message where
  "flaky_msg = sample_msg ''app.tasks.flaky'' [] 0"

definition duel :: "nat fleet" where
  "duel = \<lparr>fl_db = wd_db sample_world, fl_worlds = (\<lambda>k. sample_world), fl_jobs = (\<lambda>k. None), fl_started = []\<rparr>"

definition after_claim :: "nat fleet \<Rightarrow> nat \<Rightarrow> nat fleet" where
  "after_claim f k =
     (let r = the (claim_message sample_platform flaky_msg ''id'' ((fleet_view f k)\<lparr>wd_log_id := Some ''id''\<rparr>)) in
      fleet_set f k (snd r) (claimed flaky_msg ''id'' (fst r)))"

definition after_call :: "nat fleet \<Rightarrow> nat \<Rightarrow> nat fleet" where
  "after_call f k = (case fl_jobs f k of Some (Claimed m i c) \<Rightarrow>
     (let r = the (call_claim (execute_task 1 sample_platform) sample_platform m c (fleet_view f k)) in
      (fleet_set f k (snd r) (called m i c (fst r)))\<lparr>fl_started := fl_started f @ [i]\<rparr>) | _ \<Rightarrow> f)"

definition after_conclude :: "nat fleet \<Rightarrow> nat \<Rightarrow> nat fleet" where
  "after_conclude f k = (case fl_jobs f k of Some (Called m i c out) \<Rightarrow>
     (let r = the (conclude_claim (execute_task 1 sample_platform) sample_platform m i c out (fleet_view f k)) in
      fleet_set f k ((snd r)\<lparr>wd_log_id := None\<rparr>) None) | _ \<Rightarrow> f)"

lemma after_claim_step:
  assumes "Option.is_none (fl_jobs f k)"
    and "\<not> Option.is_none (claim_message sample_platform flaky_msg ''id'' ((fleet_view f k)\<lparr>wd_log_id := Some ''id''\<rparr>))"
  shows "fleet_step 1 sample_platform f (after_claim f k)"
  using assms fleet_step.claim [of f k sample_platform flaky_msg "''id''"]
  by (auto simp: after_claim_def Option.is_none_def Let_def)

lemma after_call_step:
  assumes "case fl_jobs f k of Some (Claimed m i c) \<Rightarrow>
      \<not> Option.is_none (call_claim (execute_task 1 sample_platform) sample_platform m c (fleet_view f k)) | _ \<Rightarrow> False"
  shows "fleet_step 1 sample_platform f (after_call f k)"
  using assms fleet_step.call [of f k _ _ _ 1 sample_platform]
  by (auto simp: after_call_def Option.is_none_def Let_def split: option.split_asm job.split_asm simp del: execute_task.simps)

lemma after_conclude_step:
  assumes "case fl_jobs f k of Some (Called m i c out) \<Rightarrow>
      \<not> Option.is_none (conclude_claim (execute_task 1 sample_platform) sample_platform m i c out (fleet_view f k)) | _ \<Rightarrow> False"
  shows "fleet_step 1 sample_platform f (after_conclude f k)"
  using assms fleet_step.conclude [of f k _ _ _ _ 1 sample_platform]
  by (auto simp: after_conclude_def Option.is_none_def Let_def split: option.split_asm job.split_asm simp del: execute_task.simps)

lemma duel_start: "fleet_start duel" "\<not> EAGER (p_settings sample_platform)"
proof -
  have "idle sample_world" by code_simp
  then show "fleet_start duel" by (simp add: fleet_start_def duel_def)
  show "\<not> EAGER (p_settings sample_platform)" by code_simp
qed

text \<open>Both workers get the message, the first claims it and the second skips it, the first calls the task and
  writes the outcome.\<close>

definition duel_claimed :: "nat fleet" where
  "duel_claimed = after_claim (after_claim duel 0) 1"

definition duel_over :: "nat fleet" where
  "duel_over = after_conclude (after_call duel_claimed 0) 0"

lemma duel_steps:
  "(fleet_step 1 sample_platform)\<^sup>*\<^sup>* duel duel_claimed" "(fleet_step 1 sample_platform)\<^sup>*\<^sup>* duel_claimed duel_over"
proof -
  have "fleet_step 1 sample_platform duel (after_claim duel 0)"
    "fleet_step 1 sample_platform (after_claim duel 0) duel_claimed"
    unfolding duel_claimed_def by (rule after_claim_step; code_simp)+
  then show "(fleet_step 1 sample_platform)\<^sup>*\<^sup>* duel duel_claimed" by (meson rtranclp.rtrancl_refl rtranclp.rtrancl_into_rtrancl)
  have "fleet_step 1 sample_platform duel_claimed (after_call duel_claimed 0)" by (rule after_call_step) code_simp
  moreover have "fleet_step 1 sample_platform (after_call duel_claimed 0) duel_over"
    unfolding duel_over_def by (rule after_conclude_step) code_simp
  ultimately show "(fleet_step 1 sample_platform)\<^sup>*\<^sup>* duel_claimed duel_over" by (meson rtranclp.rtrancl_refl rtranclp.rtrancl_into_rtrancl)
qed



text \<open>The first worker dies after it has claimed the message, and a third one gets it again.\<close>

definition duel_stranded :: "nat fleet" where
  "duel_stranded = duel_claimed\<lparr>fl_jobs := (fl_jobs duel_claimed)(0 := None)\<rparr>"


end
