(* ===== verification/Task_Trees.thy ===== *)
theory Task_Trees
  imports Delivery_System Concurrency "HOL-Library.Multiset_Order"
begin

text \<open>
  Tasks that enqueue tasks.  A message leads to others: its next attempt, and the tasks its code enqueues.
  As long as these chains are finite, which a rank on the messages says, the system of \<open>Delivery_System\<close>
  (one worker, a queue that delivers in any order) still empties its queue.
\<close>

section \<open>What a task enqueues\<close>

primrec enqueues_only :: "(sqs_task \<Rightarrow> bool) \<Rightarrow> 'd prog \<Rightarrow> bool" where
  "enqueues_only P (Return v) \<longleftrightarrow> True"
| "enqueues_only P (Raise e) \<longleftrightarrow> True"
| "enqueues_only P (Work n k h) \<longleftrightarrow> enqueues_only P k \<and> (\<forall>e. enqueues_only P (h e))"
| "enqueues_only P (Query upd k) \<longleftrightarrow> (\<forall>now db. enqueues_only P (k now db))"
| "enqueues_only P (Enqueue t k) \<longleftrightarrow> P t \<and> enqueues_only P k"
| "enqueues_only P (Submit job k) \<longleftrightarrow> (\<forall>r. enqueues_only P (k r))"

definition hooks_all :: "(sqs_task \<Rightarrow> bool) \<Rightarrow> 'd world \<Rightarrow> 'd world \<Rightarrow> bool" where
  "hooks_all P w w' \<longleftrightarrow> (list_all P (wd_hooks w) \<longrightarrow> list_all P (wd_hooks w'))"

interpretation enqueueing_code: task_code "hooks_all P" "enqueues_only P" for P
  by unfold_locales (simp_all add: hooks_all_def add_event_def)

section \<open>Ranked messages\<close>

text \<open>A body that reads back as a message of \<open>G\<close> of a smaller rank.\<close>

definition good_body :: "'d platform \<Rightarrow> (sqs_message \<Rightarrow> nat) \<Rightarrow> sqs_message set \<Rightarrow> nat \<Rightarrow> string \<Rightarrow> bool" where
  "good_body plat rank G k b \<longleftrightarrow>
     (\<exists>m \<in> G. message_from_json (p_from_json plat) (p_lax_int plat) b = Inr m \<and> rank m < k)"

definition good_task ::
  "'d platform \<Rightarrow> (string \<times> queue_config) list \<Rightarrow> (sqs_message \<Rightarrow> nat) \<Rightarrow> sqs_message set \<Rightarrow> nat \<Rightarrow> sqs_task \<Rightarrow> bool" where
  "good_task plat queues rank G k t \<longleftrightarrow>
     (\<exists>url b. map_of queues (tk_queue t) = Some (SQSQueueConfig url) \<and>
        message_to_json (p_to_json plat) (tk_message t) = Inr b \<and> good_body plat rank G k b)"

text \<open>The messages of \<open>G\<close> lead to messages of \<open>G\<close> of a smaller rank: their tasks are there, leave the table of
  records alone, and what they enqueue and retry goes down.\<close>

definition ranked :: "'d platform \<Rightarrow> (string \<times> queue_config) list \<Rightarrow> int \<Rightarrow> (sqs_message \<Rightarrow> nat) \<Rightarrow> sqs_message set \<Rightarrow> bool" where
  "ranked plat queues max_retries rank G \<longleftrightarrow> (\<forall>m \<in> G. \<exists>wr soft hard kw.
     resolves plat m wr soft hard kw \<and> record_free (wrapper_call (p_type_ok plat) wr (msg_kwargs m)) \<and>
     enqueues_only (good_task plat queues rank G (rank m)) (wrapper_call (p_type_ok plat) wr (msg_kwargs m)) \<and>
     (effective_retry_on wr \<noteq> [] \<longrightarrow> msg_n_retries m < max_retries \<longrightarrow>
        (\<forall>u. good_task plat queues rank G (rank m) (retry_task wr m u))))"

section \<open>What an execution sends\<close>

text \<open>From outside a transaction to outside a transaction, and what was sent in between is good.\<close>

definition sends_good :: "'d platform \<Rightarrow> (sqs_message \<Rightarrow> nat) \<Rightarrow> sqs_message set \<Rightarrow> nat \<Rightarrow> 'd world \<Rightarrow> 'd world \<Rightarrow> bool" where
  "sends_good plat rank G k w w' \<longleftrightarrow> (wd_frames w = [] \<longrightarrow> wd_frames w' = [] \<and>
     (\<exists>evs. sends w' = sends w @ evs \<and> (\<forall>ev \<in> set evs. \<exists>url b d. ev = SQSSend url b d \<and> good_body plat rank G k b)))"

lemma sends_good_trans: "sends_good plat rank G k w1 w2 \<Longrightarrow> sends_good plat rank G k w2 w3 \<Longrightarrow> sends_good plat rank G k w1 w3"
proof -
  assume a: "sends_good plat rank G k w1 w2" "sends_good plat rank G k w2 w3"
  show ?thesis
    unfolding sends_good_def
  proof
    assume "wd_frames w1 = []"
    then obtain evs where 1: "wd_frames w2 = []" "sends w2 = sends w1 @ evs"
      "\<forall>ev \<in> set evs. \<exists>url b d. ev = SQSSend url b d \<and> good_body plat rank G k b"
      using a(1) unfolding sends_good_def by blast
    then obtain evs' where 2: "wd_frames w3 = []" "sends w3 = sends w2 @ evs'"
      "\<forall>ev \<in> set evs'. \<exists>url b d. ev = SQSSend url b d \<and> good_body plat rank G k b"
      using a(2) unfolding sends_good_def by blast
    show "wd_frames w3 = [] \<and> (\<exists>evs. sends w3 = sends w1 @ evs \<and>
        (\<forall>ev \<in> set evs. \<exists>url b d. ev = SQSSend url b d \<and> good_body plat rank G k b))"
      using 1 2 by (intro conjI exI [of _ "evs @ evs'"]) (auto simp del: split_paired_Ex)
  qed
qed

interpretation goods: eff_relation "sends_good plat rank G k" for plat rank G k
proof
  show "sends_good plat rank G k w w" for w :: "'a world" by (simp add: sends_good_def)
qed (fact sends_good_trans)

lemma sends_nothing: "wd_frames w' = wd_frames w \<Longrightarrow> sends w' = sends w \<Longrightarrow> sends_good plat rank G k w w'"
  by (simp add: sends_good_def)

lemma good_elementary:
  "eff_keeps (sends_good plat rank G k) (task_log l)" "eff_keeps (sends_good plat rank G k) (uniform p)"
  "eff_keeps (sends_good plat rank G k) (set_log_id x)" "eff_keeps (sends_good plat rank G k) (singleton_lock p wr name hard)"
  "eff_keeps (sends_good plat rank G k) (finish_with_traceback p pk r s e)"
  "eff_keeps (sends_good plat rank G k) (finish_with_result p pk r v)"
  by (auto simp: eff_keeps_def task_log_Some uniform_def set_log_id_def singleton_lock_def eff_simps Let_def
      sends_def is_send_def elim!: finish_with_traceback_cases finish_with_result_cases
      split: option.split_asm if_split_asm intro!: sends_nothing)

text \<open>A good task is sent as a good message.\<close>

lemma good_execute:
  assumes "calm plat queues mx" and "good_task plat queues rank G k t"
  shows "eff_keeps (sends_good plat rank G k) (execute_task (Suc n) plat t)"
proof (rule eff_keepsI)
  fix w r w'
  assume x: "execute_task (Suc n) plat t w = Some (r, w')"
  obtain url b where t: "map_of queues (tk_queue t) = Some (SQSQueueConfig url)"
    "message_to_json (p_to_json plat) (tk_message t) = Inr b" "good_body plat rank G k b"
    using assms(2) by (auto simp: good_task_def)
  have "w' = add_event (SQSSend url b (tk_delay t)) w"
    using x execute_task_queue [of plat queues t url b n w] assms(1) t by (auto simp: calm_def)
  then show "sends_good plat rank G k w w'"
    using t(3) by (auto simp: sends_good_def sends_def is_send_def intro!: exI [of _ "[SQSSend url b (tk_delay t)]"])
qed

lemma good_on_commit:
  assumes "eff_keeps (sends_good plat rank G k) (execute t)"
  shows "eff_keeps (sends_good plat rank G k) (on_commit execute t)"
  using assms by (auto simp: eff_keeps_def on_commit_def sends_good_def split: if_split_asm)

lemma good_each:
  assumes "\<And>t. t \<in> set ts \<Longrightarrow> eff_keeps (sends_good plat rank G k) (execute t)"
  shows "eff_keeps (sends_good plat rank G k) (eff_each execute ts)"
  using assms by (induction ts) (auto intro: goods.keeps_pure goods.keeps_seq)

lemma good_guarded:
  assumes c: "calm plat queues mx" and e: "enqueues_only (good_task plat queues rank G k) (wrapper_call (p_type_ok plat) wr kw)"
    and "idle w" and g: "guarded_call (execute_task (Suc n) plat) plat wr kw lock soft hard w = Some (out, w')"
  shows "sends_good plat rank G k w w'"
  using assms(3) g
proof (cases rule: guarded_call_cases)
  case (Refused e)
  then show ?thesis by (auto intro!: sends_nothing simp: sends_def lock_acquired_def is_send_def split: option.split)
next
  case (RolledBack r e w2 w3)
  have "sends w2 = sends w"
    using quiet_sends [OF in_task_quiet [OF RolledBack(3)]]
    by (simp add: sends_def task_start_def lock_acquired_def is_send_def split: option.split)
  then show ?thesis
    using RolledBack(4,5) assms(3) by (intro sends_nothing) (auto simp: idle_def sends_def lock_released_def is_send_def split: option.split)
next
  case (Committed v w2 rh w3)
  have fr: "wd_frames (task_start plat lock soft hard w) \<noteq> []" by (simp add: task_start_def)
  have "\<forall>t \<in> set (wd_hooks w2). good_task plat queues rank G k t"
    using enqueueing_code.run_keeps [OF e fr Committed(2)] assms(3) by (simp add: idle_def hooks_all_def list_all_iff)
  then have "eff_keeps (sends_good plat rank G k) (eff_each (execute_task (Suc n) plat) (wd_hooks w2))"
    by (intro good_each good_execute [OF c]) blast
  then have g3: "sends_good plat rank G k (task_end plat w w2) w3" using Committed(4) by (rule eff_keepsD)
  have "sends w2 = sends w"
    using quiet_sends [OF in_task_quiet [OF Committed(3)]]
    by (simp add: sends_def task_start_def lock_acquired_def is_send_def split: option.split)
  then have "sends_good plat rank G k w (task_end plat w w2)"
    using assms(3) by (intro sends_nothing) (simp_all add: idle_def)
  from sends_good_trans [OF this g3] show ?thesis
    using Committed(5) by (simp add: sends_good_def)
qed

lemma bind_res_Inr: "eff_bind (eff_res (Inr x)) f = f x"
  by (rule ext) (simp add: eff_simps)

lemma good_handle_error:
  assumes c: "calm plat queues mx"
    and r: "effective_retry_on wr \<noteq> [] \<Longrightarrow> msg_n_retries m < mx \<Longrightarrow> \<forall>u. good_task plat queues rank G k (retry_task wr m u)"
  shows "eff_keeps (sends_good plat rank G k) (handle_error (execute_task (Suc n) plat) plat m i wr q e)"
proof -
  note keep = goods.keeps_bind goods.keeps_seq goods.keeps_pure good_elementary
  have sent: "eff_keeps (sends_good plat rank G k) (on_commit (execute_task (Suc n) plat) (retry_task wr m u))"
    if "effective_retry_on wr \<noteq> []" "msg_n_retries m < mx" for u
    using r [OF that] by (intro good_on_commit good_execute [OF c]) simp
  have "MAX_RETRIES (p_settings plat) = Inr mx" using c by (simp add: calm_def)
  then have "handle_retry (execute_task (Suc n) plat) plat m i wr q e =
     (if msg_n_retries m \<ge> mx
     then eff_bind (finish_with_traceback plat i q FAILED e) (\<lambda>r'.
          eff_seq (task_log (LMaxRetries (duration r')))
            (eff_raise (MaxRetriesExceededError (msg_task_name m) (msg_n_retries m))))
     else eff_bind (finish_with_traceback plat i q RETRIED e) (\<lambda>r'.
          eff_seq (task_log (LRetrying (cls_name (exn_cls e)) (duration r')))
            (eff_bind (uniform plat) (\<lambda>u. on_commit (execute_task (Suc n) plat) (retry_task wr m u)))))"
    by (simp add: handle_retry_def bind_res_Inr del: execute_task.simps)
  then have "eff_keeps (sends_good plat rank G k) (handle_retry (execute_task (Suc n) plat) plat m i wr q e)"
    if "effective_retry_on wr \<noteq> []"
    using that by (auto intro!: keep sent simp del: execute_task.simps)
  then show ?thesis
    unfolding handle_error_def by (auto intro!: keep simp del: execute_task.simps)
qed

section \<open>One delivery\<close>

text \<open>What the delivery of a message of \<open>G\<close> does: if its id has a record, nothing; otherwise it gets one, and what is
  sent is good.\<close>

definition tree_effect :: "'d platform \<Rightarrow> (sqs_message \<Rightarrow> nat) \<Rightarrow> sqs_message set \<Rightarrow> sqs_message \<Rightarrow> string \<Rightarrow> unit res \<Rightarrow> 'd world \<Rightarrow> 'd world \<Rightarrow> bool" where
  "tree_effect plat rank G m i out w w' \<longleftrightarrow> idle w' \<and> sends_good plat rank G (rank m) w w' \<and> others_same i w w' \<and>
     (if i \<in> record_ids w then out = Inr () \<and> wd_records w' = wd_records w \<and> sends w' = sends w
      else record_ids w' = insert i (record_ids w))"

lemma new_message_effect:
  assumes c: "calm plat queues mx" and a: "attempts plat m i w wr soft hard kw" and "idle w"
    and rf: "record_free (wrapper_call (p_type_ok plat) wr (msg_kwargs m))"
    and eo: "enqueues_only (good_task plat queues rank G k) (wrapper_call (p_type_ok plat) wr (msg_kwargs m))"
    and r: "effective_retry_on wr \<noteq> [] \<Longrightarrow> msg_n_retries m < mx \<Longrightarrow> \<forall>u. good_task plat queues rank G k (retry_task wr m u)"
    and x: "execute_immediately (Suc (Suc n)) plat m i w = Some (out, w')"
  shows "idle w' \<and> sends_good plat rank G k w w' \<and> others_same i w w' \<and> record_ids w' = insert i (record_ids w)"
proof -
  let ?r = "fresh_record m kw (wd_now w)"
  let ?c = "\<lparr>cl_wrapper = wr, cl_soft = soft, cl_hard = hard, cl_record = ?r\<rparr>"
  have ne: "\<not> EAGER (p_settings plat)" using c by (simp add: calm_def queue_mode_def)
  have i0: "idle (begun i m kw w)" using assms(3) by simp
  obtain o1 w1 where g: "guarded_call (execute_task (Suc n) plat) plat wr (msg_kwargs m) (lock_of plat wr m hard) soft hard
      (begun i m kw w) = Some (o1, w1)"
    using x unfolding execute_immediately_attempts [OF a] by (auto split: option.split_asm)
  have s1: "records_stay (begun i m kw w) w1" using stay_guarded [OF ne rf] g by (rule eff_keepsD)
  then have i1: "idle w1" "wd_records w1 = wd_records (begun i m kw w)" using i0 by (auto simp: records_stay_def simp del: begun_simps)
  obtain w2 where w2: "conclude_claim (execute_task (Suc n) plat) plat m i ?c o1 w1 = Some (out, w2)" "w' = w2\<lparr>wd_log_id := None\<rparr>"
    using x g unfolding execute_immediately_attempts [OF a] by (cases o1) (auto simp: conclude_claim_def)
  have "settles i w1 w2" using settles_conclude [OF ne] w2(1) by (rule eff_keepsD)
  then have i2: "idle w2" "\<And>j. record_lookup (wd_records w2) j = record_lookup (wd_records w1) j \<or>
     j = i \<and> (\<exists>r. record_lookup (wd_records w2) i = Some r)"
    using i1(1) unfolding settles_def by blast+
  have new: "record_lookup (wd_records w1) j = (if j = i then Some ?r else record_lookup (wd_records w) j)" for j
    using a i1(2) by (simp add: attempts_def record_lookup_insert)
  have o: "record_lookup (wd_records w') j = record_lookup (wd_records w) j" if "j \<noteq> i" for j
    using i2(2) [of j] that new [of j] w2(2) by simp
  moreover have "record_lookup (wd_records w') i \<noteq> None"
    using i2(2) [of i] new [of i] w2(2) by auto
  ultimately have "j \<in> record_ids w' \<longleftrightarrow> j \<in> insert i (record_ids w)" for j
    by (cases "j = i") (simp_all add: record_ids_iff)
  then have rec: "others_same i w w'" "record_ids w' = insert i (record_ids w)"
    using o by (auto simp: others_same_def)
  have "eff_keeps (sends_good plat rank G k) (conclude_claim (execute_task (Suc n) plat) plat m i ?c o1)"
    unfolding conclude_claim_def
    by (auto intro!: goods.keeps_bind good_elementary good_handle_error [OF c r] split: sum.split)
  then have "sends_good plat rank G k w1 w2" using w2(1) by (rule eff_keepsD)
  moreover have "sends_good plat rank G k w (begun i m kw w)"
    using quiet_sends [OF quiet_begun, of i m kw w] by (intro sends_nothing) simp_all
  ultimately have "sends_good plat rank G k w w2"
    using good_guarded [OF c eo i0 g] sends_good_trans by blast
  then show ?thesis using i2(1) rec w2(2) by (simp add: sends_good_def)
qed

lemma delivery_effect:
  assumes c: "calm plat queues mx" and rk: "ranked plat queues mx rank G" and m: "delivers plat rec m" "m \<in> G" and "idle w"
    and x: "process_record (Suc (Suc n)) plat rec w = Some (out, w')"
  shows "tree_effect plat rank G m (messageId rec) out w w'"
proof -
  let ?w = "add_event CloseConnections w"
  obtain wr soft hard kw where r: "resolves plat m wr soft hard kw" "record_free (wrapper_call (p_type_ok plat) wr (msg_kwargs m))"
    "enqueues_only (good_task plat queues rank G (rank m)) (wrapper_call (p_type_ok plat) wr (msg_kwargs m))"
    "effective_retry_on wr \<noteq> [] \<Longrightarrow> msg_n_retries m < mx \<Longrightarrow> \<forall>u. good_task plat queues rank G (rank m) (retry_task wr m u)"
    using rk m(2) unfolding ranked_def by blast
  note x' = x [unfolded process_record_calm [OF c m(1)]]
  show ?thesis
  proof (cases "messageId rec \<in> record_ids w")
    case True
    then obtain q where "record_lookup (wd_records ?w) (messageId rec) = Some q" by (auto simp: record_ids_iff)
    from duplicate_delivery_skipped [OF r(1) this, of "Suc n"] have "out = Inr ()" "wd_db w' = wd_db w" "sends w' = sends w"
      "wd_frames w' = wd_frames w" "wd_hooks w' = wd_hooks w"
      using x' by (auto simp: sends_def is_send_def log_event_def)
    then show ?thesis
      using True assms(5) by (auto simp: tree_effect_def idle_def others_same_def sends_good_def)
  next
    case False
    have a: "attempts plat m (messageId rec) ?w wr soft hard kw"
      using r(1) c False by (auto simp: attempts_def calm_def record_ids_iff)
    have "idle ?w" using assms(5) by (simp add: idle_def)
    from new_message_effect [OF c a this r(2,3) r(4) x'] False show ?thesis
      by (auto simp: tree_effect_def sends_good_def others_same_def)
  qed
qed

lemma tree_effect_ids: "tree_effect plat rank G m i out w w' \<Longrightarrow> record_ids w' = insert i (record_ids w)"
  by (auto simp: tree_effect_def record_ids_def split: if_split_asm)

section \<open>The system\<close>

definition trees_ok ::
  "'d platform \<Rightarrow> (string \<times> queue_config) list \<Rightarrow> int \<Rightarrow> (sqs_message \<Rightarrow> nat) \<Rightarrow> sqs_message set \<Rightarrow> (nat \<Rightarrow> string)
   \<Rightarrow> 'd sqs_system \<Rightarrow> bool" where
  "trees_ok plat queues max_retries rank G mid s \<longleftrightarrow>
     calm plat queues max_retries \<and> ranked plat queues max_retries rank G \<and> inj mid \<and> idle (sy_worker s) \<and>
     (\<forall>rec \<in># sy_queue s. \<exists>m \<in> G. delivers plat rec m) \<and>
     (\<forall>k \<ge> sy_next s. mid k \<notin> record_ids (sy_worker s) \<union> messageId ` set_mset (sy_queue s))"

lemma good_sent_bodies:
  assumes "sends_good plat rank G k w w'" and "wd_frames w = []"
  shows "\<forall>b \<in> set (sent_bodies w w'). good_body plat rank G k b"
proof -
  obtain evs where "sends w' = sends w @ evs" "\<forall>ev \<in> set evs. \<exists>url b d. ev = SQSSend url b d \<and> good_body plat rank G k b"
    using assms unfolding sends_good_def by blast
  then show ?thesis by (fastforce simp: sent_bodies_def)
qed

lemma new_records_in: "r \<in> set (new_records mid k bodies) \<Longrightarrow> \<exists>j \<ge> k. j < k + length bodies \<and> messageId r = mid j \<and> body r \<in> set bodies"
  by (fastforce simp: new_records_def in_set_enumerate_eq nth_mem add.commute)

lemma tree_delivery_ok:
  assumes ok: "trees_ok plat queues mx rank G mid s" and r: "rec \<in># sy_queue s"
    and x: "process_record (Suc (Suc n)) plat rec (sy_worker s) = Some (out, w')"
    and waiting: "set_mset waiting \<subseteq> set_mset (sy_queue s)"
  obtains m where "m \<in> G" "delivers plat rec m" "tree_effect plat rank G m (messageId rec) out (sy_worker s) w'"
    "\<forall>b \<in> set (sent_bodies (sy_worker s) w'). good_body plat rank G (rank m) b"
    "trees_ok plat queues mx rank G mid (after_delivery mid s w' waiting)"
proof -
  have c: "calm plat queues mx" "ranked plat queues mx rank G" and i: "idle (sy_worker s)"
    using ok by (simp_all add: trees_ok_def)
  obtain m where m: "m \<in> G" "delivers plat rec m" using ok r by (auto simp: trees_ok_def)
  note e = delivery_effect [OF c m(2,1) i x]
  then have b: "\<forall>b \<in> set (sent_bodies (sy_worker s) w'). good_body plat rank G (rank m) b"
    using i by (intro good_sent_bodies) (auto simp: tree_effect_def idle_def)
  have ids: "record_ids w' \<subseteq> insert (messageId rec) (record_ids (sy_worker s))"
    using tree_effect_ids [OF e] by blast
  have "\<exists>m \<in> G. delivers plat r' m" if "r' \<in># sy_queue (after_delivery mid s w' waiting)" for r'
    using that waiting ok b
    by (auto simp: after_delivery_def trees_ok_def delivers_def good_body_def dest!: new_records_in)
  moreover have "mid k \<notin> record_ids w' \<union> messageId ` set_mset (sy_queue (after_delivery mid s w' waiting))"
    if "sy_next (after_delivery mid s w' waiting) \<le> k" for k
  proof -
    have k: "sy_next s \<le> k" using that by (simp add: after_delivery_def)
    have "mid k \<notin> insert (messageId rec) (record_ids (sy_worker s)) \<union> messageId ` set_mset waiting"
      using ok k r waiting by (auto simp: trees_ok_def)
    moreover have "mid k \<noteq> messageId r'" if "r' \<in> set (new_records mid (sy_next s) (sent_bodies (sy_worker s) w'))" for r'
    proof -
      from new_records_in [OF that] obtain j where
        j: "j < sy_next s + length (sent_bodies (sy_worker s) w')" "messageId r' = mid j" by blast
      then have "j \<noteq> k" using \<open>sy_next (after_delivery mid s w' waiting) \<le> k\<close> by (simp add: after_delivery_def)
      moreover have "inj mid" using ok by (simp add: trees_ok_def)
      ultimately show ?thesis using j(2) by (metis injD)
    qed
    ultimately show ?thesis using ids by (auto simp: after_delivery_def)
  qed
  ultimately have "trees_ok plat queues mx rank G mid (after_delivery mid s w' waiting)"
    using ok e by (auto simp: trees_ok_def tree_effect_def after_delivery_def)
  then show thesis using that m e b by blast
qed

section \<open>Runs end\<close>

text \<open>The weight of a waiting message: twice its rank, and one more while its id has no record.\<close>

definition tree_weight :: "'d platform \<Rightarrow> (sqs_message \<Rightarrow> nat) \<Rightarrow> 'd world \<Rightarrow> sqs_record \<Rightarrow> nat" where
  "tree_weight plat rank w rec =
     2 * (case message_from_json (p_from_json plat) (p_lax_int plat) (body rec) of Inr m \<Rightarrow> rank m | Inl e \<Rightarrow> 0) +
     (if messageId rec \<in> record_ids w then 0 else 1)"

definition queue_weight :: "'d platform \<Rightarrow> (sqs_message \<Rightarrow> nat) \<Rightarrow> 'd sqs_system \<Rightarrow> nat multiset" where
  "queue_weight plat rank s = image_mset (tree_weight plat rank (sy_worker s)) (sy_queue s)"

lemma image_mset_le:
  fixes f g :: "'a \<Rightarrow> nat"
  shows "(\<And>x. x \<in># M \<Longrightarrow> f x \<le> g x) \<Longrightarrow> image_mset f M \<le> image_mset g M"
proof (induction M)
  case (add x M)
  have "f x \<le> g x" by (rule add.prems) simp
  then have "{#f x#} \<le> {#g x#}" by auto
  moreover have "image_mset f M \<le> image_mset g M" using add by simp
  ultimately have "{#f x#} + image_mset f M \<le> {#g x#} + image_mset g M" by (rule add_mono)
  then show ?case by simp
qed simp

lemma smaller_replacement:
  fixes f g :: "'a \<Rightarrow> nat"
  assumes "\<And>x. f x \<le> g x" and "\<And>x. x \<in># X \<Longrightarrow> f x < g a"
  shows "image_mset f (M + X) < image_mset g (add_mset a M)"
proof -
  have "image_mset f X < {#g a#}" using assms(2) by simp
  moreover have "image_mset f M \<le> image_mset g M" using assms(1) by (rule image_mset_le)
  ultimately have "image_mset f M + image_mset f X < image_mset g M + {#g a#}" by (rule add_le_less_mono [rotated])
  then show ?thesis by simp
qed

lemma tree_weight_delivers:
  "delivers plat rec m \<Longrightarrow> tree_weight plat rank w rec = 2 * rank m + (if messageId rec \<in> record_ids w then 0 else 1)"
  by (simp add: tree_weight_def delivers_def)

lemma delivery_lighter:
  assumes ok: "trees_ok plat queues mx rank G mid s" and r: "sy_queue s = add_mset rec M"
    and x: "process_record (Suc (Suc n)) plat rec (sy_worker s) = Some (out, w')"
    and k: "kept = {#} \<or> kept = {#rec#} \<and> (\<exists>e. out = Inl e)"
  shows "queue_weight plat rank (after_delivery mid s w' (M + kept)) < queue_weight plat rank s"
proof -
  have rec: "rec \<in># sy_queue s" using r by simp
  obtain m where m: "delivers plat rec m" and e: "tree_effect plat rank G m (messageId rec) out (sy_worker s) w'"
    and b: "\<forall>b \<in> set (sent_bodies (sy_worker s) w'). good_body plat rank G (rank m) b"
    using tree_delivery_ok [OF ok rec x subset_refl] by blast
  let ?X = "kept + mset (new_records mid (sy_next s) (sent_bodies (sy_worker s) w'))"
  have grow: "record_ids (sy_worker s) \<subseteq> record_ids w'"
    using tree_effect_ids [OF e] by blast
  then have mono: "tree_weight plat rank w' y \<le> tree_weight plat rank (sy_worker s) y" for y
    by (auto simp: tree_weight_def)
  have "tree_weight plat rank w' y < tree_weight plat rank (sy_worker s) rec" if "y \<in># ?X" for y
  proof (cases "y \<in># kept")
    case True
    with k e have "y = rec" "messageId rec \<notin> record_ids (sy_worker s)" "messageId rec \<in> record_ids w'"
      by (auto simp: tree_effect_def split: if_split_asm)
    then show ?thesis using tree_weight_delivers [OF m] by simp
  next
    case False
    with that have "y \<in> set (new_records mid (sy_next s) (sent_bodies (sy_worker s) w'))" by auto
    then have "good_body plat rank G (rank m) (body y)" using new_records_in b by blast
    then obtain m' where "delivers plat y m'" "rank m' < rank m" by (auto simp: good_body_def delivers_def)
    then show ?thesis using tree_weight_delivers [OF m] tree_weight_delivers [of plat y m'] by auto
  qed
  with mono have "image_mset (tree_weight plat rank w') (M + ?X) < image_mset (tree_weight plat rank (sy_worker s)) (add_mset rec M)"
    by (rule smaller_replacement)
  then show ?thesis by (simp add: queue_weight_def after_delivery_def r ac_simps)
qed

lemma prompt_step_lighter:
  assumes ok: "trees_ok plat queues mx rank G mid s" and st: "prompt_step (Suc (Suc (Suc n))) plat mid s s'"
  shows "trees_ok plat queues mx rank G mid s' \<and> queue_weight plat rank s' < queue_weight plat rank s"
  using st
proof (cases rule: prompt_step.cases)
  case (processed rec w')
  then obtain M where M: "sy_queue s = add_mset rec M" by (meson multi_member_split)
  have "set_mset (sy_queue s - {#rec#}) \<subseteq> set_mset (sy_queue s)" by (auto dest: in_diffD)
  from tree_delivery_ok [OF ok processed(2,3) this] delivery_lighter [OF ok M processed(3), of "{#}"] show ?thesis
    using M processed(1) by auto
next
  case (raised rec e w')
  then obtain M where M: "sy_queue s = add_mset rec M" by (meson multi_member_split)
  from tree_delivery_ok [OF ok raised(2,3) subset_refl] delivery_lighter [OF ok M raised(3), of "{#rec#}"] show ?thesis
    using M raised(1) by auto
qed

lemma tree_progress:
  "trees_ok plat queues mx rank G mid s \<Longrightarrow> sy_queue s \<noteq> {#} \<Longrightarrow> \<exists>s'. prompt_step (Suc (Suc (Suc n))) plat mid s s'"
  by (rule prompt_step_exists) (simp_all add: trees_ok_def calm_def queue_mode_def)

text \<open>A message that waits is still waiting after a step, or has its record.\<close>

lemma waiting_or_recorded:
  assumes ok: "trees_ok plat queues mx rank G mid s" and st: "prompt_step (Suc (Suc (Suc n))) plat mid s s'"
  shows "messageId ` set_mset (sy_queue s) \<union> record_ids (sy_worker s) \<subseteq>
    messageId ` set_mset (sy_queue s') \<union> record_ids (sy_worker s')"
  using st
proof (cases rule: prompt_step.cases)
  case (processed rec w')
  have "record_ids w' = insert (messageId rec) (record_ids (sy_worker s))"
    by (rule tree_delivery_ok [OF ok processed(2,3) subset_refl]) (erule tree_effect_ids)
  moreover have "r = rec \<or> r \<in># sy_queue s - {#rec#}" if "r \<in># sy_queue s" for r
    using that by (metis insert_DiffM insert_iff processed(2) set_mset_add_mset_insert)
  ultimately show ?thesis by (auto simp: processed(1) after_delivery_def)
next
  case (raised rec e w')
  have "record_ids w' = insert (messageId rec) (record_ids (sy_worker s))"
    by (rule tree_delivery_ok [OF ok raised(2,3) subset_refl]) (erule tree_effect_ids)
  then show ?thesis by (auto simp: raised(1) after_delivery_def)
qed

section \<open>The property\<close>


section \<open>An instance\<close>

text \<open>A message of the task that enqueues a greeting.\<close>

definition order_msg :: sqs_message where
  "order_msg = sample_msg ''app.tasks.order'' [] 0"

definition order_rank :: "sqs_message \<Rightarrow> nat" where
  "order_rank m = (if msg_task_name m = ''app.tasks.order'' then 1 else 0)"

definition order_messages :: "sqs_message set" where
  "order_messages = {order_msg, tk_message greet_task}"

definition order_system :: "nat sqs_system" where
  "order_system = \<lparr>sy_worker = sample_world, sy_queue = {#\<lparr>messageId = ''first'', body = ''text of order''\<rparr>#}, sy_next = 0\<rparr>"

lemma greet_loop_enqueues: "enqueues_only P (greet_loop k p) = enqueues_only P p"
  by (induction k) simp_all

lemma wrapper_enqueues:
  assumes "LambdaTaskWrapper f opts = Inr wr" and "\<forall>kw. enqueues_only P (fn_code f kw)"
  shows "enqueues_only P (wrapper_call ty wr kw)"
  using LambdaTaskWrapper_ok [OF assms(1)] assms(2) by (simp add: wrapper_call_code [of "enqueues_only P"])

lemma order_ranked: "ranked sample_platform flaky_queues 2 order_rank order_messages"
proof -
  let ?o = "sample_wrapper ''app.tasks.order''" and ?g = "sample_wrapper ''example_app.tasks.greet''"
  have r: "sample_ready ''app.tasks.order'' [] 0 ''id'' sample_world 270 300"
    "sample_ready ''example_app.tasks.greet'' [(''name'', PStr ''Ada'')] 0 ''id'' sample_world 270 300"
    "effective_retry_on ?o = []" "effective_retry_on ?g = []"
    by code_simp+
  have g: "tk_message greet_task = sample_msg ''example_app.tasks.greet'' [(''name'', PStr ''Ada'')] 0"
    by (simp add: greet_task_def sample_msg_def)
  have res: "resolves sample_platform order_msg ?o 270 300 []"
    "resolves sample_platform (tk_message greet_task) ?g 270 300 [(''name'', PStr ''Ada'')]"
    using sample_ready_attempts [OF r(1)] sample_ready_attempts [OF r(2)] unfolding g order_msg_def by (simp_all add: attempts_def)
  then have rf: "record_free (wrapper_call (p_type_ok sample_platform) ?o kw)" "record_free (wrapper_call (p_type_ok sample_platform) ?g kw)" for kw
    using sample_record_free by (auto simp: all_record_free_def resolves_def)
  have s: "good_task sample_platform flaky_queues order_rank order_messages 1 greet_task"
  proof -
    have "map_of flaky_queues (tk_queue greet_task) = Some (SQSQueueConfig ''https://sqs.localhost/default'')"
      "message_to_json (p_to_json sample_platform) (tk_message greet_task) = Inr ''text of greet''"
      "message_from_json (p_from_json sample_platform) (p_lax_int sample_platform) ''text of greet'' = Inr (tk_message greet_task)"
      "order_rank (tk_message greet_task) = 0"
      by code_simp+
    then show ?thesis by (simp add: good_task_def good_body_def order_messages_def)
  qed
  have w: "LambdaTaskWrapper order_fn default_options = Inr ?o" "LambdaTaskWrapper greet_fn default_options = Inr ?g"
  proof -
    have "\<not> isl (LambdaTaskWrapper order_fn default_options)" "\<not> isl (LambdaTaskWrapper greet_fn default_options)" by code_simp+
    then show "LambdaTaskWrapper order_fn default_options = Inr ?o" "LambdaTaskWrapper greet_fn default_options = Inr ?g"
      by (auto simp: sample_wrapper_def resolve_wrapper_def sample_platform_def sample_import_def greet_def res_bind_def split: sum.split)
  qed
  have e: "enqueues_only (good_task sample_platform flaky_queues order_rank order_messages 1) (wrapper_call (p_type_ok sample_platform) ?o kw)"
    "enqueues_only P (wrapper_call (p_type_ok sample_platform) ?g kw)" for kw P
    using s by (auto intro!: wrapper_enqueues [OF w(1)] wrapper_enqueues [OF w(2)]
        simp: order_fn_def greet_fn_def sample_fn_def add_row_def greet_loop_enqueues split: option.split pyval.split)
  have k: "order_rank order_msg = 1" by code_simp
  show ?thesis
    using res rf e r(3,4) unfolding ranked_def order_messages_def by (auto simp: k) blast+
qed

lemma order_system_ok: "trees_ok sample_platform flaky_queues 2 order_rank order_messages flaky_mid order_system"
proof -
  have "message_from_json (p_from_json sample_platform) (p_lax_int sample_platform) ''text of order'' = Inr order_msg" by code_simp
  then have "delivers sample_platform \<lparr>messageId = ''first'', body = ''text of order''\<rparr> order_msg" by (simp add: delivers_def)
  moreover have "calm sample_platform flaky_queues 2" "inj flaky_mid" "idle sample_world" "\<And>k. flaky_mid k \<noteq> ''first''"
    using flaky_system_ok by (auto simp: sys_ok_def flaky_system_def flaky_record_def)
  ultimately show ?thesis
    using order_ranked by (auto simp: trees_ok_def order_system_def order_messages_def sample_no_ids)
qed

text \<open>The run: the order is processed and leaves a greeting, the greeting is processed and leaves nothing.\<close>

definition order_processed :: "nat world" where
  "order_processed = snd (the (process_record (Suc (Suc (Suc 0))) sample_platform
     \<lparr>messageId = ''first'', body = ''text of order''\<rparr> sample_world))"

definition greet_processed :: "nat world" where
  "greet_processed = snd (the (process_record (Suc (Suc (Suc 0))) sample_platform
     \<lparr>messageId = flaky_mid 0, body = ''text of greet''\<rparr> order_processed))"

lemma order_run:
  "(prompt_step (Suc (Suc (Suc 0))) sample_platform flaky_mid)\<^sup>*\<^sup>* order_system
     \<lparr>sy_worker = greet_processed, sy_queue = {#}, sy_next = 1\<rparr>"
proof -
  let ?st = "prompt_step (Suc (Suc (Suc 0))) sample_platform flaky_mid"
  let ?o = "\<lparr>messageId = ''first'', body = ''text of order''\<rparr>" and ?g = "\<lparr>messageId = flaky_mid 0, body = ''text of greet''\<rparr>"
  let ?p = "process_record (Suc (Suc (Suc 0))) sample_platform"
  let ?s1 = "\<lparr>sy_worker = order_processed, sy_queue = {#?g#}, sy_next = 1\<rparr>"
  have p: "?p ?o sample_world = Some (Inr (), order_processed)" "sent_bodies sample_world order_processed = [''text of greet'']"
    "?p ?g order_processed = Some (Inr (), greet_processed)" "sent_bodies order_processed greet_processed = []"
    by code_simp+
  have "?st order_system (after_delivery flaky_mid order_system order_processed (sy_queue order_system - {#?o#}))"
    by (rule prompt_step.processed) (simp_all add: order_system_def p(1))
  then have 1: "?st order_system ?s1"
    using p(2) by (simp add: after_delivery_def order_system_def new_records_def)
  have "?st ?s1 (after_delivery flaky_mid ?s1 greet_processed (sy_queue ?s1 - {#?g#}))"
    by (rule prompt_step.processed) (simp_all add: p(3))
  then have 2: "?st ?s1 \<lparr>sy_worker = greet_processed, sy_queue = {#}, sy_next = 1\<rparr>"
    using p(4) by (simp add: after_delivery_def new_records_def)
  from 1 2 show ?thesis by (meson rtranclp.rtrancl_refl rtranclp.rtrancl_into_rtrancl)
qed


end
