(* ===== verification/Spec2Isabelle.thy ===== *)
theory Spec2Isabelle
  imports Cleanup_Props Message_Journey Tracing_Props Admin_Props Migrations Pool_Props Singleton_Overlap Admin_Site Example_Project Task_Trees
begin

text \<open>
  A model of \<open>lambda_tasks\<close>, a Django task queue over SQS, AWS Lambda and AWS Batch, and the theorems
  that make it correct.  Paths are relative to the repository.

  THE PROGRAM.  A function decorated with \<open>@lambda_task\<close> becomes a wrapper
  (\<open>lambda_tasks/decorators.py\<close>).  A call of its \<open>execute_on_commit\<close> builds a message and, when the
  database transaction has committed, sends it (\<open>SQSLambdaTask._execute\<close> in \<open>lambda_tasks/models.py\<close>):
  to an SQS queue, through SQS to AWS Batch (\<open>lambda_tasks/tasks.py\<close>), to a local process pool
  (\<open>lambda_tasks/local_executor.py\<close>), into the same process (eager mode), or nowhere, as the settings say
  (\<open>lambda_tasks/settings.py\<close>).  SQS hands batches of messages to the Lambda handler, Batch starts a
  container with one message (\<open>lambda_tasks/handler.py\<close>).  A worker loads its environment and secrets
  (\<open>environment_loader.py\<close>, \<open>secret_loader.py\<close>), sets up tracing (\<open>tracing.py\<close>), and executes the message
  (\<open>SQSLambdaTaskMessage.execute_immediately\<close>): a row of \<open>TaskRecord\<close> under the message id guards
  against duplicates, the task runs in a transaction, under its time limits (\<open>timeouts.py\<close>) and, if it
  is a singleton, under a lock; afterwards the row says SUCCEEDED, FAILED or RETRIED, and a retry is sent.

  THE MODEL, in the order of the imports.

    \<open>Py_Prelude\<close>, \<open>Py_Strings\<close>, \<open>Py_Effects\<close>: Python values, exceptions with their classes, the string
      operations, and effects \<open>state \<Rightarrow> (error + value) \<times> state\<close> with \<open>try\<close>, \<open>finally\<close> and \<open>with\<close>.  The locale
      \<open>eff_relation\<close> proves once that an effect keeps a relation between states when its parts do.
    \<open>Settings\<close>: \<open>settings.py\<close>, \<open>checks.py\<close>.  \<open>Task_Data\<close>: rows, messages, and \<open>prog\<close>, what the code of a task
      may do (time passes, the database is read and written, tasks are enqueued, Batch is called).
    \<open>Decorators\<close>: \<open>decorators.py\<close>.  \<open>Timeouts\<close>: \<open>timeouts.py\<close> over the SIGALRM state.
    \<open>World\<close>: the state of a process (database with open transactions and commit hooks, clock, alarm,
      message id of the logger (\<open>logging.py\<close>), pool, and the trace of log lines and external calls) and the
      \<open>platform\<close>, the record of everything that is not under \<open>src/\<close>.
    \<open>Batch_Tasks\<close>: \<open>tasks.py\<close>.  \<open>Local_Executor\<close>, \<open>Pool_Shutdown\<close>: \<open>local_executor.py\<close>, \<open>apps.py\<close>.
    \<open>Record_Store\<close>: the table of records, as a locale and its interpretation.  \<open>Executor\<close>: \<open>models.py\<close>,
      \<open>_execute\<close> and \<open>execute_immediately\<close>.  \<open>Admin\<close>, \<open>Admin_Site\<close>: \<open>admin.py\<close>, its methods and what the class
      declares.  \<open>Migrations\<close>: \<open>migrations/\<close> and the table the class \<open>TaskRecord\<close> declares.
    \<open>Environment\<close>: the two loaders.  \<open>Tracing\<close>: \<open>tracing.py\<close>.  \<open>Handler\<close>: \<open>handler.py\<close>, over \<open>worker\<close>, the state
      before Django (\<open>boot\<close>) and the world.
    \<open>Sample\<close>, \<open>Example_Project\<close>: the project under \<open>example/\<close>, more tasks, and a platform that answers; the
      witnesses of the properties evaluate the model on them.
    \<open>Ledger\<close>, \<open>Delivery_System\<close>: the abstract ledger of attempts, and the worker with its queues as a
      transition system that implements it.  \<open>Concurrency\<close>: any number of workers on one database, with
      \<open>execute_immediately\<close> cut into three steps: the claim of a message, the call of its task, and the
      writing of its outcome; a worker may die between them, and other processes write the rows of the
      application meanwhile.  \<open>Task_Trees\<close>: the worker with its queues,
      for tasks that enqueue tasks.

  WHAT THE LEMMAS SHOW.  \<open>Executor_Facts\<close>, \<open>Guarded_Call\<close>, \<open>Lifecycle\<close>: what each path through the executor
  does, state by state; the locale \<open>task_code\<close> proves once that the code of a task keeps a relation when
  its steps do.  \<open>Worker_Invariants\<close>: what every message leaves intact, by an induction over the
  two mutually recursive functions done once in the locale \<open>worker_relation\<close>.  \<open>Dispatch\<close>: where a task
  goes.  \<open>Executor_Props\<close>, \<open>Delivery_Props\<close>: rollback, commit, retry, redelivery, singleton locks.
  \<open>Timeout_Props\<close>: when the limits are raised.  \<open>Late_Errors\<close>: errors that come after the commit, from a
  commit hook or from a lock that was lost, which replace the outcome of the task.
  \<open>Singleton_Overlap\<close>: why the runs of a singleton task are kept apart, given what the lock service
  promises.  \<open>Bounds_Props\<close>: termination.  \<open>Config_Props\<close>: decoration,
  settings, round trips.  \<open>Message_Journey\<close>: the way of a message from \<open>execute_on_commit\<close> through JSON text,
  queue and handler, also through Batch, to the call of the function, and what happens when JSON changes
  the arguments.  \<open>Cleanup_Props\<close>: the life of a clean-up message.  \<open>Environment_Props\<close>, \<open>Handler_Props\<close>, \<open>Tracing_Props\<close>: the loaders, the
  entry points, tracing.  \<open>Admin_Props\<close>, \<open>Admin_Site\<close>, \<open>Migrations\<close>, \<open>Pool_Props\<close>: replay, the fields the admin
  names, schema, shutdown of the pool.
  \<open>Steady_Tasks\<close>, \<open>Delivery_System\<close>: for tasks that neither enqueue tasks nor write records, every
  invocation of the handler is a run of the ledger; however often and in whatever order messages are
  delivered, attempts are bounded by the retries, a record never changes once it is left, and from every
  reachable state the queue can be worked off; when no acknowledgement is lost, every run ends with an
  empty queue.  \<open>Task_Trees\<close>: the same end for tasks that enqueue tasks, if the chains of messages are
  finite, by a multiset order on the waiting messages.  \<open>Concurrency\<close>: no interleaving of workers runs a
  task twice for one message id, the status of a record only moves forward, and a record whose worker
  has died is never touched again.

  BOUNDS.  \<open>execute_immediately\<close> and \<open>execute_task\<close> call each other; their first argument bounds the
  nesting and \<open>None\<close> means that it was used up.  Outside eager mode three levels are always enough
  (\<open>execution_always_ends\<close>); in eager mode a chain of \<open>d\<close> retries needs \<open>2 d + 1\<close> (\<open>eager_retry_chain_ends\<close>),
  and a task that enqueues itself for ever has no bound, as in Python.  A larger bound never changes an
  outcome (\<open>nesting_bound_is_immaterial\<close>).  Time is counted in whole seconds, as \<open>signal.alarm\<close> does.

  PARAMETERS.  \<open>platform\<close>: \<open>import_string\<close>, pydantic's type checks, conversions and JSON, refusals of the
  database (of a COMMIT, too), the lock, SQS, Batch and the pool, random numbers and UUIDs; \<open>services\<close>: Secrets Manager,
  \<open>json.loads\<close>, the ECS metadata, \<open>setrlimit\<close>, \<open>django.setup()\<close> and the OpenTelemetry packages.  A service
  may answer differently at each call, since its answer depends on the trace.  Transactions and commit
  hooks, the SIGALRM state, and the migration operations are written out from their documentation.

  NOT MODELLED.  Savepoints of a task's own; tasks that change the SIGALRM state themselves; workers that
  interleave more finely than in \<open>Concurrency\<close> (\<open>get_or_create\<close> is one step, its refusals are the parameter
  \<open>p_create_error\<close>, and the call of a task is one step, because its changes become visible at its
  COMMIT); the log lines of the application and those of the package other than the ones of
  \<open>execute_immediately\<close>; URL routing, and the settings of the example that the package does not read.  These are either
  configuration that only Django interprets or text that no operation reads.  The system of
  \<open>Delivery_System\<close> leaves out visibility timeouts, dead-letter queues and delays: its queue may deliver
  any waiting message at any time, which includes every order they could lead to, but it never gives a
  message up.  Message ids are compared as strings, where the column of the table compares UUIDs: two
  spellings of one UUID are two ids here.
\<close>

end
